(* ===== verification/Kaleido_Prelude.thy ===== *)
theory Kaleido_Prelude
  imports Main "HOL-Library.Word" "HOL-Library.List_Lexorder" "HOL-Library.Char_ord"
    "HOL-Library.Sublist"
begin

text \<open>
  Shared vocabulary of the development.

  \<^item> Rust's \<open>Result\<close> is the sum type: \<open>Inl\<close> carries the error, \<open>Inr\<close> the value. A
    validator is a list of checks run in source order (\<open>run_checks\<close>); \<open>?\<close> is \<open>and_then\<close>.
  \<^item> \<open>u32\<close> and \<open>u64\<close> are words. \<open>i64\<close> instants are integers whose checked addition writes
    the bounds out. \<open>usize\<close> lengths are naturals.
  \<^item> \<open>String\<close> is the list of its UTF-8 bytes; the lexicographic byte order is Rust's \<open>Ord\<close>.
  The collections \<open>check_simps\<close> and \<open>bt_simps\<close> hold the facts the component proofs rest on.
\<close>

named_theorems check_simps \<open>when a sequence of checks succeeds\<close>
named_theorems bt_simps \<open>lookups and updates of ordered maps\<close>

section \<open>Results\<close>

type_synonym ('e, 'a) result = "'e + 'a"
type_synonym 'e check = "'e + unit"

abbreviation ok :: "'e check" where "ok \<equiv> Inr ()"

definition reject_if :: "bool \<Rightarrow> 'e \<Rightarrow> 'e check" where
  "reject_if b e = (if b then Inl e else ok)"

fun run_checks :: "'e check list \<Rightarrow> 'e check" where
  "run_checks [] = ok"
| "run_checks (c # cs) = (case c of Inl e \<Rightarrow> Inl e | Inr _ \<Rightarrow> run_checks cs)"

definition and_then :: "('e, 'a) result \<Rightarrow> ('a \<Rightarrow> ('e, 'b) result) \<Rightarrow> ('e, 'b) result" where
  "and_then r f = (case r of Inl e \<Rightarrow> Inl e | Inr a \<Rightarrow> f a)"

definition ok_or :: "'a option \<Rightarrow> 'e \<Rightarrow> ('e, 'a) result" where
  "ok_or x e = (case x of None \<Rightarrow> Inl e | Some a \<Rightarrow> Inr a)"

definition map_err :: "('e \<Rightarrow> 'f) \<Rightarrow> ('e, 'a) result \<Rightarrow> ('f, 'a) result" where
  "map_err g r = (case r of Inl e \<Rightarrow> Inl (g e) | Inr a \<Rightarrow> Inr a)"

definition is_ok :: "('e, 'a) result \<Rightarrow> bool" where
  "is_ok r = (case r of Inl _ \<Rightarrow> False | Inr _ \<Rightarrow> True)"

definition when_some :: "('a \<Rightarrow> 'e check) \<Rightarrow> 'a option \<Rightarrow> 'e check" where
  "when_some f x = (case x of None \<Rightarrow> ok | Some a \<Rightarrow> f a)"

definition is_some_and :: "('a \<Rightarrow> bool) \<Rightarrow> 'a option \<Rightarrow> bool" where
  "is_some_and p x = (case x of None \<Rightarrow> False | Some a \<Rightarrow> p a)"

definition for_each :: "('a \<Rightarrow> 'e check) \<Rightarrow> 'a list \<Rightarrow> 'e check" where
  "for_each f xs = run_checks (map f xs)"

text \<open>
  The recurring loop that keeps a list of the keys met so far: the body is told whether the
  key of the current element was already met.
\<close>

fun for_seen :: "('a \<Rightarrow> 'k) \<Rightarrow> (bool \<Rightarrow> 'a \<Rightarrow> 'e check) \<Rightarrow> 'k list \<Rightarrow> 'a list \<Rightarrow> 'e check" where
  "for_seen key body seen [] = ok"
| "for_seen key body seen (x # xs) =
     (case body (key x \<in> set seen) x of
        Inl e \<Rightarrow> Inl e
      | Inr _ \<Rightarrow> for_seen key body (key x # seen) xs)"

text \<open>A loop over a list that threads a state and stops at the first error.\<close>

fun try_fold :: "('a \<Rightarrow> 's \<Rightarrow> ('e, 's) result) \<Rightarrow> 'a list \<Rightarrow> 's \<Rightarrow> ('e, 's) result" where
  "try_fold f [] s = Inr s"
| "try_fold f (x # xs) s = and_then (f x s) (try_fold f xs)"

lemma reject_if_ok [simp, check_simps]: "reject_if b e = Inr u \<longleftrightarrow> \<not> b"
  by (simp add: reject_if_def)

lemma reject_if_err [simp]: "reject_if b e = Inl e' \<longleftrightarrow> b \<and> e' = e"
  by (auto simp: reject_if_def)

lemma reject_if_False [simp]: "reject_if False e = ok"
  by (simp add: reject_if_def)

lemma reject_if_True [simp]: "reject_if True e = Inl e"
  by (simp add: reject_if_def)

lemma run_checks_ok [check_simps]: "run_checks cs = Inr u \<longleftrightarrow> (\<forall>c \<in> set cs. c = ok)"
  by (induction cs) (auto split: sum.splits)

lemma run_checks_Cons_ok: "run_checks (c # cs) = Inr u \<longleftrightarrow> c = ok \<and> run_checks cs = ok"
  by (cases c) auto

lemma run_checks_Cons_err:
  "run_checks (c # cs) = Inl e \<longleftrightarrow> c = Inl e \<or> (c = ok \<and> run_checks cs = Inl e)"
  by (cases c) auto

declare run_checks.simps(2) [simp del]
declare run_checks_Cons_ok [simp]

lemma run_checks_Inl [simp]: "run_checks (Inl e # cs) = Inl e"
  by (simp add: run_checks.simps)

lemma run_checks_Inr [simp]: "run_checks (Inr u # cs) = run_checks cs"
  by (simp add: run_checks.simps)

lemma run_checks_append:
  "run_checks (cs @ ds) = (case run_checks cs of Inl e \<Rightarrow> Inl e | Inr _ \<Rightarrow> run_checks ds)"
  by (induction cs) (auto simp: run_checks.simps split: sum.splits)

lemma run_checks_err_mem: "run_checks cs = Inl e \<Longrightarrow> Inl e \<in> set cs"
  by (induction cs) (auto simp: run_checks.simps split: sum.splits)

lemma and_then_Inr [simp]: "and_then (Inr a) f = f a"
  by (simp add: and_then_def)

lemma and_then_Inl [simp]: "and_then (Inl e) f = Inl e"
  by (simp add: and_then_def)

lemma and_then_ok [check_simps]: "and_then r f = Inr b \<longleftrightarrow> (\<exists>a. r = Inr a \<and> f a = Inr b)"
  by (cases r) auto

lemma ok_or_simps [simp]:
  "ok_or None e = Inl e" "ok_or (Some a) e = Inr a"
  by (simp_all add: ok_or_def)

lemma ok_or_ok [check_simps]: "ok_or x e = Inr a \<longleftrightarrow> x = Some a"
  by (cases x) auto

lemma map_err_ok [check_simps]: "map_err g r = Inr a \<longleftrightarrow> r = Inr a"
  by (cases r) (auto simp: map_err_def)

lemma map_err_simps [simp]: "map_err g (Inl e) = Inl (g e)" "map_err g (Inr a) = Inr a"
  by (simp_all add: map_err_def)

lemma is_ok_iff [simp]: "is_ok r \<longleftrightarrow> (\<exists>a. r = Inr a)"
  by (cases r) (auto simp: is_ok_def)

lemma when_some_ok [check_simps]: "when_some f x = Inr u \<longleftrightarrow> (\<forall>a. x = Some a \<longrightarrow> f a = ok)"
  by (cases x) (auto simp: when_some_def)

lemma when_some_simps [simp]: "when_some f None = ok" "when_some f (Some a) = f a"
  by (simp_all add: when_some_def)

text \<open>\<open>Option::iter\<close>, and \<open>Option::or\<close>.\<close>

primrec opt_list :: "'a option \<Rightarrow> 'a list" where
  "opt_list None = []"
| "opt_list (Some a) = [a]"

primrec opt_or :: "'a option \<Rightarrow> 'a option \<Rightarrow> 'a option" where
  "opt_or None b = b"
| "opt_or (Some a) b = Some a"

lemma set_opt_list [simp]: "a \<in> set (opt_list x) \<longleftrightarrow> x = Some a"
  by (cases x) auto

lemma opt_or_eq_Some: "opt_or a b = Some x \<longleftrightarrow> a = Some x \<or> a = None \<and> b = Some x"
  by (cases a) auto

lemma is_some_and_iff: "is_some_and p x \<longleftrightarrow> (\<exists>a. x = Some a \<and> p a)"
  by (cases x) (auto simp: is_some_and_def)

lemma is_some_and_simps [simp]: "\<not> is_some_and p None" "is_some_and p (Some a) \<longleftrightarrow> p a"
  by (simp_all add: is_some_and_def)

lemma for_each_ok [check_simps]: "for_each f xs = Inr u \<longleftrightarrow> (\<forall>x \<in> set xs. f x = ok)"
  by (simp add: for_each_def run_checks_ok)

text \<open>A loop whose body refuses a repeated key accepts exactly the lists with distinct keys.\<close>

lemma for_seen_ok:
  assumes "\<And>x. body True x \<noteq> ok"
  shows "for_seen key body seen xs = ok \<longleftrightarrow>
    distinct (map key xs) \<and> set (map key xs) \<inter> set seen = {} \<and> (\<forall>x \<in> set xs. body False x = ok)"
proof (induction xs arbitrary: seen)
  case Nil
  then show ?case by simp
next
  case (Cons x xs)
  show ?case
  proof (cases "key x \<in> set seen")
    case True
    with assms [of x] show ?thesis by (auto split: sum.splits)
  next
    case False
    then show ?thesis by (cases "body False x") (auto simp: Cons.IH)
  qed
qed

lemma try_fold_append:
  "try_fold f (xs @ ys) s = and_then (try_fold f xs s) (try_fold f ys)"
  by (induction xs arbitrary: s) (auto simp: and_then_def split: sum.splits)

lemma try_fold_inv:
  assumes "\<And>x s s'. x \<in> set xs \<Longrightarrow> P s \<Longrightarrow> f x s = Inr s' \<Longrightarrow> P s'"
    and "try_fold f xs s = Inr s'" and "P s"
  shows "P s'"
  using assms
proof (induction xs arbitrary: s)
  case Nil
  then show ?case by simp
next
  case (Cons x xs)
  from Cons.prems(2) obtain t where t: "f x s = Inr t" "try_fold f xs t = Inr s'"
    by (auto simp: and_then_ok)
  then have "P t" using Cons.prems(1) [OF _ Cons.prems(3) t(1)] by simp
  show ?case
    by (rule Cons.IH [OF _ t(2) \<open>P t\<close>]) (use Cons.prems(1) in auto)
qed

section \<open>Integers\<close>

type_synonym u32 = "32 word"
type_synonym u64 = "64 word"
type_synonym i64 = int

definition u32_MAX :: u32 where "u32_MAX = 4294967295"
definition i64_MIN :: i64 where "i64_MIN = - (2 ^ 63)"
definition i64_MAX :: i64 where "i64_MAX = 2 ^ 63 - 1"

text \<open>\<open>u32::try_from(count).unwrap_or(u32::MAX)\<close>\<close>

definition u32_of_count :: "nat \<Rightarrow> u32" where
  "u32_of_count n = (if n < 2 ^ 32 then of_nat n else u32_MAX)"

definition u32_saturating_succ :: "u32 \<Rightarrow> u32" where
  "u32_saturating_succ n = (if n = u32_MAX then u32_MAX else n + 1)"

definition checked_add :: "'a::len word \<Rightarrow> 'a word \<Rightarrow> 'a word option" where
  "checked_add a b = (if unat a + unat b < 2 ^ LENGTH('a) then Some (a + b) else None)"

definition i64_checked_add :: "i64 \<Rightarrow> i64 \<Rightarrow> i64 option" where
  "i64_checked_add a b = (if i64_MIN \<le> a + b \<and> a + b \<le> i64_MAX then Some (a + b) else None)"

definition i64_checked_sub :: "i64 \<Rightarrow> i64 \<Rightarrow> i64 option" where
  "i64_checked_sub a b = (if i64_MIN \<le> a - b \<and> a - b \<le> i64_MAX then Some (a - b) else None)"

lemma unat_u32_MAX: "unat u32_MAX = 2 ^ 32 - 1"
  by (simp add: u32_MAX_def)

lemma unat_u32_of_count: "unat (u32_of_count n) = min n (2 ^ 32 - 1)"
  by (auto simp: u32_of_count_def unat_u32_MAX unat_of_nat take_bit_nat_eq_self min_def)

lemma unat_u32_saturating_succ: "unat (u32_saturating_succ n) = min (Suc (unat n)) (2 ^ 32 - 1)"
proof (cases "n = u32_MAX")
  case True
  then show ?thesis by (simp add: u32_saturating_succ_def unat_u32_MAX)
next
  case False
  then have "unat n \<noteq> 2 ^ 32 - 1" by (metis unat_u32_MAX word_unat_eq_iff)
  moreover have "unat n < 2 ^ 32" using unsigned_less [of n] by simp
  ultimately have "Suc (unat n) < 2 ^ 32" by simp
  with False show ?thesis
    by (simp add: u32_saturating_succ_def unat_word_ariths)
qed

lemma checked_add_Some:
  "checked_add a b = Some c \<longleftrightarrow> unat a + unat b < 2 ^ LENGTH('a) \<and> c = a + b"
  for a b c :: "'a::len word"
  by (auto simp: checked_add_def)

lemma unat_checked_add: "checked_add a b = Some c \<Longrightarrow> unat c = unat a + unat b"
  by (auto simp: checked_add_Some unat_word_ariths)

lemma checked_add_None:
  "checked_add a b = None \<longleftrightarrow> 2 ^ LENGTH('a) \<le> unat a + unat b" for a b :: "'a::len word"
  by (auto simp: checked_add_def)

text \<open>Evaluation compares words and integers, not unary numbers.\<close>

lemma checked_add_code [code]: "checked_add a b = (let c = a + b in if c < a then None else Some c)"
  for a b :: "'a::len word"
proof -
  have lt: "unat a < 2 ^ LENGTH('a)" "unat b < 2 ^ LENGTH('a)"
    by (rule unsigned_less)+
  have "a + b < a \<longleftrightarrow> \<not> unat a + unat b < 2 ^ LENGTH('a)"
  proof (cases "unat a + unat b < 2 ^ LENGTH('a)")
    case True
    then show ?thesis
      by (simp add: word_less_nat_alt unat_word_ariths)
  next
    case False
    moreover have "(unat a + unat b) mod 2 ^ LENGTH('a) = unat a + unat b - 2 ^ LENGTH('a)"
      using lt False by (simp add: le_mod_geq not_less less_diff_conv2 add_mono1 add_less_mono)
    ultimately have "unat (a + b) = unat a + unat b - 2 ^ LENGTH('a)"
      by (simp add: unat_word_ariths)
    with False lt show ?thesis
      unfolding word_less_nat_alt by linarith
  qed
  then show ?thesis
    by (simp add: checked_add_def Let_def)
qed

lemma u32_of_count_code [code]:
  "u32_of_count n = (if int n \<le> 4294967295 then word_of_int (int n) else u32_MAX)"
  by (simp add: u32_of_count_def)

lemma sort_key_insort_code [code]: "sort_key f xs = foldr (insort_key f) xs []"
  by (simp add: sort_key_def)

section \<open>Strings as UTF-8 bytes\<close>

definition byte_of :: "char \<Rightarrow> nat" where "byte_of c = of_char c"

definition is_ascii_digit :: "char \<Rightarrow> bool" where
  "is_ascii_digit c \<longleftrightarrow> 48 \<le> byte_of c \<and> byte_of c \<le> 57"

definition is_ascii_uppercase :: "char \<Rightarrow> bool" where
  "is_ascii_uppercase c \<longleftrightarrow> 65 \<le> byte_of c \<and> byte_of c \<le> 90"

definition is_ascii_lowercase :: "char \<Rightarrow> bool" where
  "is_ascii_lowercase c \<longleftrightarrow> 97 \<le> byte_of c \<and> byte_of c \<le> 122"

definition is_ascii_alphanumeric :: "char \<Rightarrow> bool" where
  "is_ascii_alphanumeric c \<longleftrightarrow> is_ascii_digit c \<or> is_ascii_uppercase c \<or> is_ascii_lowercase c"

definition is_ascii_hexdigit :: "char \<Rightarrow> bool" where
  "is_ascii_hexdigit c \<longleftrightarrow> is_ascii_digit c \<or> (65 \<le> byte_of c \<and> byte_of c \<le> 70)
     \<or> (97 \<le> byte_of c \<and> byte_of c \<le> 102)"

definition to_ascii_lowercase :: "string \<Rightarrow> string" where
  "to_ascii_lowercase = map (\<lambda>c. if is_ascii_uppercase c then char_of (byte_of c + 32) else c)"

definition strip_prefix :: "string \<Rightarrow> string \<Rightarrow> string option" where
  "strip_prefix p s = (if take (length p) s = p then Some (drop (length p) s) else None)"

text \<open>\<open>str::contains\<close>\<close>

fun str_contains :: "string \<Rightarrow> string \<Rightarrow> bool" where
  "str_contains [] p \<longleftrightarrow> p = []"
| "str_contains (c # s) p \<longleftrightarrow> take (length p) (c # s) = p \<or> str_contains s p"

text \<open>
  \<open>char::is_control\<close> on a UTF-8 byte string: the C0 controls and DEL are one byte, the C1
  controls are the two-byte sequences \<open>C2 80\<close> to \<open>C2 9F\<close>.
\<close>

fun has_control :: "string \<Rightarrow> bool" where
  "has_control [] \<longleftrightarrow> False"
| "has_control (c # s) \<longleftrightarrow> byte_of c < 32 \<or> byte_of c = 127
     \<or> (byte_of c = 194 \<and> (case s of [] \<Rightarrow> False | d # _ \<Rightarrow> 128 \<le> byte_of d \<and> byte_of d < 160))
     \<or> has_control s"

text \<open>Evaluation compares bytes as integers, not as unary numbers.\<close>

lemma byte_of_int: "int (byte_of c) = of_char c"
  by (cases c) (simp add: byte_of_def)

lemma byte_le_int: "numeral n \<le> byte_of c \<longleftrightarrow> numeral n \<le> (of_char c :: int)"
  "byte_of c \<le> numeral n \<longleftrightarrow> (of_char c :: int) \<le> numeral n"
  "byte_of c < numeral n \<longleftrightarrow> (of_char c :: int) < numeral n"
  "byte_of c = numeral n \<longleftrightarrow> (of_char c :: int) = numeral n"
  unfolding byte_of_int [symmetric] by simp_all

lemma is_ascii_digit_code [code]: "is_ascii_digit c = (let b = of_char c :: int in 48 \<le> b \<and> b \<le> 57)"
  by (simp add: is_ascii_digit_def byte_le_int Let_def)

lemma is_ascii_uppercase_code [code]: "is_ascii_uppercase c = (let b = of_char c :: int in 65 \<le> b \<and> b \<le> 90)"
  by (simp add: is_ascii_uppercase_def byte_le_int Let_def)

lemma is_ascii_lowercase_code [code]: "is_ascii_lowercase c = (let b = of_char c :: int in 97 \<le> b \<and> b \<le> 122)"
  by (simp add: is_ascii_lowercase_def byte_le_int Let_def)

lemma is_ascii_hexdigit_code [code]:
  "is_ascii_hexdigit c = (let b = of_char c :: int in 48 \<le> b \<and> b \<le> 57 \<or> 65 \<le> b \<and> b \<le> 70 \<or> 97 \<le> b \<and> b \<le> 102)"
  by (simp add: is_ascii_hexdigit_def is_ascii_digit_def byte_le_int Let_def)

lemma has_control_code [code]:
  "has_control [] \<longleftrightarrow> False"
  "has_control (c # s) \<longleftrightarrow> (let b = of_char c :: int in b < 32 \<or> b = 127
     \<or> b = 194 \<and> (case s of [] \<Rightarrow> False | d # _ \<Rightarrow> let e = of_char d :: int in 128 \<le> e \<and> e < 160)
     \<or> has_control s)"
  by (simp_all add: byte_le_int Let_def split: list.split)

text \<open>Bytes \<open>80\<close> to \<open>BF\<close> continue a character; every other byte starts one.\<close>

definition is_continuation_byte :: "char \<Rightarrow> bool" where
  "is_continuation_byte c \<longleftrightarrow> 128 \<le> byte_of c \<and> byte_of c < 192"

text \<open>A lower-case hexadecimal digest of 64 digits.\<close>

definition is_lower_hex64 :: "string \<Rightarrow> bool" where
  "is_lower_hex64 s \<longleftrightarrow>
     length s = 64 \<and> list_all (\<lambda>c. is_ascii_hexdigit c \<and> \<not> is_ascii_uppercase c) s"

text \<open>Decimal rendering of a length, as \<open>format!\<close> prints it.\<close>

fun show_nat :: "nat \<Rightarrow> string" where
  "show_nat n = (if n < 10 then [char_of (48 + n)] else show_nat (n div 10) @ [char_of (48 + n mod 10)])"

declare show_nat.simps [simp del]

definition read_nat :: "string \<Rightarrow> nat" where
  "read_nat s = foldl (\<lambda>n c. 10 * n + (byte_of c - 48)) 0 s"

lemma byte_of_char_of [simp]: "n < 256 \<Longrightarrow> byte_of (char_of n) = n"
  by (simp add: byte_of_def)

lemma show_nat_digits: "list_all is_ascii_digit (show_nat n)"
proof (induction n rule: show_nat.induct)
  case (1 n)
  then show ?case
    by (cases "n < 10") (auto simp: show_nat.simps [of n] is_ascii_digit_def)
qed

lemma read_show_nat: "read_nat (show_nat n) = n"
proof (induction n rule: show_nat.induct)
  case (1 n)
  then show ?case
    by (cases "n < 10") (auto simp: show_nat.simps [of n] read_nat_def)
qed

lemma show_nat_inject [simp]: "show_nat m = show_nat n \<longleftrightarrow> m = n"
  by (metis read_show_nat)

text \<open>
  A decimal number followed by a byte that is not a digit determines both the number and
  the rest: this makes every length-prefixed rendering of the code injective.
\<close>

lemma show_nat_append_inject:
  assumes "show_nat m @ c # s = show_nat n @ d # t" "\<not> is_ascii_digit c" "\<not> is_ascii_digit d"
  shows "m = n \<and> c = d \<and> s = t"
proof -
  have "takeWhile is_ascii_digit (show_nat m @ c # s) = show_nat m"
    using assms(2) show_nat_digits [of m] by (auto simp: takeWhile_append2 list_all_iff)
  moreover have "takeWhile is_ascii_digit (show_nat n @ d # t) = show_nat n"
    using assms(3) show_nat_digits [of n] by (auto simp: takeWhile_append2 list_all_iff)
  ultimately have eq: "show_nat m = show_nat n" using assms(1) by metis
  with assms(1) show ?thesis by simp
qed

lemma strip_prefix_Some: "strip_prefix p s = Some t \<longleftrightarrow> s = p @ t"
  by (auto simp: strip_prefix_def) (metis append_take_drop_id)

end
