(* ===== verification/Ordered_Map.thy ===== *)
theory Ordered_Map
  imports Kaleido_Prelude
begin

text \<open>
  \<open>BTreeMap\<close>: the collection every store of the program is made of. The model keeps the
  entries as an association list in strictly increasing key order, so iteration
  (\<open>values()\<close>, \<open>keys()\<close>, \<open>iter()\<close>) is the list itself and the first entry is the smallest
  key, as in the source. The locale \<open>ordered_map\<close> is what the client components rely on:
  a lookup is a function update after an insertion, iteration lists every binding once
  and in order. \<open>keyed_map\<close> adds the discipline of the canonical state, where every value
  is stored under its own identifier.
\<close>

section \<open>The association-list model\<close>

type_synonym ('k, 'v) btree_map = "('k \<times> 'v) list"

fun bt_insert :: "'k::linorder \<Rightarrow> 'v \<Rightarrow> ('k, 'v) btree_map \<Rightarrow> ('k, 'v) btree_map" where
  "bt_insert k v [] = [(k, v)]"
| "bt_insert k v ((k', v') # m) =
     (if k < k' then (k, v) # (k', v') # m
      else if k = k' then (k, v) # m
      else (k', v') # bt_insert k v m)"

definition bt_get :: "('k, 'v) btree_map \<Rightarrow> 'k \<Rightarrow> 'v option" where
  "bt_get m k = map_of m k"

definition bt_contains :: "('k, 'v) btree_map \<Rightarrow> 'k \<Rightarrow> bool" where
  "bt_contains m k \<longleftrightarrow> bt_get m k \<noteq> None"

definition bt_keys :: "('k, 'v) btree_map \<Rightarrow> 'k list" where
  "bt_keys m = map fst m"

definition bt_values :: "('k, 'v) btree_map \<Rightarrow> 'v list" where
  "bt_values m = map snd m"

text \<open>\<open>get_mut\<close> followed by a write through the reference; an absent key changes nothing.\<close>

definition bt_adjust :: "'k \<Rightarrow> ('v \<Rightarrow> 'v) \<Rightarrow> ('k, 'v) btree_map \<Rightarrow> ('k, 'v) btree_map" where
  "bt_adjust k f m = map (\<lambda>(k', v). (k', if k' = k then f v else v)) m"

text \<open>A write through \<open>get_mut\<close> for every key in turn.\<close>

definition bt_map :: "('k \<Rightarrow> 'v \<Rightarrow> 'v) \<Rightarrow> ('k, 'v) btree_map \<Rightarrow> ('k, 'v) btree_map" where
  "bt_map f m = map (\<lambda>(k, v). (k, f k v)) m"

text \<open>\<open>remove\<close> and \<open>retain\<close>.\<close>

definition bt_remove :: "'k \<Rightarrow> ('k, 'v) btree_map \<Rightarrow> ('k, 'v) btree_map" where
  "bt_remove k m = filter (\<lambda>(k', _). k' \<noteq> k) m"

definition bt_retain :: "('k \<Rightarrow> 'v \<Rightarrow> bool) \<Rightarrow> ('k, 'v) btree_map \<Rightarrow> ('k, 'v) btree_map" where
  "bt_retain p m = filter (\<lambda>(k, v). p k v) m"

definition bt_wf :: "('k::linorder, 'v) btree_map \<Rightarrow> bool" where
  "bt_wf m \<longleftrightarrow> sorted_wrt (<) (map fst m)"

lemma bt_get_empty [simp]: "bt_get [] k = None"
  by (simp add: bt_get_def)

lemma bt_wf_empty [simp]: "bt_wf []"
  by (simp add: bt_wf_def)

lemma bt_insert_keys: "set (map fst (bt_insert k v m)) = insert k (set (map fst m))"
  by (induction k v m rule: bt_insert.induct) (simp_all add: insert_commute)

lemma bt_wf_insert [simp]: "bt_wf m \<Longrightarrow> bt_wf (bt_insert k v m)"
proof (induction m)
  case Nil
  then show ?case by (simp add: bt_wf_def)
next
  case (Cons e m)
  obtain a b where e: "e = (a, b)" by (cases e)
  have less: "\<forall>x \<in> set (map fst m). a < x" and wf: "bt_wf m"
    using Cons.prems by (auto simp: bt_wf_def e)
  consider "k < a" | "k = a" | "a < k" by fastforce
  then show ?case
  proof cases
    case 1
    with Cons.prems less show ?thesis by (auto simp: bt_wf_def e)
  next
    case 2
    with Cons.prems show ?thesis by (auto simp: bt_wf_def e)
  next
    case 3
    have "\<forall>x \<in> set (map fst (bt_insert k v m)). a < x"
      using 3 less by (simp only: bt_insert_keys) auto
    with 3 Cons.IH [OF wf] show ?thesis by (auto simp: bt_wf_def e)
  qed
qed

lemma bt_get_insert [simp, bt_simps]:
  "bt_get (bt_insert k v m) k' = (if k' = k then Some v else bt_get m k')"
  by (induction m) (auto simp: bt_get_def)

lemma map_of_sorted_some: "sorted_wrt (<) (map fst m) \<Longrightarrow> map_of m k = Some v \<longleftrightarrow> (k, v) \<in> set m"
  for k :: "'k::linorder"
  by (rule map_of_eq_Some_iff) (simp add: strict_sorted_iff)

lemma bt_get_mem: "bt_wf m \<Longrightarrow> bt_get m k = Some v \<longleftrightarrow> (k, v) \<in> set m"
  unfolding bt_get_def bt_wf_def by (rule map_of_sorted_some)

lemma bt_keys_distinct: "bt_wf m \<Longrightarrow> distinct (bt_keys m)"
  by (simp add: bt_wf_def bt_keys_def strict_sorted_iff)

lemma bt_keys_iff: "k \<in> set (bt_keys m) \<longleftrightarrow> bt_get m k \<noteq> None"
  by (induction m) (auto simp: bt_keys_def bt_get_def)

lemma bt_values_iff: "bt_wf m \<Longrightarrow> v \<in> set (bt_values m) \<longleftrightarrow> (\<exists>k. bt_get m k = Some v)"
  by (simp add: bt_get_mem) (force simp: bt_values_def)

lemma bt_get_values: "bt_get m k = Some v \<Longrightarrow> v \<in> set (bt_values m)"
  by (induction m) (auto simp: bt_get_def bt_values_def split: if_splits)

lemma bt_keys_adjust [simp]: "bt_keys (bt_adjust k f m) = bt_keys m"
  by (induction m) (auto simp: bt_adjust_def bt_keys_def)

lemma bt_wf_adjust [simp]: "bt_wf (bt_adjust k f m) = bt_wf m"
proof -
  have "map fst (bt_adjust k f m) = map fst m" using bt_keys_adjust by (simp add: bt_keys_def)
  then show ?thesis by (simp add: bt_wf_def)
qed

lemma bt_get_adjust [simp, bt_simps]:
  "bt_get (bt_adjust k f m) k' = (if k' = k then map_option f (bt_get m k') else bt_get m k')"
  by (induction m) (auto simp: bt_adjust_def bt_get_def)

lemma bt_keys_map [simp]: "bt_keys (bt_map f m) = bt_keys m"
  by (induction m) (auto simp: bt_map_def bt_keys_def)

lemma bt_wf_map [simp]: "bt_wf (bt_map f m) = bt_wf m"
proof -
  have "map fst (bt_map f m) = map fst m" using bt_keys_map by (simp add: bt_keys_def)
  then show ?thesis by (simp add: bt_wf_def)
qed

lemma bt_get_map [simp, bt_simps]: "bt_get (bt_map f m) k = map_option (f k) (bt_get m k)"
  by (induction m) (auto simp: bt_map_def bt_get_def)

lemma bt_get_remove [simp, bt_simps]: "bt_get (bt_remove k m) k' = (if k' = k then None else bt_get m k')"
  by (induction m) (auto simp: bt_remove_def bt_get_def)

lemma bt_wf_filter: "bt_wf m \<Longrightarrow> bt_wf (filter P m)"
  unfolding bt_wf_def by (induction m) auto

lemma bt_wf_remove [simp]: "bt_wf m \<Longrightarrow> bt_wf (bt_remove k m)"
  unfolding bt_remove_def by (rule bt_wf_filter)

lemma bt_wf_retain [simp]: "bt_wf m \<Longrightarrow> bt_wf (bt_retain p m)"
  unfolding bt_retain_def by (rule bt_wf_filter)

lemma bt_get_retain [bt_simps]:
  "bt_wf m \<Longrightarrow> bt_get (bt_retain p m) k = (case bt_get m k of None \<Rightarrow> None | Some v \<Rightarrow> if p k v then Some v else None)"
proof (induction m)
  case (Cons e m)
  obtain a b where e: "e = (a, b)" by (cases e)
  have "bt_wf m" and less: "\<forall>x \<in> set (map fst m). a < x"
    using Cons.prems by (auto simp: bt_wf_def e)
  then have "map_of m a = None" by (auto simp: map_of_eq_None_iff)
  with Cons.IH [OF \<open>bt_wf m\<close>] show ?case by (auto simp: bt_retain_def bt_get_def e split: option.splits)
qed (simp add: bt_retain_def)

lemma bt_retain_all: "(\<And>k v. bt_get m k = Some v \<Longrightarrow> p k v) \<Longrightarrow> bt_wf m \<Longrightarrow> bt_retain p m = m"
  unfolding bt_retain_def by (rule filter_True) (auto simp: bt_get_mem)

section \<open>The interface\<close>

locale ordered_map =
  fixes empty :: "'m"
    and get :: "'m \<Rightarrow> 'k::linorder \<Rightarrow> 'v option"
    and ins :: "'k \<Rightarrow> 'v \<Rightarrow> 'm \<Rightarrow> 'm"
    and keys :: "'m \<Rightarrow> 'k list"
    and vals :: "'m \<Rightarrow> 'v list"
    and wf :: "'m \<Rightarrow> bool"
  assumes get_empty: "get empty k = None"
    and get_ins: "get (ins k v m) k' = (if k' = k then Some v else get m k')"
    and wf_empty: "wf empty"
    and wf_ins: "wf m \<Longrightarrow> wf (ins k v m)"
    and keys_sorted: "wf m \<Longrightarrow> sorted_wrt (<) (keys m)"
    and keys_iff: "wf m \<Longrightarrow> k \<in> set (keys m) \<longleftrightarrow> get m k \<noteq> None"
    and vals_keys: "wf m \<Longrightarrow> map Some (vals m) = map (get m) (keys m)"
begin

lemma vals_iff: "wf m \<Longrightarrow> v \<in> set (vals m) \<longleftrightarrow> (\<exists>k. get m k = Some v)"
proof -
  assume wf: "wf m"
  have "v \<in> set (vals m) \<longleftrightarrow> Some v \<in> set (map Some (vals m))" by auto
  also have "\<dots> \<longleftrightarrow> (\<exists>k \<in> set (keys m). get m k = Some v)"
    unfolding vals_keys [OF wf] by (auto intro: sym)
  also have "\<dots> \<longleftrightarrow> (\<exists>k. get m k = Some v)" using keys_iff [OF wf] by auto
  finally show ?thesis .
qed

lemma fold_ins_get:
  "get (fold (\<lambda>(k, v). ins k v) kvs m) k =
     (case map_of (rev kvs) k of None \<Rightarrow> get m k | Some v \<Rightarrow> Some v)"
proof (induction kvs arbitrary: m)
  case Nil
  then show ?case by simp
next
  case (Cons kv kvs)
  then show ?case
    by (cases kv) (auto simp: get_ins map_add_def split: option.splits)
qed

end

text \<open>Every value sits under its own identifier, and only insertions under it are made.\<close>

locale keyed_map = ordered_map empty get ins keys vals wf
  for empty :: "'m" and get :: "'m \<Rightarrow> 'k::linorder \<Rightarrow> 'v option" and ins keys vals wf +
  fixes key_of :: "'v \<Rightarrow> 'k"
begin

lemma keyed_empty: "\<forall>k v. get empty k = Some v \<longrightarrow> key_of v = k"
  by (simp add: get_empty)

lemma keyed_ins:
  assumes "\<forall>k v. get m k = Some v \<longrightarrow> key_of v = k"
  shows "\<forall>k v'. get (ins (key_of v) v m) k = Some v' \<longrightarrow> key_of v' = k"
  using assms by (auto simp: get_ins)

lemma keyed_vals:
  assumes "wf m" and "\<forall>k v. get m k = Some v \<longrightarrow> key_of v = k"
  shows "map key_of (vals m) = keys m"
proof -
  have len: "length (vals m) = length (keys m)"
    using vals_keys [OF assms(1)] by (metis length_map)
  show ?thesis
  proof (rule nth_equalityI)
    show "length (map key_of (vals m)) = length (keys m)" using len by simp
  next
    fix i assume "i < length (map key_of (vals m))"
    then have i: "i < length (vals m)" "i < length (keys m)" using len by simp_all
    have "get m (keys m ! i) = Some (vals m ! i)"
      using vals_keys [OF assms(1)] i by (metis nth_map)
    then show "map key_of (vals m) ! i = keys m ! i" using assms(2) i by simp
  qed
qed

lemma keyed_vals_distinct:
  assumes "wf m" and "\<forall>k v. get m k = Some v \<longrightarrow> key_of v = k"
  shows "distinct (map key_of (vals m))"
  using keyed_vals [OF assms] keys_sorted [OF assms(1)] by (simp add: strict_sorted_iff)

end

lemma bt_vals_keys: "bt_wf m \<Longrightarrow> map Some (bt_values m) = map (bt_get m) (bt_keys m)"
  by (auto simp: bt_values_def bt_keys_def bt_get_mem intro!: nth_equalityI)
     (metis bt_get_mem nth_mem prod.collapse)

interpretation bt: ordered_map "[]" bt_get bt_insert bt_keys bt_values bt_wf
  by unfold_locales
     (auto simp: bt_keys_iff bt_vals_keys, simp add: bt_wf_def bt_keys_def)

interpretation btk: keyed_map "[]" bt_get bt_insert bt_keys bt_values bt_wf key_of for key_of
  by unfold_locales

end
