(* ===== verification/Contract.thy ===== *)
theory Contract
  imports Ordered_Map
begin

text \<open>
  The contract vocabulary of \<open>kaleido-proto\<close>: identifiers and binding handles (\<open>ids.rs\<close>),
  content references and their transfer (\<open>content.rs\<close>), canonical errors (\<open>error.rs\<close>),
  negotiated capabilities (\<open>capability.rs\<close>), the protocol version rule and the violations
  every validator reports (\<open>lib.rs\<close>).
\<close>

section \<open>Identifiers\<close>

type_synonym host_id = string
type_synonym device_id = string
type_synonym provider_runtime_id = string
type_synonym project_id = string
type_synonym session_id = string
type_synonym turn_id = string
type_synonym item_id = string
type_synonym queue_entry_id = string
type_synonym attention_id = string
type_synonym workflow_id = string
type_synonym step_id = string
type_synonym artifact_id = string
type_synonym command_id = string
type_synonym content_id = string
type_synonym blocker_id = string
type_synonym project_binding_id = string
type_synonym provider_binding_id = string
type_synonym agent_task_id = string

datatype provider_binding_kind =
  Binding_Session | Binding_Turn | Binding_Item | Binding_InteractionRequest
| Binding_RuntimeAcknowledgement

record provider_binding_handle =
  bh_id :: provider_binding_id
  bh_runtime_id :: provider_runtime_id
  bh_kind :: provider_binding_kind

section \<open>Closed enumerations named by the violations\<close>

datatype content_kind =
  PlainText | Markdown | ToolArguments | ToolOutput | UnifiedDiff | FilePath | StructuredSummary

datatype sensitivity = Business | Sensitive

datatype content_availability = Inline | Stored | Evicted | NeverStored

datatype capability =
  HistoryList | HistoryRead | HistoryResume | LiveObserve | LiveControl | LiveMultiSubscriber
| TurnPrompt | TurnSteer | TurnInterrupt | TurnRetry | InteractionApproval | InteractionQuestion
| StatePlan | StateTasks | StateDiff | StateToolLifecycle | QueueRead | QueueWrite | QueueReorder
| WorkflowParticipate

datatype evidence_source =
  HandshakeDeclared | ObservedInTraffic | RecordedFixture | ManualAcceptance | Evidence_Absent

datatype turn_status =
  Turn_Pending | Turn_Running | Turn_AwaitingInteraction | Turn_Completed | Turn_Failed
| Turn_Cancelled

section \<open>Violations\<close>

datatype (plugins only: code) contract_violation =
  EmptyIdentifier string
| InvalidProviderBindingId
| ProviderBindingKindMismatch provider_binding_kind provider_binding_kind
| MalformedDigest string
| IdempotencyKeyTooLong nat
| InvalidDeviceCommandTtl u64
| UnsafePreview
| SensitivePreview
| PreviewTooLong nat
| InlineTooLarge u64
| SensitiveInline
| SensitiveContentRequired string
| InvalidContentReadSize u32
| ContentReadChunkTooLarge nat
| ContentReadOffsetOverflow
| ContentReadOffsetMismatch u64 "u64 option"
| ContentReadEofHasNext
| UnsupportedContentWriteKind content_kind
| InvalidContentWriteSize u64
| ContentWriteResponseMismatch
| InvalidContentWriteAvailability content_availability
| TurnErrorWithoutFailure turn_status
| FailedTurnWithoutError
| TerminalTurnWithoutTimestamp
| DuplicateItemReference
| EditableNonPendingQueueEntry
| UnprovenSteerDelivery evidence_source
| SteerSessionMismatch
| SteerTurnMismatch
| SteerRuntimeMismatch
| SteerBindingMismatch
| SteerNotActiveTurn
| SteerCapabilityUnsupported
| QueueReorderDuplicate
| QueueReorderMissingPending
| QueueReorderCrossSession
| QueueReorderNonPending
| QueueReorderUnknownEntry
| DecisionOptionsMissing
| DuplicateDecisionOption string
| QuestionSetEmpty
| DuplicateQuestionKey string
| QuestionAnswersRequired
| QuestionAnswersUnexpected
| QuestionTopLevelDecision
| QuestionAnswerEmpty
| QuestionAnswerDuplicateKey
| QuestionAnswerDuplicateOption
| QuestionAnswerUnknownKey
| QuestionAnswerUnknownOption
| QuestionAnswerTooManyOptions
| QuestionAnswerMissing
| FreeFormNotAllowed
| InvalidFreeForm
| UnknownOption
| AttentionDecisionMissing
| AttentionSessionRequired
| AttentionWorkflowRequired
| ApprovalJoinTargetMismatch
| AttentionAnswerObserverHostMismatch
| LiveBindingUnsupported string
| LiveBindingRuntimeMismatch
| LiveBindingEvidenceNotObserved
| DuplicateCapability capability
| DuplicateProjectBinding project_binding_id
| ProjectBindingMismatch project_binding_id
| CursorGap u64 u64
| CursorRepeated u64
| CursorOverflow
| MixedStreams
| MixedProjectionKeys
| ProjectionKeyPayloadMismatch
| ProjectionSubscribeKeyMismatch
| ProjectionResumeWithoutCursor
| ProjectionResumeCursorMismatch u64 u64
| ProjectionCurrentCursorNotAhead u64 u64
| InvalidProjectionCursorWindow u64 u64
| SnapshotStreamMismatch
| DanglingReference string
| WorkflowTransitionNotAllowed
| WorkflowAttemptOverflow

type_synonym ccheck = "contract_violation check"

abbreviation require_id :: "string \<Rightarrow> string \<Rightarrow> ccheck" where
  "require_id ident field \<equiv> reject_if (ident = []) (EmptyIdentifier field)"

section \<open>Protocol version (lib.rs)\<close>

definition PROTOCOL_VERSION :: string where "PROTOCOL_VERSION = ''0.5.0''"

text \<open>\<open>str::split('.')\<close>: always at least one part.\<close>

fun split_dot :: "string \<Rightarrow> string list" where
  "split_dot [] = [[]]"
| "split_dot (c # s) =
     (if c = CHR ''.'' then [] # split_dot s
      else (case split_dot s of [] \<Rightarrow> [[c]] | p # ps \<Rightarrow> (c # p) # ps))"

text \<open>\<open>str::parse::<u64>\<close>: an optional plus sign, then at least one decimal digit, in range.\<close>

definition parse_u64 :: "string \<Rightarrow> nat option" where
  "parse_u64 s =
     (let d = (case s of [] \<Rightarrow> [] | c # t \<Rightarrow> if c = CHR ''+'' then t else s)
      in if d \<noteq> [] \<and> list_all is_ascii_digit d \<and> read_nat d < 2 ^ 64 then Some (read_nat d) else None)"

definition parse_version :: "string \<Rightarrow> (nat \<times> nat \<times> nat) option" where
  "parse_version s =
     (case split_dot s of
        [a, b, c] \<Rightarrow>
          (case (parse_u64 a, parse_u64 b, parse_u64 c) of
             (Some x, Some y, Some z) \<Rightarrow> Some (x, y, z)
           | _ \<Rightarrow> None)
      | _ \<Rightarrow> None)"

definition version_is_compatible :: "string \<Rightarrow> bool" where
  "version_is_compatible peer =
     (case (parse_version PROTOCOL_VERSION, parse_version peer) of
        (Some (our_major, our_minor, _), Some (peer_major, peer_minor, _)) \<Rightarrow>
          if our_major = 0 \<and> peer_major = 0 then our_minor = peer_minor else our_major = peer_major
      | _ \<Rightarrow> False)"

section \<open>Binding handles (ids.rs)\<close>

definition handle_is_empty :: "provider_binding_handle \<Rightarrow> bool" where
  "handle_is_empty h \<longleftrightarrow> bh_id h = [] \<or> bh_runtime_id h = []"

definition handle_validate :: "provider_binding_handle \<Rightarrow> ccheck" where
  "handle_validate h =
     (case strip_prefix ''bnd_'' (bh_id h) of
        None \<Rightarrow> Inl InvalidProviderBindingId
      | Some tail \<Rightarrow> run_checks
          [reject_if (length tail < 8 \<or>
             \<not> list_all (\<lambda>b. is_ascii_alphanumeric b \<or> b = CHR ''-'' \<or> b = CHR ''_'') tail)
             InvalidProviderBindingId,
           require_id (bh_runtime_id h) ''binding_handle.runtime_id''])"

definition handle_validate_for :: "provider_binding_kind \<Rightarrow> provider_binding_handle \<Rightarrow> ccheck" where
  "handle_validate_for expected h = run_checks
     [handle_validate h,
      reject_if (bh_kind h \<noteq> expected) (ProviderBindingKindMismatch expected (bh_kind h))]"

section \<open>Content references (content.rs)\<close>

definition MAX_INLINE_BYTES :: u64 where "MAX_INLINE_BYTES = 4096"
definition MAX_PREVIEW_BYTES :: nat where "MAX_PREVIEW_BYTES = 256"
definition MAX_CONTENT_READ_BYTES :: u32 where "MAX_CONTENT_READ_BYTES = 65536"
definition MAX_CONTENT_WRITE_BYTES :: u64 where "MAX_CONTENT_WRITE_BYTES = 65536"

record content_ref =
  cr_content_id :: content_id
  cr_kind :: content_kind
  cr_byte_len :: u64
  cr_digest :: string
  cr_preview :: "string option"
  cr_sensitivity :: sensitivity
  cr_availability :: content_availability

record content_read_request =
  rq_content_id :: content_id
  rq_offset :: u64
  rq_max_bytes :: u32

record content_read_chunk =
  ch_content_id :: content_id
  ch_offset :: u64
  ch_bytes :: "8 word list"
  ch_next_offset :: "u64 option"
  ch_eof :: bool
  ch_digest :: string

datatype content_unavailable_reason =
  Unavailable_Evicted | Unavailable_NeverStored | Unavailable_NotFound | Unavailable_Unauthorized
| Unavailable_DigestMismatch

datatype content_read_response =
  Read_Chunk content_read_chunk
| Read_Unavailable content_id content_unavailable_reason

record content_write_request =
  wq_content_kind :: content_kind
  wq_byte_len :: u64
  wq_digest :: string

definition body_is_retrievable :: "content_ref \<Rightarrow> bool" where
  "body_is_retrievable r \<longleftrightarrow> cr_availability r = Inline \<or> cr_availability r = Stored"

definition loggable :: "content_ref \<Rightarrow> bool" where
  "loggable r \<longleftrightarrow> cr_sensitivity r = Business"

definition validate_digest :: "string \<Rightarrow> ccheck" where
  "validate_digest digest =
     reject_if (\<not> is_some_and is_lower_hex64 (strip_prefix ''sha256:'' digest)) (MalformedDigest digest)"

definition preview_validate :: "string \<Rightarrow> ccheck" where
  "preview_validate preview = run_checks
     [reject_if (MAX_PREVIEW_BYTES < length preview) (PreviewTooLong (length preview)),
      reject_if (has_control preview \<or> CHR ''/'' \<in> set preview \<or> CHR 0x5C \<in> set preview
          \<or> str_contains (to_ascii_lowercase preview) ''bearer''
          \<or> str_contains (to_ascii_lowercase preview) ''sk-''
          \<or> str_contains (to_ascii_lowercase preview) ''ghp_'')
        UnsafePreview]"

definition content_ref_validate :: "content_ref \<Rightarrow> ccheck" where
  "content_ref_validate r = run_checks
     [require_id (cr_content_id r) ''content_id'',
      validate_digest (cr_digest r),
      reject_if (cr_sensitivity r = Sensitive \<and> cr_preview r \<noteq> None) SensitivePreview,
      when_some preview_validate (cr_preview r),
      reject_if (cr_availability r = Inline \<and> MAX_INLINE_BYTES < cr_byte_len r)
        (InlineTooLarge (cr_byte_len r)),
      reject_if (cr_availability r = Inline \<and> cr_sensitivity r = Sensitive) SensitiveInline]"

definition ensure_sensitive :: "string \<Rightarrow> content_ref \<Rightarrow> ccheck" where
  "ensure_sensitive field r = run_checks
     [reject_if (cr_sensitivity r \<noteq> Sensitive) (SensitiveContentRequired field),
      content_ref_validate r]"

text \<open>
  The private \<open>validate_sensitive\<close> of \<open>attention.rs\<close>, \<open>command.rs\<close> and \<open>workflow.rs\<close>: the
  same two checks in the other order.
\<close>

definition validate_sensitive :: "string \<Rightarrow> content_ref \<Rightarrow> ccheck" where
  "validate_sensitive field r = run_checks
     [content_ref_validate r,
      reject_if (cr_sensitivity r \<noteq> Sensitive) (SensitiveContentRequired field)]"

definition read_request_validate :: "content_read_request \<Rightarrow> ccheck" where
  "read_request_validate q = run_checks
     [require_id (rq_content_id q) ''content_id'',
      reject_if (\<not> (1 \<le> rq_max_bytes q \<and> rq_max_bytes q \<le> MAX_CONTENT_READ_BYTES))
        (InvalidContentReadSize (rq_max_bytes q))]"

definition read_chunk_validate :: "content_read_chunk \<Rightarrow> ccheck" where
  "read_chunk_validate c =
     (case run_checks
        [require_id (ch_content_id c) ''content_id'',
         reject_if (unat MAX_CONTENT_READ_BYTES < length (ch_bytes c))
           (ContentReadChunkTooLarge (length (ch_bytes c)))] of
        Inl e \<Rightarrow> Inl e
      | Inr _ \<Rightarrow>
          (case checked_add (ch_offset c) (of_nat (length (ch_bytes c))) of
             None \<Rightarrow> Inl ContentReadOffsetOverflow
           | Some expected \<Rightarrow> run_checks
               [reject_if (ch_eof c \<and> ch_next_offset c \<noteq> None) ContentReadEofHasNext,
                reject_if (\<not> ch_eof c \<and> ch_next_offset c \<noteq> Some expected)
                  (ContentReadOffsetMismatch expected (ch_next_offset c)),
                validate_digest (ch_digest c)]))"

fun read_response_validate :: "content_read_response \<Rightarrow> ccheck" where
  "read_response_validate (Read_Chunk c) = read_chunk_validate c"
| "read_response_validate (Read_Unavailable content_id _) = require_id content_id ''content_id''"

definition write_request_validate :: "content_write_request \<Rightarrow> ccheck" where
  "write_request_validate q = run_checks
     [reject_if (\<not> (wq_content_kind q = PlainText \<or> wq_content_kind q = Markdown))
        (UnsupportedContentWriteKind (wq_content_kind q)),
      reject_if (\<not> (1 \<le> wq_byte_len q \<and> wq_byte_len q \<le> MAX_CONTENT_WRITE_BYTES))
        (InvalidContentWriteSize (wq_byte_len q)),
      validate_digest (wq_digest q)]"

section \<open>Canonical errors (error.rs)\<close>

datatype error_code =
  Err_NotFound | Err_InvalidCommand | Err_CommandExpired | Err_IdempotencyConflict
| Err_CapabilityUnsupported | Err_CapabilityUnavailable | Err_UpstreamBlocked blocker_id
| Err_ApprovalExpired | Err_ApprovalAlreadyAnswered | Err_JoinFailed | Err_RuntimeUnavailable
| Err_RuntimeProtocolViolation | Err_UpstreamRejected | Err_UpstreamTimeout | Err_AuthRequired
| Err_CursorGap | Err_ContentEvicted | Err_BackpressureDropped | Err_Internal

record canonical_error =
  ce_code :: error_code
  ce_retriable :: bool
  ce_detail_ref :: "content_ref option"
  ce_at_ms :: i64

definition canonical_error_validate :: "canonical_error \<Rightarrow> ccheck" where
  "canonical_error_validate e =
     when_some (validate_sensitive ''canonical_error.detail_ref'') (ce_detail_ref e)"

definition error_transient :: "error_code \<Rightarrow> bool" where
  "error_transient c \<longleftrightarrow> c = Err_RuntimeUnavailable \<or> c = Err_UpstreamTimeout \<or> c = Err_CursorGap"

fun error_needs_human :: "error_code \<Rightarrow> bool" where
  "error_needs_human Err_AuthRequired = True"
| "error_needs_human (Err_UpstreamBlocked _) = True"
| "error_needs_human Err_ApprovalExpired = True"
| "error_needs_human _ = False"

datatype content_write_response =
  Write_Stored content_ref
| Write_Rejected canonical_error

fun write_response_validate_for :: "content_write_request \<Rightarrow> content_write_response \<Rightarrow> ccheck" where
  "write_response_validate_for q (Write_Stored r) = run_checks
     [write_request_validate q,
      content_ref_validate r,
      reject_if (cr_sensitivity r \<noteq> Sensitive) (SensitiveContentRequired ''content_write.content_ref''),
      reject_if (cr_availability r \<noteq> Stored) (InvalidContentWriteAvailability (cr_availability r)),
      reject_if (cr_kind r \<noteq> wq_content_kind q \<or> cr_byte_len r \<noteq> wq_byte_len q
          \<or> cr_digest r \<noteq> wq_digest q) ContentWriteResponseMismatch]"
| "write_response_validate_for q (Write_Rejected e) = run_checks
     [write_request_validate q, canonical_error_validate e]"

section \<open>Capabilities (capability.rs)\<close>

datatype capability_unavailable_reason =
  Unavail_RuntimeDisconnected | Unavail_AuthenticationRequired | Unavail_SubscriptionLost
| Unavail_PolicyRestricted | Unavail_TemporarilyUnavailable

datatype capability_state =
  Supported | Unsupported | UnavailableOnThisConnection capability_unavailable_reason
| NotVerified | UpstreamBlocked blocker_id

record capability_evidence =
  ev_source :: evidence_source
  ev_observed_at_ms :: i64
  ev_note_ref :: "content_ref option"

record capability_entry =
  cap_capability :: capability
  cap_state :: capability_state
  cap_evidence :: capability_evidence

record runtime_capabilities =
  rc_runtime_id :: provider_runtime_id
  rc_negotiated_at_ms :: i64
  rc_entries :: "capability_entry list"

definition permits_use :: "capability_state \<Rightarrow> bool" where
  "permits_use s \<longleftrightarrow> s = Supported"

definition state_of :: "runtime_capabilities \<Rightarrow> capability \<Rightarrow> capability_state" where
  "state_of c k =
     (case find (\<lambda>e. cap_capability e = k) (rc_entries c) of
        None \<Rightarrow> NotVerified
      | Some e \<Rightarrow> cap_state e)"

definition permits :: "runtime_capabilities \<Rightarrow> capability \<Rightarrow> bool" where
  "permits c k \<longleftrightarrow> permits_use (state_of c k)"

definition evidence_validate :: "capability_evidence \<Rightarrow> ccheck" where
  "evidence_validate e = when_some (ensure_sensitive ''capability_evidence.note_ref'') (ev_note_ref e)"

definition capability_entry_check :: "bool \<Rightarrow> capability_entry \<Rightarrow> ccheck" where
  "capability_entry_check seen e = run_checks
     [reject_if seen (DuplicateCapability (cap_capability e)),
      evidence_validate (cap_evidence e),
      (case cap_state e of
         UpstreamBlocked blocker \<Rightarrow> require_id blocker ''capability.blocker_id''
       | _ \<Rightarrow> ok)]"

definition capabilities_validate :: "runtime_capabilities \<Rightarrow> ccheck" where
  "capabilities_validate c = run_checks
     [require_id (rc_runtime_id c) ''runtime_capabilities.runtime_id'',
      for_seen cap_capability capability_entry_check [] (rc_entries c)]"

section \<open>Lemmas\<close>

lemma read_request_validate_ok [check_simps]:
  "read_request_validate q = Inr u \<longleftrightarrow>
     rq_content_id q \<noteq> [] \<and> 1 \<le> rq_max_bytes q \<and> rq_max_bytes q \<le> MAX_CONTENT_READ_BYTES"
  by (auto simp: read_request_validate_def run_checks_ok)

lemma content_ref_validate_ok [check_simps]:
  "content_ref_validate r = Inr u \<longleftrightarrow>
     cr_content_id r \<noteq> [] \<and> validate_digest (cr_digest r) = ok
     \<and> (cr_sensitivity r = Sensitive \<longrightarrow> cr_preview r = None)
     \<and> (\<forall>p. cr_preview r = Some p \<longrightarrow> preview_validate p = ok)
     \<and> (cr_availability r = Inline \<longrightarrow> cr_byte_len r \<le> MAX_INLINE_BYTES \<and> cr_sensitivity r = Business)"
  by (cases "cr_sensitivity r"; cases "cr_availability r")
     (auto simp: content_ref_validate_def run_checks_ok when_some_ok not_less)

lemma sensitive_refs_agree [check_simps]:
  "ensure_sensitive f r = Inr u \<longleftrightarrow> content_ref_validate r = ok \<and> cr_sensitivity r = Sensitive"
  "validate_sensitive f r = Inr u \<longleftrightarrow> content_ref_validate r = ok \<and> cr_sensitivity r = Sensitive"
  by (auto simp: ensure_sensitive_def validate_sensitive_def run_checks_ok)

lemma sensitive_never_leaks:
  "ensure_sensitive f r = Inr u \<Longrightarrow> cr_preview r = None \<and> cr_availability r \<noteq> Inline \<and> \<not> loggable r"
  by (auto simp: check_simps loggable_def)

lemma validate_digest_ok:
  "validate_digest d = Inr u \<longleftrightarrow> (\<exists>h. d = ''sha256:'' @ h \<and> is_lower_hex64 h)"
  by (simp add: validate_digest_def is_some_and_iff strip_prefix_Some)

lemma handle_validate_for_ok [check_simps]:
  "handle_validate_for k h = Inr u \<longleftrightarrow> handle_validate h = ok \<and> bh_kind h = k"
  by (auto simp: handle_validate_for_def run_checks_ok)

lemma handle_validate_nonempty: "handle_validate h = Inr u \<Longrightarrow> \<not> handle_is_empty h"
  by (auto simp: handle_validate_def handle_is_empty_def run_checks_ok strip_prefix_Some
      split: option.splits)

lemma find_entry_mem:
  "find p xs = Some x \<Longrightarrow> x \<in> set xs \<and> p x"
  by (auto simp: find_Some_iff in_set_conv_nth)

lemma capabilities_validate_ok:
  "capabilities_validate c = Inr u \<longleftrightarrow>
     rc_runtime_id c \<noteq> [] \<and> distinct (map cap_capability (rc_entries c))
     \<and> (\<forall>e \<in> set (rc_entries c). capability_entry_check False e = ok)"
proof -
  have "capability_entry_check True e \<noteq> ok" for e
    by (simp add: capability_entry_check_def)
  from for_seen_ok [of capability_entry_check, OF this] show ?thesis
    by (auto simp: capabilities_validate_def run_checks_ok)
qed

text \<open>
  In a validated negotiation every capability has one entry, so the entry found first is the
  only one and membership decides \<open>permits\<close>.
\<close>

lemma state_of_unique:
  assumes "capabilities_validate c = Inr u" "e \<in> set (rc_entries c)"
  shows "state_of c (cap_capability e) = cap_state e"
proof -
  have d: "distinct (map cap_capability (rc_entries c))"
    using assms(1) by (simp add: capabilities_validate_ok)
  obtain e' where e': "find (\<lambda>x. cap_capability x = cap_capability e) (rc_entries c) = Some e'"
    using assms(2) by (cases "find (\<lambda>x. cap_capability x = cap_capability e) (rc_entries c)")
      (auto simp: find_None_iff)
  then have "e' \<in> set (rc_entries c)" "cap_capability e' = cap_capability e"
    using find_entry_mem by fastforce+
  with d assms(2) have "e' = e" by (metis distinct_map inj_onD)
  with e' show ?thesis by (simp add: state_of_def)
qed

lemma permits_mem:
  "permits c k \<Longrightarrow> \<exists>e \<in> set (rc_entries c). cap_capability e = k \<and> cap_state e = Supported"
  by (auto simp: permits_def permits_use_def state_of_def dest: find_entry_mem split: option.splits)

lemma permits_iff:
  assumes "capabilities_validate c = Inr u"
  shows "permits c k \<longleftrightarrow> (\<exists>e \<in> set (rc_entries c). cap_capability e = k \<and> cap_state e = Supported)"
  using permits_mem [of c k] state_of_unique [OF assms]
  by (auto simp: permits_def permits_use_def)

end
