(* ===== verification/Session_Turn.thy ===== *)
theory Session_Turn
  imports Contract
begin

text \<open>
  Hosts, runtimes and projects (\<open>host.rs\<close>), sessions with their live binding and derived
  status (\<open>session.rs\<close>), turns and items (\<open>turn.rs\<close>). Every \<open>validate\<close> keeps the source's
  order of checks.
\<close>

section \<open>Hosts, runtimes and projects (host.rs)\<close>

datatype host_platform = Windows | MacOs | Linux

datatype host_reachability = Reach_Offline | LanDirect | PeerToPeer | Relayed

record host =
  ho_id :: host_id
  ho_display_name :: string
  ho_platform :: host_platform
  ho_reachability :: host_reachability
  ho_protocol_version :: string
  ho_last_seen_at_ms :: i64

datatype provider_family = Codex | ClaudeCode | OpenCode | Acp

datatype launch_surface = BrokerLaunched | SharedServer | ExternalNativeCli | ExternalNativeGui

datatype connection_fault_reason =
  ProcessExited "i64 option" | HandshakeRejected | Fault_AuthRequired | Timeout | TransportError
| ProtocolViolation

datatype connection_state =
  Disconnected | Connecting | Connected i64
| Degraded connection_fault_reason i64 | Unavailable connection_fault_reason i64

record provider_runtime =
  rt_id :: provider_runtime_id
  rt_host_id :: host_id
  rt_family :: provider_family
  rt_version_label :: "string option"
  rt_launch_surface :: launch_surface
  rt_connection :: connection_state
  rt_capabilities :: runtime_capabilities
  rt_binding_handle :: "provider_binding_handle option"

record project_binding =
  pb_id :: project_binding_id
  pb_project_id :: project_id
  pb_runtime_id :: provider_runtime_id
  pb_root_ref :: content_ref

record session_counts =
  sc_total :: u32
  sc_running :: u32
  sc_waiting_human :: u32
  sc_failed :: u32
  sc_archived :: u32

definition session_counts_default :: session_counts where
  "session_counts_default =
     \<lparr>sc_total = 0, sc_running = 0, sc_waiting_human = 0, sc_failed = 0, sc_archived = 0\<rparr>"

record project =
  pj_id :: project_id
  pj_display_name :: string
  pj_bindings :: "project_binding list"
  pj_session_counts :: session_counts
  pj_workflow_count :: u32
  pj_attention_count :: u32
  pj_last_activity_at_ms :: i64

fun is_usable :: "connection_state \<Rightarrow> bool" where
  "is_usable (Connected _) = True"
| "is_usable (Degraded _ _) = True"
| "is_usable _ = False"

definition host_validate :: "host \<Rightarrow> ccheck" where
  "host_validate h = require_id (ho_id h) ''host.id''"

definition runtime_validate :: "provider_runtime \<Rightarrow> ccheck" where
  "runtime_validate r = run_checks
     [require_id (rt_id r) ''provider_runtime.id'',
      require_id (rt_host_id r) ''provider_runtime.host_id'',
      capabilities_validate (rt_capabilities r),
      reject_if (rc_runtime_id (rt_capabilities r) \<noteq> rt_id r)
        (DanglingReference ''provider_runtime.capabilities.runtime_id''),
      when_some (\<lambda>h. run_checks
          [handle_validate h,
           reject_if (bh_runtime_id h \<noteq> rt_id r)
             (DanglingReference ''provider_runtime.binding_handle.runtime_id'')])
        (rt_binding_handle r)]"

definition project_binding_check :: "project_id \<Rightarrow> bool \<Rightarrow> project_binding \<Rightarrow> ccheck" where
  "project_binding_check project_id seen b = run_checks
     [require_id (pb_id b) ''project_binding.id'',
      reject_if (pb_project_id b \<noteq> project_id) (ProjectBindingMismatch (pb_id b)),
      require_id (pb_runtime_id b) ''project_binding.runtime_id'',
      ensure_sensitive ''project_binding.root_ref'' (pb_root_ref b),
      reject_if seen (DuplicateProjectBinding (pb_id b))]"

definition project_validate :: "project \<Rightarrow> ccheck" where
  "project_validate p = run_checks
     [require_id (pj_id p) ''project.id'',
      for_seen pb_id (project_binding_check (pj_id p)) [] (pj_bindings p)]"

section \<open>Sessions (session.rs)\<close>

datatype ownership_mode = BrokerManaged | ProviderManaged | SharedRuntime | ExternalNative

datatype session_status =
  Session_Offline | Session_Idle | Session_Running | Session_WaitingUser | Session_WaitingApproval
| Session_Queued | Session_Failed | Session_Completed | Session_Cancelled

datatype history_source_kind = History_None | ProviderApi | ProviderLocalStore | BrokerLog

record history_source =
  hs_kind :: history_source_kind
  hs_runtime_id :: "provider_runtime_id option"
  hs_evidence :: capability_evidence

datatype live_unbound_reason = NeverStarted | RuntimeExited | SubscriptionLost | NoPublicAttachPath

datatype live_binding =
  NotBound live_unbound_reason
| Observing provider_runtime_id i64 capability_evidence
| Controlling provider_runtime_id i64 capability_evidence
| Blocked blocker_id

record session =
  se_id :: session_id
  se_project_id :: project_id
  se_project_binding_id :: project_binding_id
  se_ownership :: ownership_mode
  se_history_source :: history_source
  se_live_binding :: live_binding
  se_status :: session_status
  se_title :: "string option"
  se_created_at_ms :: i64
  se_updated_at_ms :: i64
  se_last_activity_at_ms :: i64
  se_active_turn_id :: "turn_id option"
  se_queue_depth :: u32
  se_open_attention_count :: u32
  se_archived :: bool
  se_binding_handle :: "provider_binding_handle option"

fun is_live :: "live_binding \<Rightarrow> bool" where
  "is_live (Observing _ _ _) = True"
| "is_live (Controlling _ _ _) = True"
| "is_live _ = False"

fun accepts_control :: "live_binding \<Rightarrow> bool" where
  "accepts_control (Controlling _ _ _) = True"
| "accepts_control _ = False"

definition validate_observed_evidence :: "provider_runtime_id \<Rightarrow> capability_evidence \<Rightarrow> ccheck" where
  "validate_observed_evidence runtime_id evidence = run_checks
     [require_id runtime_id ''live_binding.runtime_id'',
      reject_if (ev_source evidence \<noteq> ObservedInTraffic) LiveBindingEvidenceNotObserved,
      evidence_validate evidence]"

definition validate_live_evidence ::
    "provider_runtime_id \<Rightarrow> capability_evidence \<Rightarrow> runtime_capabilities \<Rightarrow> ccheck" where
  "validate_live_evidence runtime_id evidence capabilities = run_checks
     [validate_observed_evidence runtime_id evidence,
      reject_if (runtime_id \<noteq> rc_runtime_id capabilities) LiveBindingRuntimeMismatch]"

fun live_binding_validate_shape :: "live_binding \<Rightarrow> ccheck" where
  "live_binding_validate_shape (NotBound _) = ok"
| "live_binding_validate_shape (Blocked blocker_id) = require_id blocker_id ''live_binding.blocker_id''"
| "live_binding_validate_shape (Observing runtime_id _ evidence) =
     validate_observed_evidence runtime_id evidence"
| "live_binding_validate_shape (Controlling runtime_id _ evidence) =
     validate_observed_evidence runtime_id evidence"

fun live_binding_validate_against :: "runtime_capabilities \<Rightarrow> live_binding \<Rightarrow> ccheck" where
  "live_binding_validate_against caps (NotBound _) = ok"
| "live_binding_validate_against caps (Blocked _) = ok"
| "live_binding_validate_against caps (Observing runtime_id _ evidence) = run_checks
     [validate_live_evidence runtime_id evidence caps,
      reject_if (\<not> permits caps LiveObserve) (LiveBindingUnsupported ''live_observe'')]"
| "live_binding_validate_against caps (Controlling runtime_id _ evidence) = run_checks
     [validate_live_evidence runtime_id evidence caps,
      reject_if (\<not> permits caps LiveObserve) (LiveBindingUnsupported ''live_observe''),
      reject_if (\<not> permits caps LiveControl) (LiveBindingUnsupported ''live_control'')]"

definition waits_for_human :: "session_status \<Rightarrow> bool" where
  "waits_for_human s \<longleftrightarrow> s = Session_WaitingUser \<or> s = Session_WaitingApproval"

definition session_is_active :: "session_status \<Rightarrow> bool" where
  "session_is_active s \<longleftrightarrow> s = Session_Running \<or> s = Session_Queued"

definition session_validate_shape :: "session \<Rightarrow> ccheck" where
  "session_validate_shape s = run_checks
     [require_id (se_id s) ''session.id'',
      require_id (se_project_id s) ''session.project_id'',
      require_id (se_project_binding_id s) ''session.project_binding_id'',
      evidence_validate (hs_evidence (se_history_source s)),
      when_some (\<lambda>r. require_id r ''session.history_source.runtime_id'')
        (hs_runtime_id (se_history_source s)),
      when_some (handle_validate_for Binding_Session) (se_binding_handle s),
      live_binding_validate_shape (se_live_binding s)]"

definition session_validate :: "session \<Rightarrow> runtime_capabilities \<Rightarrow> ccheck" where
  "session_validate s caps = run_checks
     [session_validate_shape s,
      capabilities_validate caps,
      live_binding_validate_against caps (se_live_binding s)]"

record status_inputs =
  si_runtime_usable :: bool
  si_has_active_turn :: bool
  si_open_approval :: bool
  si_open_question :: bool
  si_pending_queue_entries :: u32
  si_terminal :: "session_status option"

definition derive_session_status :: "status_inputs \<Rightarrow> session_status" where
  "derive_session_status i =
     (if \<not> si_runtime_usable i then Session_Offline
      else if si_open_approval i then Session_WaitingApproval
      else if si_open_question i then Session_WaitingUser
      else if si_has_active_turn i then Session_Running
      else if si_pending_queue_entries i > 0 then Session_Queued
      else (case si_terminal i of
              Some Session_Failed \<Rightarrow> Session_Failed
            | Some Session_Completed \<Rightarrow> Session_Completed
            | Some Session_Cancelled \<Rightarrow> Session_Cancelled
            | _ \<Rightarrow> Session_Idle))"

section \<open>Turns and items (turn.rs)\<close>

datatype turn_origin = LocalSurface | RemoteCommand command_id | WorkflowStep step_id

record turn =
  tu_id :: turn_id
  tu_session_id :: session_id
  tu_status :: turn_status
  tu_origin :: turn_origin
  tu_started_at_ms :: "i64 option"
  tu_completed_at_ms :: "i64 option"
  tu_item_ids :: "item_id list"
  tu_error :: "canonical_error option"
  tu_binding_handle :: "provider_binding_handle option"

datatype item_status =
  Item_Pending | Item_InProgress | Item_Completed | Item_Declined | Item_Failed | Item_Cancelled

datatype message_phase = Commentary | FinalAnswer

datatype tool_surface = ShellCommand | FileSystem | McpServer string | Builtin

record tool_descriptor =
  td_name :: string
  td_surface :: tool_surface

datatype file_change_kind = Add | Modify | Delete | Rename content_ref

record file_change =
  fc_path_ref :: content_ref
  fc_kind :: file_change_kind
  fc_diff :: "content_ref option"

record change_set =
  cs_entries :: "file_change list"
  cs_truncated :: bool

datatype plan_entry_state = Plan_Pending | Plan_InProgress | Plan_Completed | Plan_Skipped

record plan_entry =
  pe_title_ref :: content_ref
  pe_state :: plan_entry_state

record agent_task =
  ta_id :: agent_task_id
  ta_title_ref :: content_ref
  ta_state :: plan_entry_state

datatype diagnostic_severity = Severity_Info | Severity_Warning | Severity_Error

datatype item_diagnostic_code =
  RuntimeNotice | UnsupportedContent | ContentUnavailable | ValidationFailure

datatype item_body =
  UserMessage content_ref
| AgentMessage content_ref message_phase
| Reasoning content_ref
| ToolCall tool_descriptor "content_ref option" "content_ref option" "i64 option"
| FileEdit change_set
| PlanUpdate "plan_entry list"
| TaskUpdate "agent_task list"
| Body_Diagnostic diagnostic_severity item_diagnostic_code content_ref

record item =
  it_id :: item_id
  it_session_id :: session_id
  it_turn_id :: turn_id
  it_sequence :: u64
  it_status :: item_status
  it_body :: item_body
  it_created_at_ms :: i64
  it_updated_at_ms :: i64
  it_binding_handle :: "provider_binding_handle option"

definition item_is_terminal :: "item_status \<Rightarrow> bool" where
  "item_is_terminal s \<longleftrightarrow> s \<in> {Item_Completed, Item_Declined, Item_Failed, Item_Cancelled}"

definition item_is_failure :: "item_status \<Rightarrow> bool" where
  "item_is_failure s \<longleftrightarrow> s = Item_Failed"

definition turn_is_terminal :: "turn_status \<Rightarrow> bool" where
  "turn_is_terminal s \<longleftrightarrow> s \<in> {Turn_Completed, Turn_Failed, Turn_Cancelled}"

text \<open>The duplicate check clones the list, sorts it and compares lengths around \<open>dedup\<close>.\<close>

definition has_duplicates :: "item_id list \<Rightarrow> bool" where
  "has_duplicates ids = (let seen = sort ids in length (remdups_adj seen) \<noteq> length seen)"

definition turn_validate :: "turn \<Rightarrow> ccheck" where
  "turn_validate t = run_checks
     [reject_if (tu_error t \<noteq> None \<and> tu_status t \<noteq> Turn_Failed) (TurnErrorWithoutFailure (tu_status t)),
      reject_if (tu_status t = Turn_Failed \<and> tu_error t = None) FailedTurnWithoutError,
      reject_if (turn_is_terminal (tu_status t) \<and> tu_completed_at_ms t = None)
        TerminalTurnWithoutTimestamp,
      reject_if (has_duplicates (tu_item_ids t)) DuplicateItemReference,
      when_some (handle_validate_for Binding_Turn) (tu_binding_handle t)]"

definition status_after_decline :: "turn \<Rightarrow> turn_status" where
  "status_after_decline t = tu_status t"

definition file_change_check :: "file_change \<Rightarrow> ccheck" where
  "file_change_check e = run_checks
     [ensure_sensitive ''item.file_edit.path_ref'' (fc_path_ref e),
      when_some (ensure_sensitive ''item.file_edit.diff'') (fc_diff e),
      (case fc_kind e of
         Rename from_ref \<Rightarrow> ensure_sensitive ''item.file_edit.rename.from_ref'' from_ref
       | _ \<Rightarrow> ok)]"

fun item_body_check :: "item_body \<Rightarrow> ccheck" where
  "item_body_check (UserMessage content) = ensure_sensitive ''item.user_message.content'' content"
| "item_body_check (AgentMessage content _) = ensure_sensitive ''item.agent_message.content'' content"
| "item_body_check (Reasoning content) = ensure_sensitive ''item.reasoning.content'' content"
| "item_body_check (ToolCall _ arguments output _) = run_checks
     [when_some (ensure_sensitive ''item.tool_call.arguments'') arguments,
      when_some (ensure_sensitive ''item.tool_call.output'') output]"
| "item_body_check (FileEdit changes) = for_each file_change_check (cs_entries changes)"
| "item_body_check (PlanUpdate entries) =
     for_each (\<lambda>e. ensure_sensitive ''item.plan_update.title_ref'' (pe_title_ref e)) entries"
| "item_body_check (TaskUpdate tasks) =
     for_each (\<lambda>t. run_checks
       [require_id (ta_id t) ''agent_task.id'',
        ensure_sensitive ''item.task_update.title_ref'' (ta_title_ref t)]) tasks"
| "item_body_check (Body_Diagnostic _ _ detail) = ensure_sensitive ''item.diagnostic.detail'' detail"

definition item_validate :: "item \<Rightarrow> ccheck" where
  "item_validate i = run_checks
     [require_id (it_id i) ''item.id'',
      require_id (it_session_id i) ''item.session_id'',
      require_id (it_turn_id i) ''item.turn_id'',
      when_some (handle_validate_for Binding_Item) (it_binding_handle i),
      item_body_check (it_body i)]"

section \<open>Lemmas\<close>

lemma runtime_validate_caps:
  "runtime_validate r = Inr u \<Longrightarrow>
     rt_id r \<noteq> [] \<and> rt_host_id r \<noteq> [] \<and> rc_runtime_id (rt_capabilities r) = rt_id r
     \<and> capabilities_validate (rt_capabilities r) = ok"
  by (simp add: runtime_validate_def)

lemma project_validate_ok:
  "project_validate p = Inr u \<longleftrightarrow> pj_id p \<noteq> [] \<and> distinct (map pb_id (pj_bindings p))
     \<and> (\<forall>b \<in> set (pj_bindings p). project_binding_check (pj_id p) False b = ok)"
proof -
  have "project_binding_check i True b \<noteq> ok" for i b
    by (simp add: project_binding_check_def)
  from for_seen_ok [of "project_binding_check (pj_id p)", OF this] show ?thesis
    by (auto simp: project_validate_def)
qed

lemma length_remdups_adj_sorted:
  "sorted xs \<Longrightarrow> length (remdups_adj xs) = length xs \<longleftrightarrow> distinct xs"
proof (induction xs rule: remdups_adj.induct)
  case (3 x y xs)
  have "length (remdups_adj zs) \<le> length zs" for zs :: "'a list"
    by (rule remdups_adj_length)
  from this [of "y # xs"] 3 show ?case
    by (cases "x = y") (auto simp: Suc_le_eq)
qed auto

lemma has_duplicates_iff: "has_duplicates ids \<longleftrightarrow> \<not> distinct ids"
  using length_remdups_adj_sorted [of "sort ids"] by (simp add: has_duplicates_def Let_def)

lemma turn_validate_ok:
  "turn_validate t = Inr u \<longleftrightarrow>
     ((tu_error t \<noteq> None) = (tu_status t = Turn_Failed))
     \<and> (turn_is_terminal (tu_status t) \<longrightarrow> tu_completed_at_ms t \<noteq> None)
     \<and> distinct (tu_item_ids t)
     \<and> (\<forall>h. tu_binding_handle t = Some h \<longrightarrow> handle_validate_for Binding_Turn h = ok)"
  by (auto simp: turn_validate_def has_duplicates_iff when_some_ok)

lemma live_binding_validate_against_ok:
  "live_binding_validate_against caps b = Inr u \<Longrightarrow>
     (is_live b \<longrightarrow> permits caps LiveObserve) \<and> (accepts_control b \<longrightarrow> permits caps LiveControl)"
  by (cases b) simp_all

lemma live_binding_evidence:
  assumes "live_binding_validate_against caps b = Inr u"
    and "b = Observing r t e \<or> b = Controlling r t e"
  shows "r = rc_runtime_id caps \<and> ev_source e = ObservedInTraffic"
  using assms by (auto simp: validate_live_evidence_def validate_observed_evidence_def)

text \<open>
  The references an item carries, as \<open>item_content_refs\<close> of the state crate lists them:
  each one is sensitive once the item validated.
\<close>

fun item_body_refs :: "item_body \<Rightarrow> content_ref list" where
  "item_body_refs (UserMessage c) = [c]"
| "item_body_refs (AgentMessage c _) = [c]"
| "item_body_refs (Reasoning c) = [c]"
| "item_body_refs (ToolCall _ arguments output _) = opt_list arguments @ opt_list output"
| "item_body_refs (FileEdit changes) = concat (map (\<lambda>e. fc_path_ref e # opt_list (fc_diff e)
     @ (case fc_kind e of Rename r \<Rightarrow> [r] | _ \<Rightarrow> [])) (cs_entries changes))"
| "item_body_refs (PlanUpdate entries) = map pe_title_ref entries"
| "item_body_refs (TaskUpdate tasks) = map ta_title_ref tasks"
| "item_body_refs (Body_Diagnostic _ _ detail) = [detail]"

definition item_content_refs :: "item \<Rightarrow> content_ref list" where
  "item_content_refs i = item_body_refs (it_body i)"

lemma file_change_refs_sensitive:
  assumes "file_change_check e = Inr u"
    and "r = fc_path_ref e \<or> fc_diff e = Some r \<or> fc_kind e = Rename r"
  shows "content_ref_validate r = ok \<and> cr_sensitivity r = Sensitive"
  using assms by (auto simp: file_change_check_def sensitive_refs_agree when_some_ok)

lemma item_content_refs_sensitive:
  assumes "item_validate i = Inr u" and r: "r \<in> set (item_content_refs i)"
  shows "content_ref_validate r = ok \<and> cr_sensitivity r = Sensitive"
proof -
  from assms(1) have chk: "item_body_check (it_body i) = ok"
    by (simp add: item_validate_def)
  show ?thesis
  proof (cases "it_body i")
    case (FileEdit changes)
    with r obtain e where "e \<in> set (cs_entries changes)"
      and "r = fc_path_ref e \<or> fc_diff e = Some r \<or> fc_kind e = Rename r"
      by (auto simp: item_content_refs_def split: file_change_kind.splits)
    with chk FileEdit show ?thesis
      by (auto simp: for_each_ok intro!: file_change_refs_sensitive)
  qed (use chk r in \<open>auto simp: item_content_refs_def sensitive_refs_agree for_each_ok when_some_ok\<close>)
qed

end
