(* ===== verification/Sample_Values.thy ===== *)
theory Sample_Values
  imports Session_Turn
begin

text \<open>
  Concrete values the witnesses of the development are evaluated on: a stored sensitive content
  reference, binding handles of every kind, evidence observed in traffic, and a host, a runtime, a
  project, a session, a turn and an item that refer to each other.
\<close>

definition sample_ref :: content_ref where
  "sample_ref = \<lparr>cr_content_id = ''cnt_1'', cr_kind = PlainText, cr_byte_len = 5,
     cr_digest = ''sha256:'' @ replicate 64 (CHR ''a''), cr_preview = None,
     cr_sensitivity = Sensitive, cr_availability = Stored\<rparr>"

definition sample_handle :: "provider_binding_kind \<Rightarrow> provider_binding_handle" where
  "sample_handle kind = \<lparr>bh_id = ''bnd_0123456789'', bh_runtime_id = ''rt_1'', bh_kind = kind\<rparr>"

definition sample_evidence :: capability_evidence where
  "sample_evidence = \<lparr>ev_source = ObservedInTraffic, ev_observed_at_ms = 1, ev_note_ref = None\<rparr>"

definition sample_capabilities :: runtime_capabilities where
  "sample_capabilities = \<lparr>rc_runtime_id = ''rt_1'', rc_negotiated_at_ms = 1, rc_entries =
     [\<lparr>cap_capability = LiveObserve, cap_state = Supported, cap_evidence = sample_evidence\<rparr>]\<rparr>"

definition sample_host :: host where
  "sample_host = \<lparr>ho_id = ''host_1'', ho_display_name = ''Desk'', ho_platform = Linux,
     ho_reachability = LanDirect, ho_protocol_version = PROTOCOL_VERSION, ho_last_seen_at_ms = 1\<rparr>"

definition sample_runtime :: provider_runtime where
  "sample_runtime = \<lparr>rt_id = ''rt_1'', rt_host_id = ''host_1'', rt_family = Codex,
     rt_version_label = None, rt_launch_surface = BrokerLaunched, rt_connection = Connected 1,
     rt_capabilities = sample_capabilities, rt_binding_handle = None\<rparr>"

definition sample_project :: project where
  "sample_project = \<lparr>pj_id = ''prj_1'', pj_display_name = ''Demo'', pj_bindings =
     [\<lparr>pb_id = ''pb_1'', pb_project_id = ''prj_1'', pb_runtime_id = ''rt_1'', pb_root_ref = sample_ref\<rparr>],
     pj_session_counts = session_counts_default, pj_workflow_count = 0, pj_attention_count = 0,
     pj_last_activity_at_ms = 1\<rparr>"

definition sample_session :: session where
  "sample_session = \<lparr>se_id = ''ses_1'', se_project_id = ''prj_1'', se_project_binding_id = ''pb_1'',
     se_ownership = BrokerManaged,
     se_history_source = \<lparr>hs_kind = BrokerLog, hs_runtime_id = Some ''rt_1'', hs_evidence = sample_evidence\<rparr>,
     se_live_binding = NotBound NeverStarted, se_status = Session_Idle, se_title = None,
     se_created_at_ms = 1, se_updated_at_ms = 1, se_last_activity_at_ms = 1, se_active_turn_id = None,
     se_queue_depth = 0, se_open_attention_count = 0, se_archived = False, se_binding_handle = None\<rparr>"

definition sample_turn :: turn where
  "sample_turn = \<lparr>tu_id = ''trn_1'', tu_session_id = ''ses_1'', tu_status = Turn_Running,
     tu_origin = RemoteCommand ''cmd_1'', tu_started_at_ms = Some 5, tu_completed_at_ms = None,
     tu_item_ids = [], tu_error = None, tu_binding_handle = None\<rparr>"

definition sample_item :: item where
  "sample_item = \<lparr>it_id = ''itm_1'', it_session_id = ''ses_1'', it_turn_id = ''trn_1'', it_sequence = 0,
     it_status = Item_InProgress, it_body = UserMessage sample_ref, it_created_at_ms = 6,
     it_updated_at_ms = 7, it_binding_handle = None\<rparr>"

lemma sample_ref_valid [simp]: "content_ref_validate sample_ref = ok"
  by code_simp

lemma sample_ref_simps [simp]:
  "cr_content_id sample_ref = ''cnt_1''" "cr_sensitivity sample_ref = Sensitive"
  "cr_preview sample_ref = None" "cr_availability sample_ref = Stored"
  by (simp_all add: sample_ref_def)

lemma sample_handle_valid [simp]: "handle_validate_for kind (sample_handle kind) = ok"
  by (cases kind; code_simp)

lemma sample_handle_runtime [simp]: "bh_runtime_id (sample_handle kind) = ''rt_1''"
  by (simp add: sample_handle_def)

lemma sample_values_valid:
  "host_validate sample_host = ok" "runtime_validate sample_runtime = ok"
  "project_validate sample_project = ok" "session_validate sample_session sample_capabilities = ok"
  "turn_validate sample_turn = ok" "item_validate sample_item = ok"
  by code_simp+

end
