(* ===== verification/Attention.thy ===== *)
theory Attention
  imports Sample_Values
begin

text \<open>
  The attention inbox (\<open>attention.rs\<close>): approvals, questions, workflow gates and connection
  faults, the validation of an entry, the check of a reply against it, and the join of an approval
  with the items observed so far. The lemmas show that a reply the check accepts produces an
  answered entry that validates again, and that a reply to a question answers every prompt once.
\<close>

section \<open>Data\<close>

datatype decision_semantics = Allow | AllowAlways | Deny | DenyAlways | Decision_Cancel | Choose

record decision_option =
  do_option_id :: string
  do_label :: string
  do_semantics :: decision_semantics

datatype join_failure_reason = ItemNotYetSeen | ItemUnknown | AmbiguousTarget | ScopeMismatch

datatype join_state = Joined item_id | Unjoined join_failure_reason

record approval_request =
  ap_request_key :: string
  ap_target_item_id :: item_id
  ap_join :: join_state
  ap_options :: "decision_option list"
  ap_summary_ref :: content_ref
  ap_detail_ref :: "content_ref option"
  ap_binding_handle :: provider_binding_handle

record question_prompt =
  qp_question_key :: string
  qp_prompt_ref :: content_ref
  qp_options :: "decision_option list"
  qp_multi_select :: bool
  qp_free_form_allowed :: bool

record question_request =
  qr_request_key :: string
  qr_questions :: "question_prompt list"
  qr_binding_handle :: provider_binding_handle

record question_answer =
  qa_question_key :: string
  qa_option_ids :: "string list"
  qa_free_form_ref :: "content_ref option"

record workflow_gate_request =
  wg_request_key :: string
  wg_step_id :: step_id
  wg_prompt_ref :: content_ref
  wg_options :: "decision_option list"
  wg_free_form_allowed :: bool

datatype attention_subject =
  Approval approval_request
| Question question_request
| WorkflowGate workflow_gate_request
| ConnectionFault provider_runtime_id connection_fault_reason

datatype answer_evidence_source = Answer_ObservedInTraffic | Answer_RecordedFixture

record attention_answer_evidence =
  ae_observer_host_id :: host_id
  ae_observed_at_ms :: i64
  ae_source :: answer_evidence_source

datatype attention_answer_source =
  LocalCommand command_id
| ObservedExternal attention_answer_evidence

datatype attention_state =
  Attention_Open
| Answered "string option" "content_ref option" "question_answer list" i64 attention_answer_source
| Attention_Expired i64
| Superseded attention_id
| Attention_Cancelled i64

record attention_item =
  at_id :: attention_id
  at_host_id :: host_id
  at_project_id :: project_id
  at_session_id :: "session_id option"
  at_turn_id :: "turn_id option"
  at_workflow_id :: "workflow_id option"
  at_subject :: attention_subject
  at_state :: attention_state
  at_created_at_ms :: i64
  at_expires_at_ms :: "i64 option"

record attention_response =
  re_attention_id :: attention_id
  re_session_id :: "session_id option"
  re_request_key :: string
  re_expected_expires_at_ms :: "i64 option"
  re_option_id :: "string option"
  re_free_form_ref :: "content_ref option"
  re_question_answers :: "question_answer list"

datatype reply_rejection =
  Reply_AttentionMismatch | Reply_NotOpen | Reply_NotReplyable | Reply_SessionRequired
| Reply_SessionMismatch | Reply_RequestKeyMismatch | Reply_ExpiryMismatch | Reply_Expired
| Reply_UnknownOption | Reply_FreeFormNotAllowed | Reply_InvalidFreeForm | Reply_DecisionMissing
| Reply_QuestionAnswersRequired | Reply_QuestionAnswersUnexpected | Reply_QuestionTopLevelDecision
| Reply_QuestionAnswerEmpty | Reply_QuestionAnswerDuplicateKey | Reply_QuestionAnswerDuplicateOption
| Reply_QuestionAnswerUnknownKey | Reply_QuestionAnswerUnknownOption
| Reply_QuestionAnswerTooManyOptions | Reply_QuestionAnswerMissing

section \<open>Accessors\<close>

definition attention_is_open :: "attention_state \<Rightarrow> bool" where
  "attention_is_open s \<longleftrightarrow> s = Attention_Open"

fun subject_request_key :: "attention_subject \<Rightarrow> string option" where
  "subject_request_key (Approval r) = Some (ap_request_key r)"
| "subject_request_key (Question r) = Some (qr_request_key r)"
| "subject_request_key (WorkflowGate r) = Some (wg_request_key r)"
| "subject_request_key (ConnectionFault _ _) = None"

fun subject_options :: "attention_subject \<Rightarrow> decision_option list" where
  "subject_options (Approval r) = ap_options r"
| "subject_options (Question r) = (case qr_questions r of [] \<Rightarrow> [] | q # _ \<Rightarrow> qp_options q)"
| "subject_options (WorkflowGate r) = wg_options r"
| "subject_options (ConnectionFault _ _) = []"

definition requires_session :: "attention_item \<Rightarrow> bool" where
  "requires_session a = (case at_subject a of Approval _ \<Rightarrow> True | Question _ \<Rightarrow> True | _ \<Rightarrow> False)"

definition expired_at :: "i64 \<Rightarrow> attention_item \<Rightarrow> bool" where
  "expired_at now_ms a = is_some_and (\<lambda>expiry. now_ms \<ge> expiry) (at_expires_at_ms a)"

section \<open>Mapping between rejections and contract violations\<close>

definition from_contract_violation :: "contract_violation \<Rightarrow> reply_rejection" where
  "from_contract_violation error = (case error of
     QuestionAnswersRequired \<Rightarrow> Reply_QuestionAnswersRequired
   | QuestionAnswerEmpty \<Rightarrow> Reply_QuestionAnswerEmpty
   | QuestionAnswerDuplicateKey \<Rightarrow> Reply_QuestionAnswerDuplicateKey
   | QuestionAnswerDuplicateOption \<Rightarrow> Reply_QuestionAnswerDuplicateOption
   | QuestionAnswerUnknownKey \<Rightarrow> Reply_QuestionAnswerUnknownKey
   | QuestionAnswerUnknownOption \<Rightarrow> Reply_QuestionAnswerUnknownOption
   | QuestionAnswerTooManyOptions \<Rightarrow> Reply_QuestionAnswerTooManyOptions
   | QuestionAnswerMissing \<Rightarrow> Reply_QuestionAnswerMissing
   | FreeFormNotAllowed \<Rightarrow> Reply_FreeFormNotAllowed
   | InvalidFreeForm \<Rightarrow> Reply_InvalidFreeForm
   | QuestionTopLevelDecision \<Rightarrow> Reply_QuestionTopLevelDecision
   | QuestionAnswersUnexpected \<Rightarrow> Reply_QuestionAnswersUnexpected
   | _ \<Rightarrow> Reply_DecisionMissing)"

definition contract_violation_of :: "reply_rejection \<Rightarrow> contract_violation" where
  "contract_violation_of rejection = (case rejection of
     Reply_DecisionMissing \<Rightarrow> AttentionDecisionMissing
   | Reply_QuestionAnswersUnexpected \<Rightarrow> QuestionAnswersUnexpected
   | Reply_QuestionTopLevelDecision \<Rightarrow> QuestionTopLevelDecision
   | Reply_QuestionAnswerEmpty \<Rightarrow> QuestionAnswerEmpty
   | Reply_QuestionAnswerDuplicateKey \<Rightarrow> QuestionAnswerDuplicateKey
   | Reply_QuestionAnswerDuplicateOption \<Rightarrow> QuestionAnswerDuplicateOption
   | Reply_QuestionAnswerUnknownOption \<Rightarrow> QuestionAnswerUnknownOption
   | Reply_QuestionAnswerTooManyOptions \<Rightarrow> QuestionAnswerTooManyOptions
   | Reply_QuestionAnswerUnknownKey \<Rightarrow> QuestionAnswerUnknownKey
   | Reply_QuestionAnswerMissing \<Rightarrow> QuestionAnswerMissing
   | Reply_FreeFormNotAllowed \<Rightarrow> FreeFormNotAllowed
   | Reply_InvalidFreeForm \<Rightarrow> InvalidFreeForm
   | Reply_UnknownOption \<Rightarrow> UnknownOption
   | _ \<Rightarrow> AttentionDecisionMissing)"

section \<open>Validators\<close>

definition decision_option_check :: "bool \<Rightarrow> decision_option \<Rightarrow> ccheck" where
  "decision_option_check seen opt = run_checks
     [require_id (do_option_id opt) ''option_id'',
      reject_if seen (DuplicateDecisionOption (do_option_id opt))]"

definition validate_options :: "decision_option list \<Rightarrow> bool \<Rightarrow> ccheck" where
  "validate_options options free_form_allowed = run_checks
     [reject_if (options = [] \<and> \<not> free_form_allowed) DecisionOptionsMissing,
      for_seen do_option_id decision_option_check [] options]"

definition question_check :: "bool \<Rightarrow> question_prompt \<Rightarrow> ccheck" where
  "question_check seen q = run_checks
     [require_id (qp_question_key q) ''question_key'',
      reject_if seen (DuplicateQuestionKey (qp_question_key q)),
      validate_options (qp_options q) (qp_free_form_allowed q),
      validate_sensitive ''question.prompt_ref'' (qp_prompt_ref q)]"

definition validate_questions :: "question_prompt list \<Rightarrow> ccheck" where
  "validate_questions questions = run_checks
     [reject_if (questions = []) QuestionSetEmpty,
      for_seen qp_question_key question_check [] questions]"

definition answer_option_check :: "bool \<Rightarrow> string \<Rightarrow> ccheck" where
  "answer_option_check seen option_id = run_checks
     [require_id option_id ''question_answer.option_id'',
      reject_if seen QuestionAnswerDuplicateOption]"

definition invalid_free_form :: "content_ref \<Rightarrow> bool" where
  "invalid_free_form r \<longleftrightarrow> \<not> is_ok (content_ref_validate r) \<or> cr_sensitivity r \<noteq> Sensitive"

definition validate_answer_options_shape :: "question_answer \<Rightarrow> ccheck" where
  "validate_answer_options_shape answer = run_checks
     [for_seen id answer_option_check [] (qa_option_ids answer),
      reject_if (qa_option_ids answer = [] \<and> qa_free_form_ref answer = None) QuestionAnswerEmpty,
      when_some (\<lambda>r. reject_if (invalid_free_form r) InvalidFreeForm) (qa_free_form_ref answer)]"

definition answer_shape_check :: "bool \<Rightarrow> question_answer \<Rightarrow> ccheck" where
  "answer_shape_check seen answer = run_checks
     [require_id (qa_question_key answer) ''question_answer.question_key'',
      reject_if seen QuestionAnswerDuplicateKey,
      validate_answer_options_shape answer]"

definition validate_question_answers_shape :: "question_answer list \<Rightarrow> ccheck" where
  "validate_question_answers_shape answers = run_checks
     [reject_if (answers = []) QuestionAnswersRequired,
      for_seen qa_question_key answer_shape_check [] answers]"

definition question_answer_check :: "question_request \<Rightarrow> question_answer \<Rightarrow> reply_rejection check" where
  "question_answer_check request answer =
     (if qa_question_key answer \<notin> set (map qp_question_key (qr_questions request))
      then Inl Reply_QuestionAnswerUnknownKey
      else and_then
        (ok_or (find (\<lambda>q. qp_question_key q = qa_question_key answer) (qr_questions request))
           Reply_QuestionAnswerUnknownKey)
        (\<lambda>q. run_checks
          [reject_if (\<not> qp_multi_select q \<and> length (qa_option_ids answer) > 1)
             Reply_QuestionAnswerTooManyOptions,
           for_each (\<lambda>oid. reject_if (\<not> list_ex (\<lambda>opt. do_option_id opt = oid) (qp_options q))
             Reply_QuestionAnswerUnknownOption) (qa_option_ids answer),
           reject_if (qa_free_form_ref answer \<noteq> None \<and> \<not> qp_free_form_allowed q)
             Reply_FreeFormNotAllowed]))"

definition validate_question_answers :: "question_request \<Rightarrow> question_answer list \<Rightarrow> reply_rejection check" where
  "validate_question_answers request answers = run_checks
     [map_err from_contract_violation (validate_question_answers_shape answers),
      for_each (question_answer_check request) answers,
      reject_if (length answers \<noteq> length (qr_questions request)) Reply_QuestionAnswerMissing]"

definition validate_question_answers_state :: "question_request \<Rightarrow> question_answer list \<Rightarrow> ccheck" where
  "validate_question_answers_state request answers =
     map_err contract_violation_of (validate_question_answers request answers)"

definition validate_top_level_response ::
  "decision_option list \<Rightarrow> bool \<Rightarrow> string option \<Rightarrow> content_ref option \<Rightarrow> reply_rejection check" where
  "validate_top_level_response options free_form_allowed option_id free_form_ref = run_checks
     [when_some (\<lambda>oid. run_checks
        [reject_if (oid = []) Reply_UnknownOption,
         reject_if (options \<noteq> [] \<and> \<not> list_ex (\<lambda>opt. do_option_id opt = oid) options)
           Reply_UnknownOption]) option_id,
      when_some (\<lambda>r. run_checks
        [reject_if (\<not> free_form_allowed) Reply_FreeFormNotAllowed,
         reject_if (invalid_free_form r) Reply_InvalidFreeForm]) free_form_ref,
      reject_if (option_id = None \<and> free_form_ref = None) Reply_DecisionMissing]"

definition validate_top_level_state ::
  "decision_option list \<Rightarrow> bool \<Rightarrow> string option \<Rightarrow> content_ref option \<Rightarrow> ccheck" where
  "validate_top_level_state options free_form_allowed option_id free_form_ref =
     map_err contract_violation_of
       (validate_top_level_response options free_form_allowed option_id free_form_ref)"

section \<open>Replies\<close>

definition check_reply :: "attention_item \<Rightarrow> attention_response \<Rightarrow> i64 \<Rightarrow> reply_rejection check" where
  "check_reply a response now_ms = run_checks
     [reject_if (re_attention_id response \<noteq> at_id a) Reply_AttentionMismatch,
      reject_if (\<not> attention_is_open (at_state a)) Reply_NotOpen,
      (case subject_request_key (at_subject a) of
         None \<Rightarrow> Inl Reply_NotReplyable
       | Some request_key \<Rightarrow> run_checks
           [reject_if (requires_session a \<and> at_session_id a = None) Reply_SessionRequired,
            reject_if (re_session_id response \<noteq> at_session_id a) Reply_SessionMismatch,
            reject_if (re_request_key response \<noteq> request_key) Reply_RequestKeyMismatch,
            reject_if (re_expected_expires_at_ms response \<noteq> at_expires_at_ms a) Reply_ExpiryMismatch,
            reject_if (expired_at now_ms a) Reply_Expired]),
      (case at_subject a of
         Question request \<Rightarrow> run_checks
           [reject_if (re_option_id response \<noteq> None \<or> re_free_form_ref response \<noteq> None)
              Reply_QuestionTopLevelDecision,
            validate_question_answers request (re_question_answers response)]
       | Approval request \<Rightarrow> run_checks
           [reject_if (re_question_answers response \<noteq> []) Reply_QuestionAnswersUnexpected,
            validate_top_level_response (ap_options request) False
              (re_option_id response) (re_free_form_ref response)]
       | WorkflowGate request \<Rightarrow> run_checks
           [reject_if (re_question_answers response \<noteq> []) Reply_QuestionAnswersUnexpected,
            validate_top_level_response (wg_options request) (wg_free_form_allowed request)
              (re_option_id response) (re_free_form_ref response)]
       | ConnectionFault _ _ \<Rightarrow> Inl Reply_NotReplyable)]"

definition attention_response_validate :: "attention_response \<Rightarrow> ccheck" where
  "attention_response_validate response = run_checks
     [require_id (re_attention_id response) ''attention_id'',
      require_id (re_request_key response) ''request_key'',
      when_some (\<lambda>i. require_id i ''session_id'') (re_session_id response),
      when_some (\<lambda>i. require_id i ''option_id'') (re_option_id response),
      (if re_question_answers response \<noteq> [] then run_checks
         [reject_if (re_option_id response \<noteq> None \<or> re_free_form_ref response \<noteq> None)
            QuestionTopLevelDecision,
          validate_question_answers_shape (re_question_answers response)]
       else map_err contract_violation_of
         (validate_top_level_response [] True (re_option_id response) (re_free_form_ref response)))]"

section \<open>Validation of an entry\<close>

fun subject_check :: "session_id option \<Rightarrow> workflow_id option \<Rightarrow> attention_subject \<Rightarrow> ccheck" where
  "subject_check sid _ (Approval request) = run_checks
     [reject_if (sid = None) AttentionSessionRequired,
      require_id (ap_request_key request) ''request_key'',
      require_id (ap_target_item_id request) ''target_item_id'',
      handle_validate_for Binding_InteractionRequest (ap_binding_handle request),
      validate_options (ap_options request) False,
      validate_sensitive ''approval.summary_ref'' (ap_summary_ref request),
      when_some (validate_sensitive ''approval.detail_ref'') (ap_detail_ref request),
      (case ap_join request of
         Joined item_id \<Rightarrow> reject_if (item_id \<noteq> ap_target_item_id request) ApprovalJoinTargetMismatch
       | Unjoined _ \<Rightarrow> ok)]"
| "subject_check sid _ (Question request) = run_checks
     [reject_if (sid = None) AttentionSessionRequired,
      require_id (qr_request_key request) ''request_key'',
      handle_validate_for Binding_InteractionRequest (qr_binding_handle request),
      validate_questions (qr_questions request)]"
| "subject_check _ wid (WorkflowGate request) = run_checks
     [reject_if (wid = None) AttentionWorkflowRequired,
      require_id (wg_request_key request) ''request_key'',
      validate_options (wg_options request) (wg_free_form_allowed request),
      validate_sensitive ''workflow_gate.prompt_ref'' (wg_prompt_ref request)]"
| "subject_check _ _ (ConnectionFault _ _) = ok"

fun answer_source_check :: "host_id \<Rightarrow> attention_answer_source \<Rightarrow> ccheck" where
  "answer_source_check _ (LocalCommand command_id) =
     require_id command_id ''attention_state.answer_source.command_id''"
| "answer_source_check host (ObservedExternal evidence) = run_checks
     [require_id (ae_observer_host_id evidence)
        ''attention_state.answer_source.evidence.observer_host_id'',
      reject_if (ae_observer_host_id evidence \<noteq> host) AttentionAnswerObserverHostMismatch]"

fun answered_check :: "attention_subject \<Rightarrow> string option \<Rightarrow> content_ref option
    \<Rightarrow> question_answer list \<Rightarrow> ccheck" where
  "answered_check (Question request) option_id free_form_ref answers = run_checks
     [reject_if (option_id \<noteq> None \<or> free_form_ref \<noteq> None) QuestionTopLevelDecision,
      validate_question_answers_state request answers]"
| "answered_check (Approval request) option_id free_form_ref answers = run_checks
     [reject_if (answers \<noteq> []) QuestionAnswersUnexpected,
      validate_top_level_state (ap_options request) False option_id free_form_ref]"
| "answered_check (WorkflowGate request) option_id free_form_ref answers = run_checks
     [reject_if (answers \<noteq> []) QuestionAnswersUnexpected,
      validate_top_level_state (wg_options request) (wg_free_form_allowed request)
        option_id free_form_ref]"
| "answered_check (ConnectionFault _ _) _ _ _ = Inl AttentionDecisionMissing"

definition attention_validate :: "attention_item \<Rightarrow> ccheck" where
  "attention_validate a = run_checks
     [require_id (at_id a) ''attention.id'',
      require_id (at_host_id a) ''attention.host_id'',
      require_id (at_project_id a) ''attention.project_id'',
      when_some (\<lambda>i. require_id i ''attention.session_id'') (at_session_id a),
      when_some (\<lambda>i. require_id i ''attention.turn_id'') (at_turn_id a),
      when_some (\<lambda>i. require_id i ''attention.workflow_id'') (at_workflow_id a),
      subject_check (at_session_id a) (at_workflow_id a) (at_subject a),
      (case at_state a of
         Answered option_id free_form_ref answers _ answer_source \<Rightarrow> run_checks
           [answered_check (at_subject a) option_id free_form_ref answers,
            answer_source_check (at_host_id a) answer_source]
       | _ \<Rightarrow> ok)]"

section \<open>Joining an approval with the observed items\<close>

definition approval_join :: "session_id option \<Rightarrow> turn_id option \<Rightarrow> item_id \<Rightarrow> item list \<Rightarrow> bool \<Rightarrow> join_state" where
  "approval_join sid tid target items observation_complete =
     (case filter (\<lambda>i. it_id i = target) items of
        _ # _ # _ \<Rightarrow> Unjoined AmbiguousTarget
      | [i] \<Rightarrow> (if sid = Some (it_session_id i) \<and> tid = Some (it_turn_id i)
                then Joined (it_id i) else Unjoined ScopeMismatch)
      | [] \<Rightarrow> (if observation_complete then Unjoined ItemUnknown else Unjoined ItemNotYetSeen))"

definition refresh_approval_join :: "item list \<Rightarrow> bool \<Rightarrow> attention_item \<Rightarrow> attention_item" where
  "refresh_approval_join items observation_complete a =
     (case at_subject a of
        Approval request \<Rightarrow> a\<lparr>at_subject := Approval (request\<lparr>ap_join :=
          approval_join (at_session_id a) (at_turn_id a) (ap_target_item_id request) items
            observation_complete\<rparr>)\<rparr>
      | _ \<Rightarrow> a)"

section \<open>Content references\<close>

definition attention_content_refs :: "attention_item \<Rightarrow> content_ref list" where
  "attention_content_refs a =
     (case at_subject a of
        Approval r \<Rightarrow> ap_summary_ref r # opt_list (ap_detail_ref r)
      | Question r \<Rightarrow> map qp_prompt_ref (qr_questions r)
      | WorkflowGate r \<Rightarrow> [wg_prompt_ref r]
      | ConnectionFault _ _ \<Rightarrow> []) @
     (case at_state a of
        Answered _ free_form_ref answers _ _ \<Rightarrow>
          opt_list free_form_ref @ concat (map (\<lambda>q. opt_list (qa_free_form_ref q)) answers)
      | _ \<Rightarrow> [])"

section \<open>Lemmas\<close>

lemma validate_options_ok:
  "validate_options options free = Inr u \<longleftrightarrow> (options \<noteq> [] \<or> free) \<and> distinct (map do_option_id options)
     \<and> (\<forall>opt \<in> set options. do_option_id opt \<noteq> [])"
proof -
  have "decision_option_check True opt \<noteq> ok" for opt
    by (simp add: decision_option_check_def)
  from for_seen_ok [of decision_option_check do_option_id "[]" options, OF this] show ?thesis
    by (auto simp: validate_options_def decision_option_check_def)
qed

lemma validate_questions_ok:
  "validate_questions qs = Inr u \<longleftrightarrow> qs \<noteq> [] \<and> distinct (map qp_question_key qs)
     \<and> (\<forall>q \<in> set qs. question_check False q = ok)"
proof -
  have "question_check True q \<noteq> ok" for q
    by (simp add: question_check_def)
  from for_seen_ok [of question_check qp_question_key "[]" qs, OF this] show ?thesis
    by (auto simp: validate_questions_def)
qed

lemma validate_question_answers_shape_ok:
  "validate_question_answers_shape as = Inr u \<longleftrightarrow> as \<noteq> [] \<and> distinct (map qa_question_key as)
     \<and> (\<forall>a \<in> set as. answer_shape_check False a = ok)"
proof -
  have "answer_shape_check True a \<noteq> ok" for a
    by (simp add: answer_shape_check_def)
  from for_seen_ok [of answer_shape_check qa_question_key "[]" as, OF this] show ?thesis
    by (auto simp: validate_question_answers_shape_def)
qed

lemma answer_options_distinct:
  assumes "answer_shape_check False a = Inr u"
  shows "distinct (qa_option_ids a) \<and> (qa_option_ids a \<noteq> [] \<or> qa_free_form_ref a \<noteq> None)"
proof -
  have "answer_option_check True x \<noteq> ok" for x
    by (simp add: answer_option_check_def)
  note for_seen_ok [of answer_option_check id "[]" "qa_option_ids a", OF this]
  with assms show ?thesis
    by (auto simp: answer_shape_check_def validate_answer_options_shape_def)
qed

lemma find_by_key:
  "distinct (map key xs) \<Longrightarrow> find (\<lambda>x. key x = k) xs = Some x \<longleftrightarrow> x \<in> set xs \<and> key x = k"
  by (induction xs) auto

lemma find_by_key_exists: "k \<in> key ` set xs \<Longrightarrow> \<exists>x. find (\<lambda>x. key x = k) xs = Some x"
  by (induction xs) auto

text \<open>What an accepted answer to one prompt selected.\<close>

definition answers_prompt :: "question_answer \<Rightarrow> question_prompt \<Rightarrow> bool" where
  "answers_prompt answer q \<longleftrightarrow> qa_question_key answer = qp_question_key q
     \<and> set (qa_option_ids answer) \<subseteq> do_option_id ` set (qp_options q)
     \<and> (qp_multi_select q \<or> length (qa_option_ids answer) \<le> 1)
     \<and> (qa_free_form_ref answer \<noteq> None \<longrightarrow> qp_free_form_allowed q)"

lemma question_answer_check_ok:
  assumes "distinct (map qp_question_key (qr_questions request))"
  shows "question_answer_check request answer = Inr u \<longleftrightarrow>
    (\<exists>q \<in> set (qr_questions request). answers_prompt answer q)"
proof (cases "qa_question_key answer \<in> qp_question_key ` set (qr_questions request)")
  case True
  then obtain q where f: "find (\<lambda>q. qp_question_key q = qa_question_key answer) (qr_questions request) = Some q"
    using find_by_key_exists [of "qa_question_key answer" qp_question_key] by blast
  with assms have q: "q \<in> set (qr_questions request) \<and> qp_question_key q = qa_question_key answer"
    by (rule find_by_key [THEN iffD1])
  from assms q have uniq: "q' = q" if "q' \<in> set (qr_questions request)" "answers_prompt answer q'" for q'
    using that inj_onD [of qp_question_key "set (qr_questions request)" q' q]
    by (simp add: answers_prompt_def distinct_map)
  have "question_answer_check request answer = Inr u \<longleftrightarrow>
      (qp_multi_select q \<or> length (qa_option_ids answer) \<le> 1)
      \<and> (\<forall>oid \<in> set (qa_option_ids answer). \<exists>opt \<in> set (qp_options q). do_option_id opt = oid)
      \<and> (qa_free_form_ref answer \<noteq> None \<longrightarrow> qp_free_form_allowed q)"
    using True by (auto simp: question_answer_check_def f for_each_ok list_ex_iff not_less simp del: not_None_eq)
  also have "\<dots> \<longleftrightarrow> answers_prompt answer q"
    using q by (auto simp: answers_prompt_def)
  finally have "question_answer_check request answer = Inr u \<longleftrightarrow> answers_prompt answer q" .
  with q uniq show ?thesis
    by blast
next
  case False
  then show ?thesis
    by (auto simp: question_answer_check_def answers_prompt_def)
qed

lemma distinct_same_length_cover:
  assumes "distinct xs" "distinct ys" "length xs = length ys" "set xs \<subseteq> set ys"
  shows "set xs = set ys"
  using assms by (metis List.finite_set card_subset_eq distinct_card)

lemma validate_question_answers_ok:
  assumes ok: "validate_question_answers request as = Inr u"
    and dist: "distinct (map qp_question_key (qr_questions request))"
  shows "distinct (map qa_question_key as)
    \<and> set (map qa_question_key as) = set (map qp_question_key (qr_questions request))
    \<and> (\<forall>a \<in> set as. \<exists>q \<in> set (qr_questions request). answers_prompt a q)"
proof -
  from ok have shape: "validate_question_answers_shape as = ok"
    and each: "\<forall>a \<in> set as. question_answer_check request a = ok"
    and len: "length as = length (qr_questions request)"
    by (auto simp: validate_question_answers_def map_err_ok for_each_ok)
  from each dist have ex: "\<forall>a \<in> set as. \<exists>q \<in> set (qr_questions request). answers_prompt a q"
    by (simp add: question_answer_check_ok)
  then have "set (map qa_question_key as) \<subseteq> set (map qp_question_key (qr_questions request))"
    by (auto simp: answers_prompt_def)
  with shape dist len ex show ?thesis
    using distinct_same_length_cover
      [of "map qa_question_key as" "map qp_question_key (qr_questions request)"]
    by (auto simp: validate_question_answers_shape_ok)
qed

lemma check_reply_ok:
  "check_reply a r now = Inr u \<Longrightarrow> re_attention_id r = at_id a \<and> at_state a = Attention_Open
     \<and> subject_request_key (at_subject a) = Some (re_request_key r) \<and> re_session_id r = at_session_id a
     \<and> re_expected_expires_at_ms r = at_expires_at_ms a
     \<and> (\<forall>t. at_expires_at_ms a = Some t \<longrightarrow> now < t)"
  by (cases "subject_request_key (at_subject a)")
     (simp_all add: check_reply_def attention_is_open_def expired_at_def is_some_and_iff not_le)

text \<open>The entry an accepted reply leads to.\<close>

definition answered_by :: "attention_item \<Rightarrow> attention_response \<Rightarrow> i64 \<Rightarrow> attention_answer_source \<Rightarrow> attention_item" where
  "answered_by a r now src =
     a\<lparr>at_state := Answered (re_option_id r) (re_free_form_ref r) (re_question_answers r) now src\<rparr>"

lemma check_reply_answered:
  "check_reply a r now = Inr u \<Longrightarrow>
     answered_check (at_subject a) (re_option_id r) (re_free_form_ref r) (re_question_answers r) = ok"
  by (cases "at_subject a") (simp_all add: check_reply_def validate_question_answers_state_def
      validate_top_level_state_def map_err_ok)

lemma approval_join_Joined:
  "approval_join sid tid target items c = Joined i \<longleftrightarrow>
     i = target \<and> (\<exists>x. filter (\<lambda>y. it_id y = target) items = [x]
       \<and> sid = Some (it_session_id x) \<and> tid = Some (it_turn_id x))"
proof -
  have "\<forall>x \<in> set (filter (\<lambda>y. it_id y = target) items). it_id x = target"
    by simp
  then show ?thesis
    unfolding approval_join_def
    by (cases "filter (\<lambda>y. it_id y = target) items" rule: remdups_adj.cases) auto
qed

lemma subject_check_join:
  "subject_check sid wid (Approval r) = Inr u \<Longrightarrow> (\<And>i. j = Joined i \<Longrightarrow> i = ap_target_item_id r) \<Longrightarrow>
     subject_check sid wid (Approval (r\<lparr>ap_join := j\<rparr>)) = Inr u"
  by (cases j) simp_all

lemma refresh_keeps_valid:
  assumes "attention_validate a = Inr u"
  shows "attention_validate (refresh_approval_join items c a) = Inr u"
proof (cases "at_subject a")
  case (Approval r)
  define r' where "r' = r\<lparr>ap_join :=
    approval_join (at_session_id a) (at_turn_id a) (ap_target_item_id r) items c\<rparr>"
  from assms Approval have "subject_check (at_session_id a) (at_workflow_id a) (Approval r') = ok"
    unfolding r'_def attention_validate_def
    by (intro subject_check_join) (simp_all add: approval_join_Joined del: subject_check.simps)
  moreover have "answered_check (Approval r') = answered_check (Approval r)"
    by (intro ext) (simp add: r'_def)
  ultimately show ?thesis
    using assms Approval
    by (cases "at_state a") (simp_all add: attention_validate_def refresh_approval_join_def
        flip: r'_def del: subject_check.simps answered_check.simps)
qed (use assms in \<open>simp_all add: refresh_approval_join_def\<close>)

section \<open>Properties\<close>

definition sample_question :: attention_item where
  "sample_question = \<lparr>at_id = ''att_1'', at_host_id = ''host_1'', at_project_id = ''prj_1'',
     at_session_id = Some ''ses_1'', at_turn_id = Some ''trn_1'', at_workflow_id = None,
     at_subject = Question \<lparr>qr_request_key = ''key_1'', qr_questions =
       [\<lparr>qp_question_key = ''q1'', qp_prompt_ref = sample_ref, qp_options =
          [\<lparr>do_option_id = ''yes'', do_label = ''Yes'', do_semantics = Choose\<rparr>,
           \<lparr>do_option_id = ''no'', do_label = ''No'', do_semantics = Choose\<rparr>],
          qp_multi_select = False, qp_free_form_allowed = False\<rparr>,
        \<lparr>qp_question_key = ''q2'', qp_prompt_ref = sample_ref, qp_options = [],
          qp_multi_select = False, qp_free_form_allowed = True\<rparr>],
       qr_binding_handle = sample_handle Binding_InteractionRequest\<rparr>,
     at_state = Attention_Open, at_created_at_ms = 10, at_expires_at_ms = Some 100\<rparr>"

definition sample_answers :: attention_response where
  "sample_answers = \<lparr>re_attention_id = ''att_1'', re_session_id = Some ''ses_1'',
     re_request_key = ''key_1'', re_expected_expires_at_ms = Some 100, re_option_id = None,
     re_free_form_ref = None, re_question_answers =
       [\<lparr>qa_question_key = ''q2'', qa_option_ids = [], qa_free_form_ref = Some sample_ref\<rparr>,
        \<lparr>qa_question_key = ''q1'', qa_option_ids = [''no''], qa_free_form_ref = None\<rparr>]\<rparr>"

definition sample_approval :: attention_item where
  "sample_approval = sample_question\<lparr>at_subject := Approval \<lparr>ap_request_key = ''key_1'',
     ap_target_item_id = ''itm_1'', ap_join = Unjoined ItemNotYetSeen, ap_options =
       [\<lparr>do_option_id = ''allow'', do_label = ''Allow'', do_semantics = Allow\<rparr>],
     ap_summary_ref = sample_ref, ap_detail_ref = None,
     ap_binding_handle = sample_handle Binding_InteractionRequest\<rparr>\<rparr>"

text \<open>
  C9: the check of a reply is sound for the stored entry. When a valid entry's check accepts a
  reply, the entry answered with exactly the reply's fields validates again (for any well-formed
  answer source), and no later reply to it is accepted, at any time.
\<close>

theorem accepted_reply_yields_valid_entry:
  assumes "attention_validate a = ok" and "check_reply a r now = ok"
    and "answer_source_check (at_host_id a) src = ok"
  shows "attention_validate (answered_by a r now src) = ok
    \<and> (\<forall>r' now'. \<not> is_ok (check_reply (answered_by a r now src) r' now'))"
proof (intro conjI allI)
  from assms(2) have "answered_check (at_subject a) (re_option_id r) (re_free_form_ref r)
      (re_question_answers r) = ok"
    by (rule check_reply_answered)
  with assms(1,3) show "attention_validate (answered_by a r now src) = ok"
    by (simp add: attention_validate_def answered_by_def del: answered_check.simps)
  show "\<not> is_ok (check_reply (answered_by a r now src) r' now')" for r' now'
    by (auto simp: answered_by_def dest: check_reply_ok)
qed

theorem accepted_reply_yields_valid_entry_witness:
  "attention_validate (answered_by sample_question sample_answers 50 (LocalCommand ''cmd_1'')) = ok"
proof -
  have "attention_validate sample_question = ok" "check_reply sample_question sample_answers 50 = ok"
    "answer_source_check (at_host_id sample_question) (LocalCommand ''cmd_1'') = ok"
    by code_simp+
  from accepted_reply_yields_valid_entry [OF this] show ?thesis
    by blast
qed

text \<open>
  C10: an accepted reply to a question answers every prompt of a valid entry exactly once: the keys
  are those of the prompts without repetition, every selected option was offered by its prompt,
  a single-select prompt gets at most one, and free form only where it was allowed; and the reply
  named the entry's session, request key and expiry, before that expiry.
\<close>

theorem accepted_answers_cover_questions:
  assumes "attention_validate a = ok" and subj: "at_subject a = Question request"
    and "check_reply a r now = ok"
  shows "distinct (map qa_question_key (re_question_answers r))
      \<and> set (map qa_question_key (re_question_answers r)) = set (map qp_question_key (qr_questions request))
      \<and> (\<forall>x \<in> set (re_question_answers r). \<exists>q \<in> set (qr_questions request). answers_prompt x q)
      \<and> re_session_id r = at_session_id a \<and> at_session_id a \<noteq> None
      \<and> re_request_key r = qr_request_key request
      \<and> re_expected_expires_at_ms r = at_expires_at_ms a \<and> \<not> expired_at now a"
proof -
  from assms(1) subj have "validate_questions (qr_questions request) = ok" "at_session_id a \<noteq> None"
    by (simp_all add: attention_validate_def)
  moreover from assms(3) subj have "validate_question_answers request (re_question_answers r) = ok"
    by (simp add: check_reply_def)
  moreover note check_reply_ok [OF assms(3)] subj
  ultimately show ?thesis
    using validate_question_answers_ok [of request "re_question_answers r"]
    by (simp add: validate_questions_ok expired_at_def is_some_and_iff not_le)
qed

theorem accepted_answers_cover_questions_witness:
  "set (map qa_question_key (re_question_answers sample_answers)) = {''q1'', ''q2''}"
proof -
  have "attention_validate sample_question = ok" "check_reply sample_question sample_answers 50 = ok"
    by code_simp+
  moreover obtain request where "at_subject sample_question = Question request"
    and "map qp_question_key (qr_questions request) = [''q1'', ''q2'']"
    by (auto simp: sample_question_def)
  ultimately show ?thesis
    using accepted_answers_cover_questions [of sample_question request sample_answers 50] by simp
qed

text \<open>
  C11: refreshing an approval's join keeps a valid entry valid, never touches what a reply binds to,
  and records the approval as joined exactly when one single observed item has the target id and
  that item belongs to the entry's own session and turn.
\<close>

theorem approval_join_exact:
  assumes "attention_validate a = ok" and subj: "at_subject a = Approval request"
  shows "attention_validate (refresh_approval_join items c a) = ok
    \<and> check_reply (refresh_approval_join items c a) r now = check_reply a r now
    \<and> (\<exists>request'. at_subject (refresh_approval_join items c a) = Approval request'
        \<and> (ap_join request' = Joined (ap_target_item_id request) \<longleftrightarrow>
            (\<exists>x. filter (\<lambda>y. it_id y = ap_target_item_id request) items = [x]
               \<and> at_session_id a = Some (it_session_id x) \<and> at_turn_id a = Some (it_turn_id x))))"
proof (intro conjI)
  show "attention_validate (refresh_approval_join items c a) = ok"
    using assms(1) by (rule refresh_keeps_valid)
  show "check_reply (refresh_approval_join items c a) r now = check_reply a r now"
    by (simp add: refresh_approval_join_def subj check_reply_def requires_session_def expired_at_def)
qed (simp add: refresh_approval_join_def subj approval_join_Joined)

theorem approval_join_exact_witness:
  "attention_validate (refresh_approval_join [sample_item] False sample_approval) = ok"
proof -
  have "attention_validate sample_approval = ok"
    by code_simp
  moreover obtain request where "at_subject sample_approval = Approval request"
    by (simp add: sample_approval_def)
  ultimately show ?thesis
    using approval_join_exact [of sample_approval request "[sample_item]" False] by simp
qed

text \<open>
  A workflow gate with no options accepts any non-empty option identifier, since the membership
  test is skipped for an empty list.
\<close>

lemma gate_without_options_accepts_any:
  "oid \<noteq> [] \<Longrightarrow> validate_top_level_response [] True (Some oid) None = ok"
  by (simp add: validate_top_level_response_def)

end
