(* ===== verification/Workflow.thy ===== *)
theory Workflow
  imports Sample_Values
begin

text \<open>
  Cross-agent workflows (\<open>workflow.rs\<close>): workflows, steps, artifacts, the admission check of a
  step and the closed table of manual transitions. A small step relation over the table gives
  reachability: which states are final, and that every other state can still be completed.
\<close>

section \<open>Data\<close>

text \<open>The issuer of a command (\<open>command.rs\<close>), which a step's audit records too.\<close>

datatype actor = Human device_id | Actor_Workflow workflow_id | Broker

datatype workflow_state =
  Workflow_Draft | Workflow_Ready | Workflow_Running | Workflow_Blocked | Workflow_WaitingHuman
| Workflow_Review | Workflow_Rework | Workflow_Completed | Workflow_Failed | Workflow_Cancelled

record workflow =
  wf_id :: workflow_id
  wf_project_id :: project_id
  wf_title :: string
  wf_state :: workflow_state
  wf_step_ids :: "step_id list"
  wf_created_at_ms :: i64
  wf_updated_at_ms :: i64

datatype step_role = Role_Plan | Role_Implement | Role_Review | Role_Verify | Role_Custom

datatype step_state =
  Draft | Ready | Running | Step_Blocked | WaitingHuman | Review | Rework | Completed | Failed
| Skipped | Cancelled

record runtime_selector =
  rs_family :: provider_family
  rs_required :: "capability list"
  rs_runtime_id :: "provider_runtime_id option"

record step_assignment =
  sa_selector :: runtime_selector
  sa_project_binding_id :: project_binding_id
  sa_worktree_ref :: content_ref

datatype artifact_kind = Art_Plan | Art_Diff | Art_Commit | Art_ReviewNotes | Art_TestReport

datatype completion_condition = AgentTurnCompleted | ArtifactProduced artifact_kind | HumanApproved

record artifact =
  ar_id :: artifact_id
  ar_workflow_id :: workflow_id
  ar_produced_by :: "step_id option"
  ar_kind :: artifact_kind
  ar_content :: content_ref
  ar_created_at_ms :: i64

datatype workflow_action = Act_Advance | Act_Retry | Act_Rework | Act_Skip | Act_Cancel | Act_Reassign

record step_transition =
  sx_from :: step_state
  sx_to :: step_state
  sx_action :: workflow_action
  sx_actor :: actor
  sx_at_ms :: i64
  sx_reason_ref :: "content_ref option"

record step =
  st_id :: step_id
  st_workflow_id :: workflow_id
  st_title :: string
  st_role :: step_role
  st_assignment :: step_assignment
  st_depends_on :: "step_id list"
  st_inputs :: "artifact_id list"
  st_outputs :: "artifact_id list"
  st_completion :: completion_condition
  st_human_gate :: "attention_id option"
  st_session_id :: "session_id option"
  st_state :: step_state
  st_attempt :: u32
  st_audit :: "step_transition list"

datatype step_blocker =
  DependencyIncomplete step_id
| CapabilityNotSupported capability
| HumanGateOpen attention_id
| NotSchedulable step_state

section \<open>The transition table\<close>

fun transition_allowed :: "workflow_action \<Rightarrow> step_state \<Rightarrow> step_state \<Rightarrow> bool" where
  "transition_allowed Act_Advance from to \<longleftrightarrow> (from, to) \<in>
     {(Draft, Ready), (Ready, Running), (Running, Review), (Running, Completed),
      (WaitingHuman, Ready), (Step_Blocked, Ready), (Rework, Ready), (Review, Completed)}"
| "transition_allowed Act_Retry from to \<longleftrightarrow> from = Failed \<and> to = Ready"
| "transition_allowed Act_Rework from to \<longleftrightarrow> from \<in> {Review, Completed, Failed} \<and> to = Rework"
| "transition_allowed Act_Skip from to \<longleftrightarrow>
     from \<in> {Draft, Ready, Step_Blocked, WaitingHuman, Review, Rework, Failed} \<and> to = Skipped"
| "transition_allowed Act_Cancel from to \<longleftrightarrow>
     from \<notin> {Completed, Failed, Skipped, Cancelled} \<and> to = Cancelled"
| "transition_allowed Act_Reassign from to \<longleftrightarrow>
     from \<in> {Draft, Ready, Step_Blocked, WaitingHuman, Rework, Failed} \<and> to = from"

definition validate_transition :: "step_state \<Rightarrow> workflow_action \<Rightarrow> step_state \<Rightarrow> ccheck" where
  "validate_transition from action to =
     (if transition_allowed action from to then ok else Inl WorkflowTransitionNotAllowed)"

section \<open>Validators\<close>

definition workflow_validate :: "workflow \<Rightarrow> ccheck" where
  "workflow_validate w = run_checks
     [require_id (wf_id w) ''workflow.id'',
      require_id (wf_project_id w) ''workflow.project_id'',
      reject_if (list_ex (\<lambda>i. i = []) (wf_step_ids w)) (EmptyIdentifier ''workflow.step_ids'')]"

definition step_assignment_validate :: "step_assignment \<Rightarrow> ccheck" where
  "step_assignment_validate a = run_checks
     [require_id (sa_project_binding_id a) ''project_binding_id'',
      validate_sensitive ''step_assignment.worktree_ref'' (sa_worktree_ref a)]"

definition step_transition_validate :: "step_transition \<Rightarrow> ccheck" where
  "step_transition_validate x = run_checks
     [validate_transition (sx_from x) (sx_action x) (sx_to x),
      when_some (validate_sensitive ''step_transition.reason_ref'') (sx_reason_ref x)]"

definition step_validate :: "step \<Rightarrow> ccheck" where
  "step_validate s = run_checks
     [require_id (st_id s) ''step.id'',
      require_id (st_workflow_id s) ''step.workflow_id'',
      step_assignment_validate (st_assignment s),
      for_each step_transition_validate (st_audit s)]"

definition artifact_validate :: "artifact \<Rightarrow> ccheck" where
  "artifact_validate a = run_checks
     [require_id (ar_id a) ''artifact.id'',
      require_id (ar_workflow_id a) ''artifact.workflow_id'',
      when_some (\<lambda>i. require_id i ''artifact.produced_by'') (ar_produced_by a),
      content_ref_validate (ar_content a)]"

section \<open>Step operations\<close>

definition blockers :: "step \<Rightarrow> (step_id \<times> step_state) list \<Rightarrow> runtime_capabilities \<Rightarrow> bool \<Rightarrow> step_blocker list" where
  "blockers s dependency_states caps gate_open =
     (if st_state s \<noteq> Ready then [NotSchedulable (st_state s)] else [])
     @ map DependencyIncomplete (filter (\<lambda>d. \<not> list_ex (\<lambda>(i, state). i = d \<and> state \<in> {Completed, Skipped})
         dependency_states) (st_depends_on s))
     @ map CapabilityNotSupported (filter (\<lambda>c. \<not> permits caps c) (rs_required (sa_selector (st_assignment s))))
     @ (case st_human_gate s of
          Some attention_id \<Rightarrow> (if gate_open then [HumanGateOpen attention_id] else [])
        | None \<Rightarrow> [])"

definition step_validate_transition :: "step \<Rightarrow> workflow_action \<Rightarrow> step_state \<Rightarrow> ccheck" where
  "step_validate_transition s action to = run_checks
     [validate_transition (st_state s) action to,
      reject_if (action = Act_Retry \<and> checked_add (st_attempt s) 1 = None) WorkflowAttemptOverflow]"

definition increment_attempt :: "step \<Rightarrow> (contract_violation, step) result" where
  "increment_attempt s = and_then (ok_or (checked_add (st_attempt s) 1) WorkflowAttemptOverflow)
     (\<lambda>n. Inr (s\<lparr>st_attempt := n\<rparr>))"

section \<open>Reachability over the table\<close>

inductive step_path :: "step_state \<Rightarrow> step_state \<Rightarrow> bool" where
  path_refl: "step_path s s"
| path_step: "validate_transition s action t = ok \<Longrightarrow> step_path t u \<Longrightarrow> step_path s u"

inductive_cases step_path_cases: "step_path s t"

lemma validate_transition_ok [simp]: "validate_transition s a t = Inr u \<longleftrightarrow> transition_allowed a s t"
  by (simp add: validate_transition_def)

lemma final_states:
  "(\<forall>a t. \<not> transition_allowed a s t) \<longleftrightarrow> s = Skipped \<or> s = Cancelled"
proof
  assume *: "\<forall>a t. \<not> transition_allowed a s t"
  then have "\<not> transition_allowed Act_Cancel s Cancelled" "\<not> transition_allowed Act_Rework s Rework"
    by blast+
  then show "s = Skipped \<or> s = Cancelled"
    by auto
next
  assume "s = Skipped \<or> s = Cancelled"
  then show "\<forall>a t. \<not> transition_allowed a s t"
  proof (intro allI)
    fix a t
    show "\<not> transition_allowed a s t"
      using \<open>s = Skipped \<or> s = Cancelled\<close> by (cases a) auto
  qed
qed

lemma final_path: "step_path s t \<Longrightarrow> s = Skipped \<or> s = Cancelled \<Longrightarrow> t = s"
  by (induction rule: step_path.induct) (use final_states in \<open>auto simp: validate_transition_ok\<close>)

lemma path_to_completed:
  assumes "s \<noteq> Skipped" "s \<noteq> Cancelled"
  shows "step_path s Completed"
proof -
  have running: "step_path Running Completed"
    by (rule path_step [of _ Act_Advance Completed]) (auto intro: path_refl)
  then have ready: "step_path Ready Completed"
    by (rule path_step [of _ Act_Advance, rotated]) auto
  have review: "step_path Review Completed"
    by (rule path_step [of _ Act_Advance Completed]) (auto intro: path_refl)
  show ?thesis
    using assms running ready review path_refl [of Completed]
      path_step [of s Act_Advance Ready Completed] path_step [of s Act_Retry Ready Completed]
    by (cases s) auto
qed

text \<open>
  C15: the manual transition table has no trap. The states with no outgoing transition are exactly
  Skipped and Cancelled, a path from one of them never leaves it, and from every other state some
  sequence of valid actions reaches Completed.
\<close>

theorem transition_table_live:
  "((\<forall>a t. validate_transition s a t \<noteq> ok) \<longleftrightarrow> s = Skipped \<or> s = Cancelled)
   \<and> (step_path s Completed \<longleftrightarrow> \<not> (s = Skipped \<or> s = Cancelled))"
  using final_states [of s] final_path [of s Completed] path_to_completed [of s] by auto


definition sample_step :: step where
  "sample_step = \<lparr>st_id = ''stp_1'', st_workflow_id = ''wfl_1'', st_title = ''Plan'', st_role = Role_Plan,
     st_assignment = \<lparr>sa_selector = \<lparr>rs_family = Codex, rs_required = [LiveObserve], rs_runtime_id = None\<rparr>,
       sa_project_binding_id = ''pb_1'', sa_worktree_ref = sample_ref\<rparr>,
     st_depends_on = [''stp_0''], st_inputs = [], st_outputs = [], st_completion = AgentTurnCompleted,
     st_human_gate = None, st_session_id = None, st_state = Ready, st_attempt = 0, st_audit = []\<rparr>"


text \<open>The retry guard is exactly the overflow the attempt counter refuses.\<close>

lemma retry_guard:
  "step_validate_transition s Act_Retry to = ok \<longleftrightarrow>
     st_state s = Failed \<and> to = Ready
     \<and> (\<exists>s'. increment_attempt s = Inr s' \<and> unat (st_attempt s') = unat (st_attempt s) + 1)"
  by (cases "checked_add (st_attempt s) 1")
     (auto simp: step_validate_transition_def increment_attempt_def dest: unat_checked_add)

end
