(* ===== verification/Command_Queue.thy ===== *)
theory Command_Queue
  imports Attention Workflow
begin

text \<open>
  The input queue (\<open>queue.rs\<close>) and commands with their acknowledgements (\<open>command.rs\<close>). The
  lemmas show which queue entries validate, that a reorder is accepted exactly for a permutation
  of the session's pending entries, and that the idempotency key of an envelope is injective.
\<close>

section \<open>The input queue (queue.rs)\<close>

datatype queue_intent = NewTurn | SteerActiveTurn

record steer_acknowledgement =
  sk_source :: evidence_source
  sk_runtime_id :: provider_runtime_id
  sk_session_id :: session_id
  sk_turn_id :: turn_id
  sk_binding_handle :: provider_binding_handle
  sk_observed_at_ms :: i64

datatype queue_state =
  Queue_Pending
| Submitting command_id
| DeliveredAsNewTurn turn_id i64
| DeliveredAsSteer provider_runtime_id turn_id provider_binding_handle i64 steer_acknowledgement
| Queue_Rejected canonical_error
| Queue_Cancelled i64

record queue_entry =
  qe_id :: queue_entry_id
  qe_session_id :: session_id
  qe_position :: u32
  qe_intent :: queue_intent
  qe_body :: content_ref
  qe_state :: queue_state
  qe_editable :: bool
  qe_created_at_ms :: i64
  qe_updated_at_ms :: i64

fun queue_reached_runtime :: "queue_state \<Rightarrow> bool" where
  "queue_reached_runtime (DeliveredAsNewTurn _ _) = True"
| "queue_reached_runtime (DeliveredAsSteer _ _ _ _ _) = True"
| "queue_reached_runtime _ = False"

definition is_pending :: "queue_state \<Rightarrow> bool" where
  "is_pending s \<longleftrightarrow> s = Queue_Pending"

fun queue_is_terminal :: "queue_state \<Rightarrow> bool" where
  "queue_is_terminal (DeliveredAsNewTurn _ _) = True"
| "queue_is_terminal (DeliveredAsSteer _ _ _ _ _) = True"
| "queue_is_terminal (Queue_Rejected _) = True"
| "queue_is_terminal (Queue_Cancelled _) = True"
| "queue_is_terminal _ = False"

fun steer_check :: "session_id \<Rightarrow> queue_state \<Rightarrow> ccheck" where
  "steer_check sid (DeliveredAsSteer runtime_id turn_id handle _ ack) = run_checks
     [reject_if (sk_source ack \<noteq> ObservedInTraffic) (UnprovenSteerDelivery (sk_source ack)),
      reject_if (sk_session_id ack \<noteq> sid) SteerSessionMismatch,
      reject_if (sk_turn_id ack \<noteq> turn_id) SteerTurnMismatch,
      reject_if (sk_runtime_id ack \<noteq> runtime_id) SteerRuntimeMismatch,
      reject_if (sk_binding_handle ack \<noteq> handle) SteerBindingMismatch,
      handle_validate_for Binding_RuntimeAcknowledgement handle,
      reject_if (bh_runtime_id handle \<noteq> runtime_id) SteerBindingMismatch]"
| "steer_check _ _ = ok"

definition queue_entry_validate :: "queue_entry \<Rightarrow> ccheck" where
  "queue_entry_validate e = run_checks
     [content_ref_validate (qe_body e),
      reject_if (cr_sensitivity (qe_body e) \<noteq> Sensitive) (SensitiveContentRequired ''queue_entry.body''),
      reject_if (qe_editable e \<and> \<not> is_pending (qe_state e)) EditableNonPendingQueueEntry,
      steer_check (qe_session_id e) (qe_state e),
      (case qe_state e of Queue_Rejected error \<Rightarrow> canonical_error_validate error | _ \<Rightarrow> ok)]"

definition validate_for_active_turn :: "queue_entry \<Rightarrow> turn_id \<Rightarrow> runtime_capabilities \<Rightarrow> ccheck" where
  "validate_for_active_turn e active_turn_id caps = run_checks
     [queue_entry_validate e,
      (case qe_state e of
         DeliveredAsSteer runtime_id turn_id _ _ _ \<Rightarrow> run_checks
           [reject_if (turn_id \<noteq> active_turn_id) SteerNotActiveTurn,
            reject_if (rc_runtime_id caps \<noteq> runtime_id) SteerRuntimeMismatch,
            reject_if (\<not> permits caps TurnSteer) SteerCapabilityUnsupported]
       | _ \<Rightarrow> ok)]"

definition may_submit :: "queue_entry \<Rightarrow> runtime_capabilities \<Rightarrow> bool" where
  "may_submit e caps = (case qe_intent e of
     NewTurn \<Rightarrow> permits caps TurnPrompt
   | SteerActiveTurn \<Rightarrow> permits caps TurnSteer)"

definition reorderable_entries :: "queue_entry list \<Rightarrow> queue_entry_id list" where
  "reorderable_entries entries =
     map qe_id (sort_key qe_position (filter (\<lambda>e. is_pending (qe_state e)) entries))"

definition reorder_entry_check :: "session_id \<Rightarrow> queue_entry list \<Rightarrow> bool \<Rightarrow> queue_entry_id \<Rightarrow> ccheck" where
  "reorder_entry_check sid entries seen entry_id =
     (if seen then Inl QueueReorderDuplicate
      else and_then (ok_or (find (\<lambda>c. qe_id c = entry_id) entries) QueueReorderUnknownEntry)
        (\<lambda>e. run_checks
          [reject_if (qe_session_id e \<noteq> sid) QueueReorderCrossSession,
           reject_if (\<not> is_pending (qe_state e)) QueueReorderNonPending]))"

definition validate_queue_reorder :: "session_id \<Rightarrow> queue_entry_id list \<Rightarrow> queue_entry list \<Rightarrow> ccheck" where
  "validate_queue_reorder sid order entries = run_checks
     [for_seen id (reorder_entry_check sid entries) [] order,
      reject_if (list_ex (\<lambda>e. qe_session_id e = sid \<and> is_pending (qe_state e) \<and> qe_id e \<notin> set order) entries)
        QueueReorderMissingPending]"

section \<open>Commands (command.rs)\<close>

definition MAX_IDEMPOTENCY_KEY_BYTES :: nat where "MAX_IDEMPOTENCY_KEY_BYTES = 128"
definition MAX_DEVICE_COMMAND_TTL_MS :: u64 where "MAX_DEVICE_COMMAND_TTL_MS = 300000"

datatype command =
  SubmitPrompt session_id content_ref
| EnqueueInput session_id content_ref queue_intent
| EditQueueEntry queue_entry_id content_ref
| ReorderQueue session_id "queue_entry_id list"
| CancelQueueEntry queue_entry_id
| InterruptTurn session_id turn_id
| RetryTurn session_id turn_id
| RespondAttention attention_response
| OpenSession project_id provider_runtime_id
| ResumeSession session_id
| CloseSession session_id
| AdvanceStep step_id
| RetryStep step_id
| ReworkStep step_id "content_ref option"
| SkipStep step_id "content_ref option"
| CancelStep step_id
| ReassignStep step_id step_assignment
| CancelWorkflow workflow_id

record command_envelope =
  ce_command_id :: command_id
  ce_idempotency_key :: string
  ce_actor :: actor
  ce_issued_at_ms :: i64
  ce_expires_at_ms :: "i64 option"
  ce_body :: command

record device_command_request =
  dc_idempotency_key :: string
  dc_ttl_ms :: "u64 option"
  dc_body :: command

datatype runtime_acceptance_kind = PromptTurn | SessionControl

datatype command_outcome =
  AcceptedLocally "content_ref option"
| AcceptedByRuntime session_id runtime_acceptance_kind provider_binding_handle
| Enqueued queue_entry_id
| Outcome_Rejected canonical_error
| Duplicate command_id

record command_ack =
  ack_command_id :: command_id
  ack_outcome :: command_outcome
  ack_acked_at_ms :: i64

fun reached_runtime :: "command_outcome \<Rightarrow> bool" where
  "reached_runtime (AcceptedByRuntime _ _ _) = True"
| "reached_runtime _ = False"

fun is_rejection :: "command_outcome \<Rightarrow> bool" where
  "is_rejection (Outcome_Rejected _) = True"
| "is_rejection _ = False"

fun command_outcome_validate :: "command_outcome \<Rightarrow> ccheck" where
  "command_outcome_validate (AcceptedLocally (Some note_ref)) =
     validate_sensitive ''command_outcome.note_ref'' note_ref"
| "command_outcome_validate (AcceptedByRuntime session_id _ handle) = run_checks
     [require_id session_id ''command_outcome.session_id'',
      handle_validate_for Binding_RuntimeAcknowledgement handle]"
| "command_outcome_validate (Outcome_Rejected error) = canonical_error_validate error"
| "command_outcome_validate (AcceptedLocally None) = ok"
| "command_outcome_validate (Enqueued _) = ok"
| "command_outcome_validate (Duplicate _) = ok"

definition command_ack_validate :: "command_ack \<Rightarrow> ccheck" where
  "command_ack_validate a = run_checks
     [require_id (ack_command_id a) ''command_id'', command_outcome_validate (ack_outcome a)]"

definition envelope_expired_at :: "i64 \<Rightarrow> command_envelope \<Rightarrow> bool" where
  "envelope_expired_at now_ms e = is_some_and (\<lambda>expiry. now_ms \<ge> expiry) (ce_expires_at_ms e)"

fun actor_scope :: "actor \<Rightarrow> string" where
  "actor_scope (Human device_id) = ''human:'' @ show_nat (length device_id) @ '':'' @ device_id"
| "actor_scope (Actor_Workflow workflow_id) =
     ''workflow:'' @ show_nat (length workflow_id) @ '':'' @ workflow_id"
| "actor_scope Broker = ''broker:0:''"

definition dedupe_key :: "command_envelope \<Rightarrow> string" where
  "dedupe_key e = actor_scope (ce_actor e) @ ''|key:'' @ show_nat (length (ce_idempotency_key e))
     @ '':'' @ ce_idempotency_key e"

fun actor_validate :: "actor \<Rightarrow> ccheck" where
  "actor_validate (Human device_id) = require_id device_id ''actor.device_id''"
| "actor_validate (Actor_Workflow workflow_id) = require_id workflow_id ''actor.workflow_id''"
| "actor_validate Broker = ok"

fun command_validate :: "command \<Rightarrow> ccheck" where
  "command_validate (SubmitPrompt _ body) = validate_sensitive ''command.body'' body"
| "command_validate (EnqueueInput _ body _) = validate_sensitive ''command.body'' body"
| "command_validate (EditQueueEntry _ body) = validate_sensitive ''command.body'' body"
| "command_validate (RespondAttention response) = attention_response_validate response"
| "command_validate (ReworkStep _ (Some r)) = validate_sensitive ''command.rework.reason_ref'' r"
| "command_validate (SkipStep _ (Some r)) = validate_sensitive ''command.skip.reason_ref'' r"
| "command_validate (ReassignStep _ assignment) = step_assignment_validate assignment"
| "command_validate _ = ok"

definition envelope_validate :: "command_envelope \<Rightarrow> ccheck" where
  "envelope_validate e = run_checks
     [require_id (ce_command_id e) ''command_id'',
      require_id (ce_idempotency_key e) ''idempotency_key'',
      actor_validate (ce_actor e),
      command_validate (ce_body e)]"

definition device_command_validate :: "device_command_request \<Rightarrow> ccheck" where
  "device_command_validate q = run_checks
     [require_id (dc_idempotency_key q) ''device_command.idempotency_key'',
      reject_if (length (dc_idempotency_key q) > MAX_IDEMPOTENCY_KEY_BYTES)
        (IdempotencyKeyTooLong (length (dc_idempotency_key q))),
      when_some (\<lambda>ttl. reject_if (\<not> (1 \<le> ttl \<and> ttl \<le> MAX_DEVICE_COMMAND_TTL_MS))
        (InvalidDeviceCommandTtl ttl)) (dc_ttl_ms q),
      command_validate (dc_body q)]"

section \<open>Lemmas\<close>

text \<open>A length-prefixed field is self-delimiting.\<close>

lemma framed_inject:
  assumes "show_nat (length a) @ CHR '':'' # a @ s = show_nat (length b) @ CHR '':'' # b @ t"
  shows "a = b \<and> s = t"
proof -
  have "\<not> is_ascii_digit (CHR '':'')"
    by code_simp
  from show_nat_append_inject [OF assms this this] show ?thesis
    by (auto simp: append_eq_append_conv)
qed

lemma actor_scope_inject:
  assumes "actor_scope a @ s = actor_scope b @ t"
  shows "a = b \<and> s = t"
  using assms by (cases a; cases b) (auto dest: framed_inject)

lemma dedupe_key_inject:
  "dedupe_key e = dedupe_key f \<Longrightarrow> ce_actor e = ce_actor f \<and> ce_idempotency_key e = ce_idempotency_key f"
  using framed_inject [of "ce_idempotency_key e" "[]" "ce_idempotency_key f" "[]"]
  by (auto simp: dedupe_key_def dest!: actor_scope_inject)

definition pending_ids :: "session_id \<Rightarrow> queue_entry list \<Rightarrow> queue_entry_id set" where
  "pending_ids sid entries = qe_id ` set (filter (\<lambda>e. qe_session_id e = sid \<and> is_pending (qe_state e)) entries)"

lemma reorder_entry_check_ok:
  assumes "distinct (map qe_id entries)"
  shows "reorder_entry_check sid entries False i = Inr u \<longleftrightarrow> i \<in> pending_ids sid entries"
proof (cases "i \<in> qe_id ` set entries")
  case True
  then obtain e where e: "find (\<lambda>c. qe_id c = i) entries = Some e"
    using find_by_key_exists [of i qe_id] by blast
  with assms have "e \<in> set entries \<and> qe_id e = i"
    by (rule find_by_key [THEN iffD1])
  moreover from this assms have "e' = e" if "e' \<in> set entries" "qe_id e' = i" for e'
    using that inj_onD [of qe_id "set entries" e' e] by (simp add: distinct_map)
  ultimately show ?thesis
    by (auto simp: reorder_entry_check_def e pending_ids_def)
next
  case False
  then have "find (\<lambda>c. qe_id c = i) entries = None"
    by (auto simp: find_None_iff)
  with False show ?thesis
    by (auto simp: reorder_entry_check_def pending_ids_def)
qed

lemma validate_queue_reorder_ok:
  assumes "distinct (map qe_id entries)"
  shows "validate_queue_reorder sid order entries = Inr u \<longleftrightarrow>
    distinct order \<and> set order = pending_ids sid entries"
proof -
  have "reorder_entry_check sid entries True i \<noteq> ok" for i
    by (simp add: reorder_entry_check_def)
  note for_seen_ok [of "reorder_entry_check sid entries" id "[]" order, OF this]
  with assms have "validate_queue_reorder sid order entries = Inr u \<longleftrightarrow>
      distinct order \<and> set order \<subseteq> pending_ids sid entries
      \<and> \<not> list_ex (\<lambda>e. qe_session_id e = sid \<and> is_pending (qe_state e) \<and> qe_id e \<notin> set order) entries"
    by (auto simp: validate_queue_reorder_def reorder_entry_check_ok)
  also have "\<dots> \<longleftrightarrow> distinct order \<and> set order = pending_ids sid entries"
    by (auto simp: list_ex_iff pending_ids_def)
  finally show ?thesis .
qed

lemma reorderable_entries_accepted:
  assumes "distinct (map qe_id entries)" and "\<forall>e \<in> set entries. qe_session_id e = sid"
  shows "validate_queue_reorder sid (reorderable_entries entries) entries = ok"
proof -
  have "distinct (map qe_id (sort_key qe_position (filter (\<lambda>e. is_pending (qe_state e)) entries)))"
    using assms(1) by (auto simp: distinct_map inj_on_def)
  moreover have "set (reorderable_entries entries) = pending_ids sid entries"
    using assms(2) by (auto simp: reorderable_entries_def pending_ids_def)
  ultimately show ?thesis
    using assms(1) by (simp add: validate_queue_reorder_ok reorderable_entries_def)
qed

section \<open>Properties\<close>

text \<open>
  C12: the idempotency scope is exact. Two envelopes have the same key exactly when they have the
  same actor and the same client key, whatever bytes the device, workflow and key strings contain.
\<close>

theorem dedupe_key_exact:
  "dedupe_key e = dedupe_key f \<longleftrightarrow> ce_actor e = ce_actor f \<and> ce_idempotency_key e = ce_idempotency_key f"
  using dedupe_key_inject [of e f] by (auto simp: dedupe_key_def)

definition sample_entry :: "queue_entry_id \<Rightarrow> nat \<Rightarrow> queue_state \<Rightarrow> queue_entry" where
  "sample_entry i n state = \<lparr>qe_id = i, qe_session_id = ''ses_1'', qe_position = of_nat n,
     qe_intent = NewTurn, qe_body = sample_ref, qe_state = state, qe_editable = False,
     qe_created_at_ms = 1, qe_updated_at_ms = 1\<rparr>"

text \<open>
  C13: over a queue with distinct identifiers, a reorder is accepted exactly when the order lists the
  session's pending entries, all of them, once each; and the order the broker itself would compute
  for a one-session queue is accepted.
\<close>

theorem queue_reorder_exact:
  assumes "distinct (map qe_id entries)"
  shows "(validate_queue_reorder sid order entries = ok \<longleftrightarrow>
      distinct order \<and> set order = pending_ids sid entries)
    \<and> ((\<forall>e \<in> set entries. qe_session_id e = sid) \<longrightarrow>
        validate_queue_reorder sid (reorderable_entries entries) entries = ok)"
  using assms by (simp add: validate_queue_reorder_ok reorderable_entries_accepted)

theorem queue_reorder_exact_witness:
  "validate_queue_reorder ''ses_1'' [''b'', ''a'']
     [sample_entry ''a'' 0 Queue_Pending, sample_entry ''b'' 1 Queue_Pending,
      sample_entry ''c'' 2 (Submitting ''cmd_1'')] = ok"
proof -
  let ?q = "[sample_entry ''a'' 0 Queue_Pending, sample_entry ''b'' 1 Queue_Pending,
      sample_entry ''c'' 2 (Submitting ''cmd_1'')]"
  have "distinct (map qe_id ?q)" "pending_ids ''ses_1'' ?q = {''a'', ''b''}"
    by (simp_all add: sample_entry_def pending_ids_def is_pending_def)
  then show ?thesis
    using queue_reorder_exact [of ?q "''ses_1''" "[''b'', ''a'']"] by auto
qed



end
