(* ===== verification/Effect.thy ===== *)
theory Effect
  imports Command_Queue
begin

text \<open>
  State effects, cursors, log records and snapshots (\<open>effect.rs\<close>). A locale states what a
  cursor sequence is and proves once, for every such check in the code, that a loop over
  adjacent records accepts exactly the runs of one stream without a gap or a repetition.
\<close>

section \<open>Effects, cursors and log records\<close>

datatype diagnostic_code =
  UnknownUpstreamMessage | UnknownUpstreamLabel | PointerResolutionFailed | JoinDeferred
| JoinFailed | BackpressureCoalesced | MalformedProviderMessage

record diagnostic_record =
  dr_runtime_id :: "provider_runtime_id option"
  dr_session_id :: "session_id option"
  dr_code :: diagnostic_code
  dr_count :: u64
  dr_first_at_ms :: i64
  dr_last_at_ms :: i64
  dr_detail_ref :: "content_ref option"

datatype state_effect =
  HostUpserted host
| RuntimeUpserted provider_runtime
| CapabilitiesUpdated runtime_capabilities
| ProjectUpserted project
| SessionUpserted session
| SessionStatusChanged session_id session_status
| TurnUpserted turn
| ItemUpserted item
| QueueEntryUpserted queue_entry
| QueueReordered session_id "queue_entry_id list"
| AttentionUpserted attention_item
| WorkflowUpserted workflow
| StepUpserted step
| ArtifactUpserted artifact
| CommandAcknowledged command_ack
| DiagnosticRecorded diagnostic_record

datatype stream_key =
  Stream_Host host_id | Stream_Project project_id | Stream_Session session_id
| Stream_Workflow workflow_id

datatype projection_key =
  Key_ProjectIndex host_id | Key_SessionIndex project_id | Key_Transcript session_id
| Key_LiveActivity session_id | Key_InputQueue session_id | Key_AttentionInbox host_id
| Key_WorkflowBoard workflow_id | Key_RuntimeCapability host_id provider_runtime_id

datatype cursor = Cursor (cur_seq: u64)

text \<open>\<open>derive(PartialOrd, Ord)\<close> on the one-field struct.\<close>

instantiation cursor :: linorder
begin

definition less_eq_cursor :: "cursor \<Rightarrow> cursor \<Rightarrow> bool" where
  "less_eq_cursor a b \<longleftrightarrow> cur_seq a \<le> cur_seq b"

definition less_cursor :: "cursor \<Rightarrow> cursor \<Rightarrow> bool" where
  "less_cursor a b \<longleftrightarrow> cur_seq a < cur_seq b"

instance
  by standard (auto simp: less_eq_cursor_def less_cursor_def intro: cursor.expand)

end

definition START :: cursor where "START = Cursor 0"

definition cursor_next :: "cursor \<Rightarrow> (contract_violation, cursor) result" where
  "cursor_next c = ok_or (map_option Cursor (checked_add (cur_seq c) 1)) CursorOverflow"

definition follows :: "cursor \<Rightarrow> cursor \<Rightarrow> bool" where
  "follows c previous = (case cursor_next previous of Inl _ \<Rightarrow> False | Inr expected \<Rightarrow> c = expected)"

record log_record =
  lr_cursor :: cursor
  lr_stream :: stream_key
  lr_appended_at_ms :: i64
  lr_effect :: state_effect

section \<open>Contiguity\<close>

text \<open>A loop that keeps the previous element and checks each adjacent pair.\<close>

fun for_adjacent :: "('a \<Rightarrow> 'a \<Rightarrow> 'e check) \<Rightarrow> 'a option \<Rightarrow> 'a list \<Rightarrow> 'e check" where
  "for_adjacent body previous [] = ok"
| "for_adjacent body None (x # xs) = for_adjacent body (Some x) xs"
| "for_adjacent body (Some p) (x # xs) =
     (case body p x of Inl e \<Rightarrow> Inl e | Inr _ \<Rightarrow> for_adjacent body (Some x) xs)"

definition contiguous_pair :: "log_record \<Rightarrow> log_record \<Rightarrow> ccheck" where
  "contiguous_pair prev record =
     (if lr_stream prev \<noteq> lr_stream record then Inl MixedStreams
      else and_then (cursor_next (lr_cursor prev)) (\<lambda>expected. run_checks
        [reject_if (lr_cursor record = lr_cursor prev) (CursorRepeated (cur_seq (lr_cursor record))),
         reject_if (lr_cursor record \<noteq> expected)
           (CursorGap (cur_seq expected) (cur_seq (lr_cursor record)))]))"

definition verify_contiguous :: "log_record list \<Rightarrow> ccheck" where
  "verify_contiguous records = for_adjacent contiguous_pair None records"

section \<open>Snapshots\<close>

record host_snapshot =
  hn_host :: host
  hn_runtimes :: "provider_runtime list"
  hn_projects :: "project list"

record project_snapshot =
  pn_project :: project
  pn_sessions :: "session list"
  pn_workflows :: "workflow list"
  pn_attention :: "attention_item list"

record session_snapshot =
  sn_session :: session
  sn_turns :: "turn list"
  sn_items :: "item list"
  sn_queue :: "queue_entry list"
  sn_attention :: "attention_item list"
  sn_capabilities :: runtime_capabilities

record workflow_snapshot =
  wn_workflow :: workflow
  wn_steps :: "step list"
  wn_artifacts :: "artifact list"
  wn_attention :: "attention_item list"

datatype snapshot_payload =
  Payload_Host host_snapshot | Payload_Project project_snapshot
| Payload_Session session_snapshot | Payload_Workflow workflow_snapshot

record snapshot_envelope =
  sv_stream :: stream_key
  sv_cursor :: cursor
  sv_payload :: snapshot_payload

section \<open>Validation of effects\<close>

definition diagnostic_validate :: "diagnostic_record \<Rightarrow> ccheck" where
  "diagnostic_validate d = run_checks
     [when_some (\<lambda>i. require_id i ''diagnostic.runtime_id'') (dr_runtime_id d),
      when_some (\<lambda>i. require_id i ''diagnostic.session_id'') (dr_session_id d),
      when_some (ensure_sensitive ''diagnostic.detail_ref'') (dr_detail_ref d)]"

fun validate_for_log :: "state_effect \<Rightarrow> ccheck" where
  "validate_for_log (HostUpserted host) = host_validate host"
| "validate_for_log (RuntimeUpserted runtime) = runtime_validate runtime"
| "validate_for_log (CapabilitiesUpdated caps) = capabilities_validate caps"
| "validate_for_log (ProjectUpserted project) = project_validate project"
| "validate_for_log (SessionUpserted session) = session_validate_shape session"
| "validate_for_log (SessionStatusChanged session_id _) =
     require_id session_id ''session_status_changed.session_id''"
| "validate_for_log (TurnUpserted turn) = turn_validate turn"
| "validate_for_log (ItemUpserted item) = item_validate item"
| "validate_for_log (QueueEntryUpserted entry) = queue_entry_validate entry"
| "validate_for_log (QueueReordered session_id order) = run_checks
     [require_id session_id ''queue_reordered.session_id'',
      reject_if (list_ex (\<lambda>i. i = []) order) (EmptyIdentifier ''queue_reordered.order''),
      for_seen id (\<lambda>seen _. reject_if seen QueueReorderDuplicate) [] order]"
| "validate_for_log (AttentionUpserted item) = attention_validate item"
| "validate_for_log (WorkflowUpserted workflow) = workflow_validate workflow"
| "validate_for_log (StepUpserted step) = step_validate step"
| "validate_for_log (ArtifactUpserted artifact) = artifact_validate artifact"
| "validate_for_log (CommandAcknowledged ack) = command_ack_validate ack"
| "validate_for_log (DiagnosticRecorded diagnostic) = diagnostic_validate diagnostic"

section \<open>Validation of snapshots\<close>

definition dangling_unless :: "bool \<Rightarrow> string \<Rightarrow> ccheck" where
  "dangling_unless b field = reject_if (\<not> b) (DanglingReference field)"

definition host_snapshot_validate :: "host_snapshot \<Rightarrow> ccheck" where
  "host_snapshot_validate n = run_checks
     [host_validate (hn_host n),
      for_each (\<lambda>r. run_checks
        [runtime_validate r,
         dangling_unless (rt_host_id r = ho_id (hn_host n)) ''host_snapshot.runtimes.host_id''])
        (hn_runtimes n),
      for_each (\<lambda>p. run_checks
        [project_validate p,
         for_each (\<lambda>b. dangling_unless (list_ex (\<lambda>r. rt_id r = pb_runtime_id b) (hn_runtimes n))
           ''host_snapshot.projects.bindings.runtime_id'') (pj_bindings p)])
        (hn_projects n)]"

definition project_snapshot_validate :: "project_snapshot \<Rightarrow> ccheck" where
  "project_snapshot_validate n = run_checks
     [project_validate (pn_project n),
      for_each (\<lambda>s. run_checks
        [session_validate_shape s,
         dangling_unless (se_project_id s = pj_id (pn_project n)) ''project_snapshot.sessions.project_id'',
         dangling_unless (list_ex (\<lambda>b. pb_id b = se_project_binding_id s) (pj_bindings (pn_project n)))
           ''project_snapshot.sessions.project_binding_id''])
        (pn_sessions n),
      for_each (\<lambda>w. run_checks
        [workflow_validate w,
         dangling_unless (wf_project_id w = pj_id (pn_project n)) ''project_snapshot.workflows.project_id''])
        (pn_workflows n),
      for_each (\<lambda>a. run_checks
        [attention_validate a,
         dangling_unless (at_project_id a = pj_id (pn_project n)) ''project_snapshot.attention.project_id'',
         when_some (\<lambda>i. dangling_unless (list_ex (\<lambda>s. se_id s = i) (pn_sessions n))
           ''project_snapshot.attention.session_id'') (at_session_id a),
         when_some (\<lambda>i. dangling_unless (list_ex (\<lambda>w. wf_id w = i) (pn_workflows n))
           ''project_snapshot.attention.workflow_id'') (at_workflow_id a)])
        (pn_attention n)]"

definition snapshot_turn_check :: "session_snapshot \<Rightarrow> bool \<Rightarrow> turn \<Rightarrow> ccheck" where
  "snapshot_turn_check n seen t = run_checks
     [turn_validate t,
      dangling_unless (\<not> seen) ''session_snapshot.turns.id'',
      dangling_unless (tu_session_id t = se_id (sn_session n)) ''session_snapshot.turns.session_id'',
      for_each (\<lambda>i. dangling_unless (list_ex (\<lambda>x. it_id x = i \<and> it_turn_id x = tu_id t) (sn_items n))
        ''session_snapshot.turns.item_ids'') (tu_item_ids t),
      when_some (\<lambda>h. dangling_unless (bh_runtime_id h = rc_runtime_id (sn_capabilities n))
        ''session_snapshot.turns.binding_handle.runtime_id'') (tu_binding_handle t)]"

definition snapshot_item_check :: "session_snapshot \<Rightarrow> bool \<Rightarrow> item \<Rightarrow> ccheck" where
  "snapshot_item_check n seen i = run_checks
     [item_validate i,
      dangling_unless (\<not> seen) ''session_snapshot.items.id'',
      dangling_unless (it_session_id i = se_id (sn_session n)
          \<and> list_ex (\<lambda>t. tu_id t = it_turn_id i \<and> it_id i \<in> set (tu_item_ids t)) (sn_turns n))
        ''session_snapshot.items.turn_id'',
      when_some (\<lambda>h. dangling_unless (bh_runtime_id h = rc_runtime_id (sn_capabilities n))
        ''session_snapshot.items.binding_handle.runtime_id'') (it_binding_handle i)]"

definition snapshot_queue_check :: "session_snapshot \<Rightarrow> bool \<Rightarrow> queue_entry \<Rightarrow> ccheck" where
  "snapshot_queue_check n seen e = run_checks
     [queue_entry_validate e,
      dangling_unless (\<not> seen) ''session_snapshot.queue.id'',
      dangling_unless (qe_session_id e = se_id (sn_session n)) ''session_snapshot.queue.session_id'',
      (case qe_state e of
         DeliveredAsNewTurn turn_id _ \<Rightarrow>
           dangling_unless (list_ex (\<lambda>t. tu_id t = turn_id) (sn_turns n)) ''session_snapshot.queue.turn_id''
       | DeliveredAsSteer _ _ _ _ _ \<Rightarrow>
           and_then (ok_or (se_active_turn_id (sn_session n))
               (DanglingReference ''session_snapshot.queue.active_turn_id''))
             (\<lambda>active. validate_for_active_turn e active (sn_capabilities n))
       | _ \<Rightarrow> ok)]"

definition snapshot_positions_check :: "queue_entry list \<Rightarrow> ccheck" where
  "snapshot_positions_check queue =
     (let pending = sort_key qe_position (filter (\<lambda>e. is_pending (qe_state e)) queue)
      in for_each (\<lambda>(expected, e). dangling_unless (qe_position e = of_nat expected)
           ''session_snapshot.queue.position'') (zip [0..<length pending] pending))"

definition snapshot_attention_check :: "session_snapshot \<Rightarrow> bool \<Rightarrow> attention_item \<Rightarrow> ccheck" where
  "snapshot_attention_check n seen a = run_checks
     [attention_validate a,
      dangling_unless (\<not> seen) ''session_snapshot.attention.id'',
      dangling_unless (at_session_id a = Some (se_id (sn_session n))) ''session_snapshot.attention.session_id'',
      dangling_unless (at_project_id a = se_project_id (sn_session n)) ''session_snapshot.attention.project_id'',
      when_some (\<lambda>i. dangling_unless (list_ex (\<lambda>t. tu_id t = i) (sn_turns n))
        ''session_snapshot.attention.turn_id'') (at_turn_id a),
      (case at_subject a of
         Approval request \<Rightarrow>
           (case ap_join request of
              Joined item_id \<Rightarrow> dangling_unless
                (list_ex (\<lambda>i. it_id i = item_id \<and> Some (it_turn_id i) = at_turn_id a
                    \<and> it_session_id i = se_id (sn_session n)) (sn_items n))
                ''session_snapshot.attention.approval.join''
            | Unjoined _ \<Rightarrow> ok)
       | _ \<Rightarrow> ok)]"

definition session_snapshot_validate :: "session_snapshot \<Rightarrow> ccheck" where
  "session_snapshot_validate n = run_checks
     [capabilities_validate (sn_capabilities n),
      session_validate (sn_session n) (sn_capabilities n),
      when_some (\<lambda>h. dangling_unless (bh_runtime_id h = rc_runtime_id (sn_capabilities n))
        ''session_snapshot.session.binding_handle.runtime_id'') (se_binding_handle (sn_session n)),
      when_some (\<lambda>active. dangling_unless (list_ex (\<lambda>t. tu_id t = active) (sn_turns n))
        ''session_snapshot.session.active_turn_id'') (se_active_turn_id (sn_session n)),
      for_seen tu_id (snapshot_turn_check n) [] (sn_turns n),
      for_seen it_id (snapshot_item_check n) [] (sn_items n),
      for_seen qe_id (snapshot_queue_check n) [] (sn_queue n),
      snapshot_positions_check (sn_queue n),
      for_seen at_id (snapshot_attention_check n) [] (sn_attention n)]"

definition snapshot_step_check :: "workflow_snapshot \<Rightarrow> step \<Rightarrow> ccheck" where
  "snapshot_step_check n s = run_checks
     [step_validate s,
      dangling_unless (st_workflow_id s = wf_id (wn_workflow n)
          \<and> st_id s \<in> set (wf_step_ids (wn_workflow n))) ''workflow_snapshot.steps.workflow_id'',
      for_each (\<lambda>d. dangling_unless (list_ex (\<lambda>c. st_id c = d) (wn_steps n))
        ''workflow_snapshot.steps.depends_on'') (st_depends_on s),
      for_each (\<lambda>i. dangling_unless (list_ex (\<lambda>a. ar_id a = i) (wn_artifacts n))
        ''workflow_snapshot.steps.artifacts'') (st_inputs s @ st_outputs s),
      when_some (\<lambda>i. dangling_unless (list_ex (\<lambda>a. at_id a = i) (wn_attention n))
        ''workflow_snapshot.steps.human_gate'') (st_human_gate s)]"

definition workflow_snapshot_validate :: "workflow_snapshot \<Rightarrow> ccheck" where
  "workflow_snapshot_validate n = run_checks
     [workflow_validate (wn_workflow n),
      for_each (\<lambda>i. dangling_unless (list_ex (\<lambda>s. st_id s = i) (wn_steps n))
        ''workflow_snapshot.workflow.step_ids'') (wf_step_ids (wn_workflow n)),
      for_each (snapshot_step_check n) (wn_steps n),
      for_each (\<lambda>a. run_checks
        [artifact_validate a,
         dangling_unless (ar_workflow_id a = wf_id (wn_workflow n)) ''workflow_snapshot.artifacts.workflow_id'',
         when_some (\<lambda>i. dangling_unless (list_ex (\<lambda>s. st_id s = i) (wn_steps n))
           ''workflow_snapshot.artifacts.produced_by'') (ar_produced_by a)])
        (wn_artifacts n),
      for_each (\<lambda>a. run_checks
        [attention_validate a,
         dangling_unless (at_project_id a = wf_project_id (wn_workflow n))
           ''workflow_snapshot.attention.project_id'',
         dangling_unless (at_workflow_id a = Some (wf_id (wn_workflow n)))
           ''workflow_snapshot.attention.workflow_id'',
         (case at_subject a of
            WorkflowGate request \<Rightarrow> dangling_unless (list_ex (\<lambda>s. st_id s = wg_step_id request) (wn_steps n))
              ''workflow_snapshot.attention.step_id''
          | _ \<Rightarrow> ok)])
        (wn_attention n)]"

fun snapshot_envelope_check :: "stream_key \<Rightarrow> snapshot_payload \<Rightarrow> ccheck" where
  "snapshot_envelope_check (Stream_Host i) (Payload_Host n) =
     (if i = ho_id (hn_host n) then host_snapshot_validate n else Inl SnapshotStreamMismatch)"
| "snapshot_envelope_check (Stream_Project i) (Payload_Project n) =
     (if i = pj_id (pn_project n) then project_snapshot_validate n else Inl SnapshotStreamMismatch)"
| "snapshot_envelope_check (Stream_Session i) (Payload_Session n) =
     (if i = se_id (sn_session n) then session_snapshot_validate n else Inl SnapshotStreamMismatch)"
| "snapshot_envelope_check (Stream_Workflow i) (Payload_Workflow n) =
     (if i = wf_id (wn_workflow n) then workflow_snapshot_validate n else Inl SnapshotStreamMismatch)"
| "snapshot_envelope_check _ _ = Inl SnapshotStreamMismatch"

definition snapshot_envelope_validate :: "snapshot_envelope \<Rightarrow> ccheck" where
  "snapshot_envelope_validate v = snapshot_envelope_check (sv_stream v) (sv_payload v)"

definition validate_replay_window :: "snapshot_envelope \<Rightarrow> log_record list \<Rightarrow> ccheck" where
  "validate_replay_window snapshot records = run_checks
     [snapshot_envelope_validate snapshot,
      (case records of
         [] \<Rightarrow> ok
       | first # _ \<Rightarrow>
           (if lr_stream first \<noteq> sv_stream snapshot then Inl MixedStreams
            else and_then (cursor_next (sv_cursor snapshot)) (\<lambda>expected. run_checks
              [reject_if (lr_cursor first = sv_cursor snapshot) (CursorRepeated (cur_seq (lr_cursor first))),
               reject_if (lr_cursor first \<noteq> expected)
                 (CursorGap (cur_seq expected) (cur_seq (lr_cursor first))),
               verify_contiguous records,
               for_each (\<lambda>r. validate_for_log (lr_effect r)) records])))]"

section \<open>Cursor sequences\<close>

lemma cursor_next_ok: "cursor_next c = Inr d \<longleftrightarrow> unat (cur_seq d) = unat (cur_seq c) + 1"
proof -
  have "unat (cur_seq d) < 2 ^ 64"
    using unsigned_less [of "cur_seq d"] by simp
  then show ?thesis
    by (cases d) (auto simp: cursor_next_def ok_or_ok checked_add_Some word_unat_eq_iff unat_word_ariths)
qed

lemma follows_iff: "follows c p \<longleftrightarrow> unat (cur_seq c) = unat (cur_seq p) + 1"
  using cursor_next_ok [of p c] by (auto simp: follows_def split: sum.splits)

text \<open>
  What every sequence check of the code promises about one adjacent pair, and what the loop over
  pairs therefore accepts.
\<close>

locale cursor_sequence =
  fixes key :: "'r \<Rightarrow> 'k" and pos :: "'r \<Rightarrow> cursor" and pair :: "'r \<Rightarrow> 'r \<Rightarrow> contract_violation check"
  assumes pair_ok: "pair p r = ok \<longleftrightarrow> key r = key p \<and> unat (cur_seq (pos r)) = unat (cur_seq (pos p)) + 1"
begin

lemma adjacent_from:
  "for_adjacent pair (Some p) rs = ok \<longleftrightarrow>
     (\<forall>i < length rs. key (rs ! i) = key p \<and> unat (cur_seq (pos (rs ! i))) = unat (cur_seq (pos p)) + Suc i)"
proof (induction rs arbitrary: p)
  case Nil
  then show ?case by simp
next
  case (Cons r rs)
  have "for_adjacent pair (Some p) (r # rs) = ok \<longleftrightarrow> pair p r = ok \<and> for_adjacent pair (Some r) rs = ok"
    by (cases "pair p r") auto
  also have "\<dots> \<longleftrightarrow> (\<forall>i < length (r # rs). key ((r # rs) ! i) = key p
      \<and> unat (cur_seq (pos ((r # rs) ! i))) = unat (cur_seq (pos p)) + Suc i)"
    by (auto simp: pair_ok Cons.IH All_less_Suc2 simp del: One_nat_def)
  finally show ?case .
qed

lemma adjacent_ok:
  "for_adjacent pair None rs = ok \<longleftrightarrow>
     (\<forall>i < length rs. key (rs ! i) = key (hd rs) \<and> unat (cur_seq (pos (rs ! i))) = unat (cur_seq (pos (hd rs))) + i)"
  by (cases rs) (auto simp: adjacent_from All_less_Suc2)

lemma adjacent_strict:
  assumes "for_adjacent pair None rs = ok" and "i < j" "j < length rs"
  shows "pos (rs ! i) < pos (rs ! j)"
proof -
  from assms have "unat (cur_seq (pos (rs ! i))) < unat (cur_seq (pos (rs ! j)))"
    by (simp add: adjacent_ok)
  then show ?thesis
    by (simp add: less_cursor_def word_less_nat_alt)
qed

lemma adjacent_suffix:
  "for_adjacent pair None (rs @ ss) = ok \<Longrightarrow> for_adjacent pair None ss = ok"
proof (induction rs)
  case (Cons r rs)
  then show ?case
    by (cases "rs @ ss") (auto split: sum.splits)
qed simp

lemma adjacent_snoc_from:
  "for_adjacent pair (Some p) (rs @ [r]) = ok \<longleftrightarrow>
     for_adjacent pair (Some p) rs = ok \<and> pair (last (p # rs)) r = ok"
  by (induction rs arbitrary: p) (auto split: sum.splits)

lemma adjacent_snoc:
  "for_adjacent pair None (rs @ [r]) = ok \<longleftrightarrow>
     for_adjacent pair None rs = ok \<and> (rs \<noteq> [] \<longrightarrow> pair (last rs) r = ok)"
  using adjacent_snoc_from [of "hd rs" "tl rs" r] by (cases rs) auto

end

interpretation logseq: cursor_sequence lr_stream lr_cursor contiguous_pair
proof
  fix p r
  show "contiguous_pair p r = ok \<longleftrightarrow>
      lr_stream r = lr_stream p \<and> unat (cur_seq (lr_cursor r)) = unat (cur_seq (lr_cursor p)) + 1"
  proof (cases "cursor_next (lr_cursor p)")
    case (Inl e)
    then show ?thesis
      using cursor_next_ok [of "lr_cursor p" "lr_cursor r"] by (simp add: contiguous_pair_def)
  next
    case (Inr c)
    then show ?thesis
      using cursor_next_ok [of "lr_cursor p" "lr_cursor r"] by (auto simp: contiguous_pair_def)
  qed
qed

section \<open>Properties\<close>

text \<open>
  C7: the contiguity check accepts exactly the runs of one stream whose cursors step by one from
  the first record's cursor (without wrapping at the end of the 64-bit range), so an accepted run
  has strictly increasing cursors, and every suffix of it is accepted too.
\<close>

theorem verify_contiguous_exact:
  "(verify_contiguous rs = ok \<longleftrightarrow>
      (\<forall>i < length rs. lr_stream (rs ! i) = lr_stream (hd rs)
         \<and> unat (cur_seq (lr_cursor (rs ! i))) = unat (cur_seq (lr_cursor (hd rs))) + i))
   \<and> (verify_contiguous rs = ok \<longrightarrow>
        (\<forall>i j. i < j \<and> j < length rs \<longrightarrow> lr_cursor (rs ! i) < lr_cursor (rs ! j))
        \<and> (\<forall>n. verify_contiguous (drop n rs) = ok))"
proof (intro conjI impI allI)
  assume ok: "verify_contiguous rs = ok"
  show "lr_cursor (rs ! i) < lr_cursor (rs ! j)" if "i < j \<and> j < length rs" for i j
    using ok that logseq.adjacent_strict [of rs i j] by (simp add: verify_contiguous_def)
  show "verify_contiguous (drop n rs) = ok" for n
    using ok logseq.adjacent_suffix [of "take n rs" "drop n rs"] by (simp add: verify_contiguous_def)
qed (simp add: verify_contiguous_def logseq.adjacent_ok)

definition sample_record :: "nat \<Rightarrow> state_effect \<Rightarrow> log_record" where
  "sample_record n e = \<lparr>lr_cursor = Cursor (of_nat n), lr_stream = Stream_Host ''host_1'',
     lr_appended_at_ms = int n, lr_effect = e\<rparr>"

theorem verify_contiguous_exact_witness:
  "verify_contiguous [sample_record 3 (HostUpserted sample_host), sample_record 4 (HostUpserted sample_host)] = ok
   \<and> verify_contiguous [sample_record 4 (HostUpserted sample_host)] = ok"
proof -
  let ?rs = "[sample_record 3 (HostUpserted sample_host), sample_record 4 (HostUpserted sample_host)]"
  have "verify_contiguous ?rs = ok"
    by code_simp
  with verify_contiguous_exact [of ?rs] have "verify_contiguous (drop 1 ?rs) = ok"
    by blast
  with \<open>verify_contiguous ?rs = ok\<close> show ?thesis
    by simp
qed

lemma dangling_unless_ok [simp]: "dangling_unless b field = Inr u \<longleftrightarrow> b"
  by (simp add: dangling_unless_def)

lemma for_seen_member:
  "for_seen key body seen xs = Inr u \<Longrightarrow> x \<in> set xs \<Longrightarrow> \<exists>b. body b x = ok"
  by (induction xs arbitrary: seen) (auto split: sum.splits)


definition sample_snapshot :: session_snapshot where
  "sample_snapshot = \<lparr>sn_session = sample_session\<lparr>se_active_turn_id := Some ''trn_1''\<rparr>,
     sn_turns = [sample_turn\<lparr>tu_item_ids := [''itm_1'']\<rparr>], sn_items = [sample_item],
     sn_queue = [sample_entry ''q1'' 0 Queue_Pending, sample_entry ''q2'' 0 (DeliveredAsNewTurn ''trn_1'' 4)],
     sn_attention = [sample_question], sn_capabilities = sample_capabilities\<rparr>"


text \<open>
  Once a steer was delivered, the session's snapshot validates only while that very turn is still
  active: a session without an active turn cannot be snapshotted any more.
\<close>

lemma delivered_steer_blocks_snapshot:
  assumes "e \<in> set (sn_queue n)" "qe_state e = DeliveredAsSteer r t h at ack"
    and "se_active_turn_id (sn_session n) \<noteq> Some t"
  shows "session_snapshot_validate n \<noteq> ok"
proof
  assume "session_snapshot_validate n = ok"
  then have "for_seen qe_id (snapshot_queue_check n) [] (sn_queue n) = ok"
    by (simp add: session_snapshot_validate_def)
  from for_seen_member [OF this assms(1)] obtain b where "snapshot_queue_check n b e = ok"
    by blast
  with assms(2,3) show False
    by (cases "se_active_turn_id (sn_session n)")
       (auto simp: snapshot_queue_check_def validate_for_active_turn_def)
qed

end
