(* ===== verification/Canonical_State.thy ===== *)
theory Canonical_State
  imports Effect
begin

text \<open>
  The canonical state and the rules for changing it (\<open>kaleido-state/src/state.rs\<close>, with the
  errors of \<open>error.rs\<close>). One definition per branch of \<open>CanonicalState::apply\<close>, and the
  recomputation of the fields the store owns. On an error the source may leave the value it was
  called on half changed, but every caller applies an effect to a clone or stops, so the model
  returns either the error or the new state.
\<close>

section \<open>Errors\<close>

datatype (plugins only: code) state_error =
  State_Contract contract_violation
| State_Io string
| State_Codec
| UnknownSession session_id
| UnknownRuntime provider_runtime_id
| RuntimeHostChanged
| UnknownTurn turn_id
| UnknownHost
| UnknownHostId host_id
| UnknownWorkflow workflow_id
| AmbiguousScope string
| UnsupportedEffect string
| UnknownAttention attention_id
| ContentMissing content_id
| ContentDigestMismatch content_id
| ContentUnauthorized content_id
| ContentExpired content_id
| ContentMetadataMismatch content_id
| UnsafeContentId content_id
| InvalidContentOffset content_id u64
| TimestampOverflow
| InvalidProjectionRetention
| ProjectionJournalDiverged projection_key
| DispatchNotAvailable command_id
| DispatchNotAccepted command_id
| CommandOutboxDiverged
| RecoveryRequired
| DeviceCommandMismatch string
| UntrustedLocalAcknowledgement
| UncorrelatedRuntimeAcknowledgement
| RuntimeAcknowledgementWithoutRemoteTurn
| AmbiguousRuntimeAcknowledgement
| RuntimeAcknowledgementRuntimeMismatch
| DuplicateRuntimeAcknowledgement
| LiveControlCapabilityWithoutRuntimeAcceptance
| ControllingBindingWithoutRuntimeAcceptance
| RemoteCommandTurnConflict
| TurnSessionChanged
| TurnOriginChanged
| TurnBindingChanged
| LiveSessionWithoutRuntimeReference
| MalformedRecord string nat

section \<open>The state\<close>

record canonical_state =
  cs_hosts :: "(host_id, host) btree_map"
  cs_runtimes :: "(provider_runtime_id, provider_runtime) btree_map"
  cs_projects :: "(project_id, project) btree_map"
  cs_sessions :: "(session_id, session) btree_map"
  cs_reported_status :: "(session_id, session_status) btree_map"
  cs_turns :: "(turn_id, turn) btree_map"
  cs_turn_order :: "turn_id list"
  cs_items :: "(item_id, item) btree_map"
  cs_queue :: "(queue_entry_id, queue_entry) btree_map"
  cs_attention :: "(attention_id, attention_item) btree_map"
  cs_attention_order :: "attention_id list"
  cs_workflows :: "(workflow_id, workflow) btree_map"
  cs_steps :: "(step_id, step) btree_map"
  cs_artifacts :: "(artifact_id, artifact) btree_map"
  cs_diagnostics :: "(string, diagnostic_record) btree_map"
  cs_acks :: "command_ack list"

definition state_default :: canonical_state where
  "state_default = \<lparr>cs_hosts = [], cs_runtimes = [], cs_projects = [], cs_sessions = [],
     cs_reported_status = [], cs_turns = [], cs_turn_order = [], cs_items = [], cs_queue = [],
     cs_attention = [], cs_attention_order = [], cs_workflows = [], cs_steps = [], cs_artifacts = [],
     cs_diagnostics = [], cs_acks = []\<rparr>"

type_synonym 'a state_result = "(state_error, 'a) result"

section \<open>Queries\<close>

definition attention_entries :: "canonical_state \<Rightarrow> attention_item list" where
  "attention_entries s = List.map_filter (bt_get (cs_attention s)) (cs_attention_order s)"

definition steps_of :: "canonical_state \<Rightarrow> workflow_id \<Rightarrow> step list" where
  "steps_of s wid = filter (\<lambda>x. st_workflow_id x = wid) (bt_values (cs_steps s))"

definition artifacts_of :: "canonical_state \<Rightarrow> workflow_id \<Rightarrow> artifact list" where
  "artifacts_of s wid = filter (\<lambda>x. ar_workflow_id x = wid) (bt_values (cs_artifacts s))"

fun enqueued_entry :: "command_outcome \<Rightarrow> queue_entry_id option" where
  "enqueued_entry (Enqueued i) = Some i"
| "enqueued_entry _ = None"

definition queue_command_id :: "canonical_state \<Rightarrow> queue_entry_id \<Rightarrow> command_id option" where
  "queue_command_id s entry_id =
     map_option ack_command_id (find (\<lambda>a. enqueued_entry (ack_outcome a) = Some entry_id) (cs_acks s))"

definition turns_of :: "canonical_state \<Rightarrow> session_id \<Rightarrow> turn list" where
  "turns_of s sid = filter (\<lambda>t. tu_session_id t = sid)
     (List.map_filter (bt_get (cs_turns s)) (cs_turn_order s))"

definition items_of :: "canonical_state \<Rightarrow> session_id \<Rightarrow> item list" where
  "items_of s sid = sort_key it_sequence (filter (\<lambda>i. it_session_id i = sid) (bt_values (cs_items s)))"

definition queue_of :: "canonical_state \<Rightarrow> session_id \<Rightarrow> queue_entry list" where
  "queue_of s sid = sort_key qe_position (filter (\<lambda>e. qe_session_id e = sid) (bt_values (cs_queue s)))"

definition attention_of :: "canonical_state \<Rightarrow> session_id \<Rightarrow> attention_item list" where
  "attention_of s sid = filter (\<lambda>a. at_session_id a = Some sid) (attention_entries s)"

definition attention_is_answered :: "canonical_state \<Rightarrow> attention_id \<Rightarrow> bool" where
  "attention_is_answered s i = is_some_and
     (\<lambda>a. case at_state a of Answered _ _ _ _ _ \<Rightarrow> True | _ \<Rightarrow> False) (bt_get (cs_attention s) i)"

definition runtime_of :: "canonical_state \<Rightarrow> session \<Rightarrow> provider_runtime option" where
  "runtime_of s session =
     Option.bind
       (opt_or (map_option bh_runtime_id (se_binding_handle session))
         (opt_or (hs_runtime_id (se_history_source session))
           (Option.bind (bt_get (cs_projects s) (se_project_id session)) (\<lambda>p.
             map_option pb_runtime_id
               (find (\<lambda>b. pb_id b = se_project_binding_id session) (pj_bindings p))))))
       (bt_get (cs_runtimes s))"

definition capabilities_of :: "canonical_state \<Rightarrow> session \<Rightarrow> runtime_capabilities option" where
  "capabilities_of s session = map_option rt_capabilities (runtime_of s session)"

definition live_runtime_of :: "canonical_state \<Rightarrow> session \<Rightarrow> provider_runtime state_result" where
  "live_runtime_of s session =
     and_then (ok_or (opt_or (map_option bh_runtime_id (se_binding_handle session))
                        (hs_runtime_id (se_history_source session))) LiveSessionWithoutRuntimeReference)
       (\<lambda>rid. ok_or (bt_get (cs_runtimes s) rid) (UnknownRuntime rid))"

definition build_session_snapshot :: "canonical_state \<Rightarrow> session_id \<Rightarrow> session_snapshot state_result" where
  "build_session_snapshot s sid =
     and_then (ok_or (bt_get (cs_sessions s) sid) (UnknownSession sid)) (\<lambda>session.
     and_then (ok_or (capabilities_of s session) (UnknownRuntime
         (case se_binding_handle session of Some h \<Rightarrow> bh_runtime_id h | None \<Rightarrow> ''unbound''))) (\<lambda>caps.
     let snapshot = \<lparr>sn_session = session, sn_turns = turns_of s sid, sn_items = items_of s sid,
       sn_queue = queue_of s sid, sn_attention = attention_of s sid, sn_capabilities = caps\<rparr>
     in and_then (map_err State_Contract (session_snapshot_validate snapshot)) (\<lambda>_. Inr snapshot)))"

section \<open>Content references reachable from the state\<close>

definition session_notes :: "session \<Rightarrow> content_ref list" where
  "session_notes x = opt_list (ev_note_ref (hs_evidence (se_history_source x))) @
     (case se_live_binding x of
        Observing _ _ e \<Rightarrow> opt_list (ev_note_ref e)
      | Controlling _ _ e \<Rightarrow> opt_list (ev_note_ref e)
      | _ \<Rightarrow> [])"

fun outcome_refs :: "command_outcome \<Rightarrow> content_ref list" where
  "outcome_refs (AcceptedLocally note) = opt_list note"
| "outcome_refs (Outcome_Rejected e) = opt_list (ce_detail_ref e)"
| "outcome_refs _ = []"

definition content_refs :: "canonical_state \<Rightarrow> content_ref list" where
  "content_refs s =
     concat (map (\<lambda>r. concat (map (\<lambda>e. opt_list (ev_note_ref (cap_evidence e)))
       (rc_entries (rt_capabilities r)))) (bt_values (cs_runtimes s)))
     @ concat (map (\<lambda>p. map pb_root_ref (pj_bindings p)) (bt_values (cs_projects s)))
     @ concat (map session_notes (bt_values (cs_sessions s)))
     @ concat (map (\<lambda>t. concat (map (\<lambda>e. opt_list (ce_detail_ref e)) (opt_list (tu_error t))))
         (bt_values (cs_turns s)))
     @ concat (map item_content_refs (bt_values (cs_items s)))
     @ map qe_body (bt_values (cs_queue s))
     @ concat (map attention_content_refs (bt_values (cs_attention s)))
     @ concat (map (\<lambda>x. sa_worktree_ref (st_assignment x)
         # concat (map (\<lambda>tr. opt_list (sx_reason_ref tr)) (st_audit x))) (bt_values (cs_steps s)))
     @ map ar_content (bt_values (cs_artifacts s))
     @ concat (map (\<lambda>d. opt_list (dr_detail_ref d)) (bt_values (cs_diagnostics s)))
     @ concat (map (\<lambda>a. outcome_refs (ack_outcome a)) (cs_acks s))"

definition state_content_ref :: "canonical_state \<Rightarrow> content_id \<Rightarrow> content_ref option" where
  "state_content_ref s cid = find (\<lambda>r. cr_content_id r = cid) (content_refs s)"

section \<open>Correlation of acknowledgements\<close>

fun accepted_outcome :: "command_outcome \<Rightarrow> (session_id \<times> provider_binding_handle) option" where
  "accepted_outcome (AcceptedByRuntime sid _ h) = Some (sid, h)"
| "accepted_outcome _ = None"

definition accepted_runtime_session ::
  "canonical_state \<Rightarrow> command_ack \<Rightarrow> provider_runtime_id \<Rightarrow> session option" where
  "accepted_runtime_session s ack rid =
     (case accepted_outcome (ack_outcome ack) of
        None \<Rightarrow> None
      | Some (sid, h) \<Rightarrow>
          (if bh_runtime_id h \<noteq> rid then None
           else Option.bind (bt_get (cs_sessions s) sid) (\<lambda>session.
             if is_some_and (\<lambda>r. rt_id r = rid) (runtime_of s session) then Some session else None)))"

definition has_runtime_acceptance_for :: "canonical_state \<Rightarrow> provider_runtime_id \<Rightarrow> bool" where
  "has_runtime_acceptance_for s rid =
     list_ex (\<lambda>ack. accepted_runtime_session s ack rid \<noteq> None) (cs_acks s)"

definition remote_turns :: "canonical_state \<Rightarrow> command_id \<Rightarrow> turn list" where
  "remote_turns s cid = filter (\<lambda>t. tu_origin t = RemoteCommand cid) (bt_values (cs_turns s))"

definition remote_command_turn :: "canonical_state \<Rightarrow> command_id \<Rightarrow> turn state_result" where
  "remote_command_turn s cid =
     (case remote_turns s cid of
        [] \<Rightarrow> Inl RuntimeAcknowledgementWithoutRemoteTurn
      | [t] \<Rightarrow> Inr t
      | _ \<Rightarrow> Inl AmbiguousRuntimeAcknowledgement)"

section \<open>Derived fields\<close>

definition last_activity_of :: "canonical_state \<Rightarrow> session_id \<Rightarrow> i64" where
  "last_activity_of s sid =
     (let latest = i64_MIN;
          latest = fold (\<lambda>i m. if it_session_id i = sid then max m (it_updated_at_ms i) else m)
            (bt_values (cs_items s)) latest;
          latest = fold (\<lambda>t m. if tu_session_id t = sid
              then max (max m (case tu_completed_at_ms t of Some x \<Rightarrow> x | None \<Rightarrow> i64_MIN))
                (case tu_started_at_ms t of Some x \<Rightarrow> x | None \<Rightarrow> i64_MIN)
              else m) (bt_values (cs_turns s)) latest;
          latest = fold (\<lambda>e m. if qe_session_id e = sid then max m (qe_updated_at_ms e) else m)
            (bt_values (cs_queue s)) latest
      in fold (\<lambda>a m. if at_session_id a = Some sid then max m (at_created_at_ms a) else m)
           (bt_values (cs_attention s)) latest)"

definition active_turn_of :: "canonical_state \<Rightarrow> session_id \<Rightarrow> turn_id option" where
  "active_turn_of s sid =
     (case filter (\<lambda>t. \<not> turn_is_terminal (tu_status t)) (turns_of s sid) of
        [] \<Rightarrow> None
      | ts \<Rightarrow> Some (tu_id (last ts)))"

definition open_attention_of :: "canonical_state \<Rightarrow> session_id \<Rightarrow> attention_item list" where
  "open_attention_of s sid = filter (\<lambda>a. at_session_id a = Some sid \<and> attention_is_open (at_state a))
     (bt_values (cs_attention s))"

fun is_approval :: "attention_subject \<Rightarrow> bool" where
  "is_approval (Approval _) = True"
| "is_approval _ = False"

fun is_question :: "attention_subject \<Rightarrow> bool" where
  "is_question (Question _) = True"
| "is_question _ = False"

definition terminal_status :: "session_status option \<Rightarrow> session_status option" where
  "terminal_status reported =
     (case reported of
        Some st \<Rightarrow> (if st \<in> {Session_Failed, Session_Completed, Session_Cancelled} then Some st else None)
      | None \<Rightarrow> None)"

definition derive_session :: "canonical_state \<Rightarrow> session_id \<Rightarrow> session \<Rightarrow> session" where
  "derive_session s sid session =
     (let active_turn_id = active_turn_of s sid;
          open_attention = open_attention_of s sid;
          open_approval = list_ex (\<lambda>a. is_approval (at_subject a)) open_attention;
          open_question = list_ex (\<lambda>a. is_question (at_subject a)) open_attention;
          open_attention_count = u32_of_count (length open_attention);
          pending_queue_entries = u32_of_count (length
            (filter (\<lambda>e. qe_session_id e = sid \<and> is_pending (qe_state e)) (bt_values (cs_queue s))));
          reported = bt_get (cs_reported_status s) sid;
          last_activity_at_ms = last_activity_of s sid;
          runtime_usable = is_some_and (\<lambda>r. is_usable (rt_connection r)) (runtime_of s session);
          session = session\<lparr>se_active_turn_id := active_turn_id, se_queue_depth := pending_queue_entries,
            se_open_attention_count := open_attention_count,
            se_status := derive_session_status
              \<lparr>si_runtime_usable = runtime_usable,
               si_has_active_turn = (active_turn_id \<noteq> None \<or> reported = Some Session_Running),
               si_open_approval = open_approval, si_open_question = open_question,
               si_pending_queue_entries = pending_queue_entries,
               si_terminal = terminal_status reported\<rparr>\<rparr>
      in if last_activity_at_ms > se_last_activity_at_ms session
         then session\<lparr>se_last_activity_at_ms := last_activity_at_ms, se_updated_at_ms := last_activity_at_ms\<rparr>
         else session)"

definition recompute_session :: "session_id \<Rightarrow> canonical_state \<Rightarrow> canonical_state" where
  "recompute_session sid s = s\<lparr>cs_sessions := bt_adjust sid (derive_session s sid) (cs_sessions s)\<rparr>"

definition count_session :: "project_id \<Rightarrow> session \<Rightarrow> session_counts \<times> i64 \<Rightarrow> session_counts \<times> i64" where
  "count_session pid session acc =
     (if se_project_id session \<noteq> pid then acc
      else let (counts, latest) = acc;
               counts = counts\<lparr>sc_total := u32_saturating_succ (sc_total counts)\<rparr>;
               counts = (if se_archived session
                 then counts\<lparr>sc_archived := u32_saturating_succ (sc_archived counts)\<rparr> else counts);
               counts = (if se_status session = Session_Running
                   then counts\<lparr>sc_running := u32_saturating_succ (sc_running counts)\<rparr>
                 else if se_status session = Session_Failed
                   then counts\<lparr>sc_failed := u32_saturating_succ (sc_failed counts)\<rparr>
                 else if waits_for_human (se_status session)
                   then counts\<lparr>sc_waiting_human := u32_saturating_succ (sc_waiting_human counts)\<rparr>
                 else counts)
           in (counts, max latest (se_last_activity_at_ms session)))"

definition derive_project :: "canonical_state \<Rightarrow> project_id \<Rightarrow> project \<Rightarrow> project" where
  "derive_project s pid project =
     (let (counts, latest) =
            fold (count_session pid) (bt_values (cs_sessions s)) (session_counts_default, i64_MIN);
          attention_count = u32_of_count (length (filter
            (\<lambda>a. at_project_id a = pid \<and> attention_is_open (at_state a)) (bt_values (cs_attention s))));
          workflow_count = u32_of_count (length (filter (\<lambda>w. wf_project_id w = pid) (bt_values (cs_workflows s))));
          project = project\<lparr>pj_session_counts := counts, pj_attention_count := attention_count,
            pj_workflow_count := workflow_count\<rparr>
      in if latest > pj_last_activity_at_ms project
         then project\<lparr>pj_last_activity_at_ms := latest\<rparr> else project)"

definition recompute_project :: "project_id \<Rightarrow> canonical_state \<Rightarrow> canonical_state" where
  "recompute_project pid s = s\<lparr>cs_projects := bt_adjust pid (derive_project s pid) (cs_projects s)\<rparr>"

definition recompute_project_counts :: "canonical_state \<Rightarrow> canonical_state" where
  "recompute_project_counts s = fold recompute_project (bt_keys (cs_projects s)) s"

definition recompute_derived :: "canonical_state \<Rightarrow> canonical_state" where
  "recompute_derived s = recompute_project_counts (fold recompute_session (bt_keys (cs_sessions s)) s)"

section \<open>Applying an effect\<close>

definition apply_runtime :: "provider_runtime \<Rightarrow> canonical_state \<Rightarrow> canonical_state state_result" where
  "apply_runtime runtime s =
     (if is_some_and (\<lambda>existing. rt_host_id existing \<noteq> rt_host_id runtime) (bt_get (cs_runtimes s) (rt_id runtime))
      then Inl RuntimeHostChanged
      else if permits (rt_capabilities runtime) LiveControl \<and> \<not> has_runtime_acceptance_for s (rt_id runtime)
      then Inl LiveControlCapabilityWithoutRuntimeAcceptance
      else Inr (s\<lparr>cs_runtimes := bt_insert (rt_id runtime) runtime (cs_runtimes s)\<rparr>))"

definition apply_capabilities :: "runtime_capabilities \<Rightarrow> canonical_state \<Rightarrow> canonical_state state_result" where
  "apply_capabilities caps s =
     (if permits caps LiveControl \<and> \<not> has_runtime_acceptance_for s (rc_runtime_id caps)
      then Inl LiveControlCapabilityWithoutRuntimeAcceptance
      else if \<not> bt_contains (cs_runtimes s) (rc_runtime_id caps) then Inl (UnknownRuntime (rc_runtime_id caps))
      else Inr (s\<lparr>cs_runtimes :=
        bt_adjust (rc_runtime_id caps) (\<lambda>r. r\<lparr>rt_capabilities := caps\<rparr>) (cs_runtimes s)\<rparr>))"

text \<open>\<open>find\<close> over the mutable bindings replaces the first one with the same identifier.\<close>

fun merge_binding :: "project_binding \<Rightarrow> project_binding list \<Rightarrow> project_binding list" where
  "merge_binding incoming [] = [incoming]"
| "merge_binding incoming (b # bs) = (if pb_id b = pb_id incoming then incoming # bs
     else b # merge_binding incoming bs)"

definition apply_project :: "project \<Rightarrow> canonical_state \<Rightarrow> canonical_state" where
  "apply_project project s =
     (let merged = (case bt_get (cs_projects s) (pj_id project) of
          None \<Rightarrow> project
        | Some existing \<Rightarrow> project\<lparr>pj_bindings := fold merge_binding (pj_bindings project) (pj_bindings existing),
            pj_last_activity_at_ms := max (pj_last_activity_at_ms project) (pj_last_activity_at_ms existing)\<rparr>)
      in s\<lparr>cs_projects := bt_insert (pj_id merged) merged (cs_projects s)\<rparr>)"

definition controlling_accepted :: "canonical_state \<Rightarrow> session \<Rightarrow> provider_runtime_id \<Rightarrow> bool" where
  "controlling_accepted s session rid = list_ex (\<lambda>ack.
     is_some_and (\<lambda>accepted. se_id accepted = se_id session) (accepted_runtime_session s ack rid)) (cs_acks s)"

definition session_live_check :: "session \<Rightarrow> canonical_state \<Rightarrow> state_error check" where
  "session_live_check session s = run_checks
     [if is_live (se_live_binding session)
      then and_then (live_runtime_of s session) (\<lambda>r.
        map_err State_Contract (live_binding_validate_against (rt_capabilities r) (se_live_binding session)))
      else ok,
      if accepts_control (se_live_binding session)
      then and_then (live_runtime_of s session) (\<lambda>r.
        reject_if (\<not> controlling_accepted s session (rt_id r)) ControllingBindingWithoutRuntimeAcceptance)
      else ok]"

definition apply_session :: "session \<Rightarrow> canonical_state \<Rightarrow> canonical_state state_result" where
  "apply_session session s =
     and_then (session_live_check session s) (\<lambda>_.
       let merged = (case bt_get (cs_sessions s) (se_id session) of
            None \<Rightarrow> session
          | Some existing \<Rightarrow> session\<lparr>se_created_at_ms := se_created_at_ms existing\<rparr>)
       in Inr (s\<lparr>cs_sessions := bt_insert (se_id merged) merged (cs_sessions s)\<rparr>))"

definition apply_session_status :: "session_id \<Rightarrow> session_status \<Rightarrow> canonical_state \<Rightarrow> canonical_state state_result" where
  "apply_session_status sid st s =
     (if \<not> bt_contains (cs_sessions s) sid then Inl (UnknownSession sid)
      else Inr (s\<lparr>cs_reported_status := bt_insert sid st (cs_reported_status s)\<rparr>))"

definition push_new :: "'a list \<Rightarrow> 'a \<Rightarrow> 'a list" where
  "push_new xs x = (if x \<in> set xs then xs else xs @ [x])"

definition command_already_bound :: "turn \<Rightarrow> canonical_state \<Rightarrow> bool" where
  "command_already_bound turn s =
     (case tu_origin turn of
        RemoteCommand cid \<Rightarrow>
          list_ex (\<lambda>existing. tu_id existing \<noteq> tu_id turn \<and> tu_origin existing = RemoteCommand cid)
            (bt_values (cs_turns s))
      | _ \<Rightarrow> False)"

definition merge_turn :: "turn \<Rightarrow> turn \<Rightarrow> turn state_result" where
  "merge_turn existing turn =
     (if tu_session_id existing \<noteq> tu_session_id turn then Inl TurnSessionChanged
      else if tu_origin existing \<noteq> tu_origin turn then Inl TurnOriginChanged
      else if tu_binding_handle existing \<noteq> None \<and> tu_binding_handle turn \<noteq> None
          \<and> tu_binding_handle existing \<noteq> tu_binding_handle turn then Inl TurnBindingChanged
      else Inr (turn\<lparr>tu_item_ids := foldl push_new (tu_item_ids existing) (tu_item_ids turn),
        tu_started_at_ms := opt_or (tu_started_at_ms turn) (tu_started_at_ms existing),
        tu_binding_handle := opt_or (tu_binding_handle turn) (tu_binding_handle existing)\<rparr>))"

definition apply_turn :: "turn \<Rightarrow> canonical_state \<Rightarrow> canonical_state state_result" where
  "apply_turn turn s =
     (if command_already_bound turn s then Inl RemoteCommandTurnConflict
      else and_then (case bt_get (cs_turns s) (tu_id turn) of
          None \<Rightarrow> Inr turn
        | Some existing \<Rightarrow> merge_turn existing turn) (\<lambda>merged.
        and_then (map_err State_Contract (turn_validate merged)) (\<lambda>_.
          Inr (s\<lparr>cs_turn_order := push_new (cs_turn_order s) (tu_id merged),
                 cs_turns := bt_insert (tu_id merged) merged (cs_turns s)\<rparr>))))"

definition apply_item :: "item \<Rightarrow> canonical_state \<Rightarrow> canonical_state state_result" where
  "apply_item item s =
     and_then (ok_or (bt_get (cs_turns s) (it_turn_id item)) (UnknownTurn (it_turn_id item))) (\<lambda>turn.
       let turn = turn\<lparr>tu_item_ids := push_new (tu_item_ids turn) (it_id item)\<rparr>
       in and_then (map_err State_Contract (turn_validate turn)) (\<lambda>_.
         Inr (s\<lparr>cs_turns := bt_adjust (it_turn_id item) (\<lambda>_. turn) (cs_turns s),
                cs_items := bt_insert (it_id item) item (cs_items s)\<rparr>)))"

definition apply_reorder :: "session_id \<Rightarrow> queue_entry_id list \<Rightarrow> canonical_state \<Rightarrow> canonical_state" where
  "apply_reorder sid order s = s\<lparr>cs_queue := fold (\<lambda>(position, i).
     bt_adjust i (\<lambda>e. if qe_session_id e = sid then e\<lparr>qe_position := of_nat position\<rparr> else e))
     (zip [0..<length order] order) (cs_queue s)\<rparr>"

definition apply_attention :: "attention_item \<Rightarrow> canonical_state \<Rightarrow> canonical_state" where
  "apply_attention item s =
     s\<lparr>cs_attention_order := push_new (cs_attention_order s) (at_id item),
       cs_attention := bt_insert (at_id item) item (cs_attention s)\<rparr>"

fun is_accepted_locally :: "command_outcome \<Rightarrow> bool" where
  "is_accepted_locally (AcceptedLocally _) = True"
| "is_accepted_locally _ = False"

definition acked :: "(command_outcome \<Rightarrow> bool) \<Rightarrow> command_id \<Rightarrow> command_ack list \<Rightarrow> bool" where
  "acked p cid acks = list_ex (\<lambda>a. ack_command_id a = cid \<and> p (ack_outcome a)) acks"

fun runtime_ack_check :: "command_id \<Rightarrow> command_outcome \<Rightarrow> canonical_state \<Rightarrow> state_error check" where
  "runtime_ack_check cid (AcceptedByRuntime sid acceptance_kind h) s = run_checks
     [reject_if (\<not> acked is_accepted_locally cid (cs_acks s)) UncorrelatedRuntimeAcknowledgement,
      reject_if (acked reached_runtime cid (cs_acks s)) DuplicateRuntimeAcknowledgement,
      and_then (ok_or (bt_get (cs_sessions s) sid) (UnknownSession sid)) (\<lambda>session.
        reject_if (\<not> is_some_and (\<lambda>r. rt_id r = bh_runtime_id h) (runtime_of s session))
          RuntimeAcknowledgementRuntimeMismatch),
      if acceptance_kind = PromptTurn
      then and_then (remote_command_turn s cid) (\<lambda>turn.
        reject_if (tu_session_id turn \<noteq> sid) RuntimeAcknowledgementRuntimeMismatch)
      else ok]"
| "runtime_ack_check _ _ _ = ok"

definition apply_ack :: "command_ack \<Rightarrow> canonical_state \<Rightarrow> canonical_state state_result" where
  "apply_ack ack s =
     and_then (runtime_ack_check (ack_command_id ack) (ack_outcome ack) s) (\<lambda>_.
       Inr (s\<lparr>cs_acks := cs_acks s @ [ack]\<rparr>))"

text \<open>\<open>format!("{:?}")\<close> of a unit variant prints its name.\<close>

fun diagnostic_code_name :: "diagnostic_code \<Rightarrow> string" where
  "diagnostic_code_name UnknownUpstreamMessage = ''UnknownUpstreamMessage''"
| "diagnostic_code_name UnknownUpstreamLabel = ''UnknownUpstreamLabel''"
| "diagnostic_code_name PointerResolutionFailed = ''PointerResolutionFailed''"
| "diagnostic_code_name JoinDeferred = ''JoinDeferred''"
| "diagnostic_code_name JoinFailed = ''JoinFailed''"
| "diagnostic_code_name BackpressureCoalesced = ''BackpressureCoalesced''"
| "diagnostic_code_name MalformedProviderMessage = ''MalformedProviderMessage''"

definition diagnostic_key :: "diagnostic_record \<Rightarrow> string" where
  "diagnostic_key d = diagnostic_code_name (dr_code d)
     @ ''|'' @ (case dr_runtime_id d of Some r \<Rightarrow> r | None \<Rightarrow> ''-'')
     @ ''|'' @ (case dr_session_id d of Some x \<Rightarrow> x | None \<Rightarrow> ''-'')"

fun apply_effect :: "state_effect \<Rightarrow> canonical_state \<Rightarrow> canonical_state state_result" where
  "apply_effect (HostUpserted host) s = Inr (s\<lparr>cs_hosts := bt_insert (ho_id host) host (cs_hosts s)\<rparr>)"
| "apply_effect (RuntimeUpserted runtime) s = apply_runtime runtime s"
| "apply_effect (CapabilitiesUpdated caps) s = apply_capabilities caps s"
| "apply_effect (ProjectUpserted project) s = Inr (apply_project project s)"
| "apply_effect (SessionUpserted session) s = apply_session session s"
| "apply_effect (SessionStatusChanged sid st) s = apply_session_status sid st s"
| "apply_effect (TurnUpserted turn) s = apply_turn turn s"
| "apply_effect (ItemUpserted item) s = apply_item item s"
| "apply_effect (QueueEntryUpserted entry) s =
     Inr (s\<lparr>cs_queue := bt_insert (qe_id entry) entry (cs_queue s)\<rparr>)"
| "apply_effect (QueueReordered sid order) s = Inr (apply_reorder sid order s)"
| "apply_effect (AttentionUpserted item) s = Inr (apply_attention item s)"
| "apply_effect (CommandAcknowledged ack) s = apply_ack ack s"
| "apply_effect (DiagnosticRecorded d) s =
     Inr (s\<lparr>cs_diagnostics := bt_insert (diagnostic_key d) d (cs_diagnostics s)\<rparr>)"
| "apply_effect (WorkflowUpserted w) s = Inr (s\<lparr>cs_workflows := bt_insert (wf_id w) w (cs_workflows s)\<rparr>)"
| "apply_effect (StepUpserted x) s = Inr (s\<lparr>cs_steps := bt_insert (st_id x) x (cs_steps s)\<rparr>)"
| "apply_effect (ArtifactUpserted a) s = Inr (s\<lparr>cs_artifacts := bt_insert (ar_id a) a (cs_artifacts s)\<rparr>)"

definition apply_state :: "state_effect \<Rightarrow> canonical_state \<Rightarrow> canonical_state state_result" where
  "apply_state effect s = and_then (apply_effect effect s) (\<lambda>s'. Inr (recompute_derived s'))"

section \<open>The recomputation as one pass\<close>

lemma fold_bt_adjust:
  "distinct ks \<Longrightarrow> fold (\<lambda>k. bt_adjust k (f k)) ks m =
     map (\<lambda>(k, v). (k, if k \<in> set ks then f k v else v)) m"
proof (induction ks arbitrary: m)
  case Nil
  then show ?case by (simp add: case_prod_beta)
next
  case (Cons k ks)
  then show ?case
    by (auto simp: bt_adjust_def case_prod_beta)
qed

lemma fold_bt_adjust_keys:
  assumes "bt_wf m"
  shows "fold (\<lambda>k. bt_adjust k (f k)) (bt_keys m) m = bt_map f m"
proof -
  have "fold (\<lambda>k. bt_adjust k (f k)) (bt_keys m) m =
      map (\<lambda>(k, v). (k, if k \<in> set (bt_keys m) then f k v else v)) m"
    by (rule fold_bt_adjust) (rule bt_keys_distinct [OF assms])
  also have "\<dots> = bt_map f m"
    by (force simp: bt_map_def bt_keys_def)
  finally show ?thesis .
qed

lemma derive_session_sessions [simp]:
  "derive_session (s\<lparr>cs_sessions := x\<rparr>) = derive_session s"
  by (intro ext) (simp add: derive_session_def active_turn_of_def turns_of_def open_attention_of_def
      last_activity_of_def runtime_of_def)

lemma derive_project_projects [simp]:
  "derive_project (s\<lparr>cs_projects := x\<rparr>) = derive_project s"
  by (intro ext) (simp add: derive_project_def)

lemma fold_recompute_session:
  "fold recompute_session ks s =
     s\<lparr>cs_sessions := fold (\<lambda>k. bt_adjust k (derive_session s k)) ks (cs_sessions s)\<rparr>"
  by (induction ks arbitrary: s) (simp_all add: recompute_session_def)

lemma fold_recompute_project:
  "fold recompute_project ks s =
     s\<lparr>cs_projects := fold (\<lambda>k. bt_adjust k (derive_project s k)) ks (cs_projects s)\<rparr>"
  by (induction ks arbitrary: s) (simp_all add: recompute_project_def)

definition derive_sessions :: "canonical_state \<Rightarrow> canonical_state" where
  "derive_sessions s = s\<lparr>cs_sessions := bt_map (derive_session s) (cs_sessions s)\<rparr>"

definition derive_projects :: "canonical_state \<Rightarrow> canonical_state" where
  "derive_projects s = s\<lparr>cs_projects := bt_map (derive_project s) (cs_projects s)\<rparr>"

lemma recompute_derived_eq:
  "bt_wf (cs_sessions s) \<Longrightarrow> bt_wf (cs_projects s) \<Longrightarrow>
     recompute_derived s = derive_projects (derive_sessions s)"
  by (simp add: recompute_derived_def recompute_project_counts_def fold_recompute_session
      fold_recompute_project fold_bt_adjust_keys derive_sessions_def derive_projects_def)

lemma derive_session_keeps [simp]:
  "se_id (derive_session s sid x) = se_id x"
  "se_project_id (derive_session s sid x) = se_project_id x"
  "se_project_binding_id (derive_session s sid x) = se_project_binding_id x"
  "se_history_source (derive_session s sid x) = se_history_source x"
  "se_live_binding (derive_session s sid x) = se_live_binding x"
  "se_created_at_ms (derive_session s sid x) = se_created_at_ms x"
  "se_archived (derive_session s sid x) = se_archived x"
  "se_binding_handle (derive_session s sid x) = se_binding_handle x"
  by (simp_all add: derive_session_def Let_def)

lemma derive_project_keeps [simp]:
  "pj_id (derive_project s pid p) = pj_id p"
  "pj_bindings (derive_project s pid p) = pj_bindings p"
  by (simp_all add: derive_project_def Let_def split: prod.split)

lemma runtime_of_keeps:
  assumes "cs_runtimes s' = cs_runtimes s" and "\<And>i. map_option pj_bindings (bt_get (cs_projects s') i) =
      map_option pj_bindings (bt_get (cs_projects s) i)"
    and "se_binding_handle x' = se_binding_handle x" "se_history_source x' = se_history_source x"
      "se_project_id x' = se_project_id x" "se_project_binding_id x' = se_project_binding_id x"
  shows "runtime_of s' x' = runtime_of s x"
proof -
  define f :: "project_binding list \<Rightarrow> provider_runtime_id option" where
    "f bs = map_option pb_runtime_id (find (\<lambda>b. pb_id b = se_project_binding_id x) bs)" for bs
  have "Option.bind (bt_get (cs_projects s') i) (\<lambda>p. f (pj_bindings p)) =
      Option.bind (bt_get (cs_projects s) i) (\<lambda>p. f (pj_bindings p))" for i
    using assms(2) [of i] by (cases "bt_get (cs_projects s') i"; cases "bt_get (cs_projects s) i") auto
  then show ?thesis
    using assms(1,3-) by (simp add: runtime_of_def f_def)
qed

lemma derive_session_projects:
  assumes "\<And>i. map_option pj_bindings (bt_get x i) = map_option pj_bindings (bt_get (cs_projects s) i)"
  shows "derive_session (s\<lparr>cs_projects := x\<rparr>) = derive_session s"
proof -
  have "runtime_of (s\<lparr>cs_projects := x\<rparr>) y = runtime_of s y" for y
    by (rule runtime_of_keeps) (simp_all add: assms)
  then show ?thesis
    by (intro ext) (simp add: derive_session_def active_turn_of_def turns_of_def open_attention_of_def
      last_activity_of_def)
qed

lemma derive_session_idem: "derive_session s sid (derive_session s sid x) = derive_session s sid x"
proof -
  have "runtime_of s (derive_session s sid x) = runtime_of s x"
    by (rule runtime_of_keeps) simp_all
  then show ?thesis
    by (auto simp: derive_session_def Let_def intro!: session.equality)
qed

lemma derive_project_idem: "derive_project s pid (derive_project s pid p) = derive_project s pid p"
  by (auto simp: derive_project_def Let_def split: prod.splits)

lemma bt_map_idem: "(\<And>k v. f k (f k v) = f k v) \<Longrightarrow> bt_map f (bt_map f m) = bt_map f m"
  by (auto simp: bt_map_def)

lemma recompute_derived_idem:
  assumes "bt_wf (cs_sessions s)" "bt_wf (cs_projects s)"
  shows "recompute_derived (recompute_derived s) = recompute_derived s"
proof -
  define a where "a = derive_sessions s"
  define b where "b = derive_projects a"
  have wf: "bt_wf (cs_sessions b)" "bt_wf (cs_projects b)"
    using assms by (simp_all add: a_def b_def derive_sessions_def derive_projects_def)
  have "derive_session a = derive_session s"
    by (simp add: a_def derive_sessions_def)
  moreover have "derive_session b = derive_session a"
    unfolding b_def derive_projects_def
    by (rule derive_session_projects) (simp add: option.map_comp o_def)
  ultimately have sb: "derive_sessions b = b"
    by (simp add: b_def a_def derive_sessions_def derive_projects_def bt_map_idem derive_session_idem)
  have "derive_project b = derive_project a"
    by (simp add: b_def derive_projects_def)
  then have "derive_projects b = b"
    by (simp add: b_def derive_projects_def bt_map_idem derive_project_idem)
  with sb have "derive_projects (derive_sessions b) = b"
    by simp
  then show ?thesis
    using wf assms by (simp add: recompute_derived_eq a_def b_def)
qed

end
