(* ===== verification/State_Invariant.thy ===== *)
theory State_Invariant
  imports Canonical_State
begin

text \<open>
  The invariant of the canonical state and the order in which it grows. Locale \<open>effect_system\<close> is
  the contract every reducer of the program satisfies (an initial state, a partial step, an
  invariant and an extension order the step respects); its lemmas lift both to whole logs of
  effects. It is interpreted on \<open>CanonicalState::apply\<close>.
\<close>

section \<open>Reducers\<close>

locale effect_system =
  fixes init :: 's
    and step :: "'e \<Rightarrow> 's \<Rightarrow> ('err, 's) result"
    and inv :: "'s \<Rightarrow> bool"
    and extends :: "'s \<Rightarrow> 's \<Rightarrow> bool"
  assumes inv_init: "inv init"
    and inv_step: "inv s \<Longrightarrow> step e s = Inr s' \<Longrightarrow> inv s'"
    and extends_refl: "extends s s"
    and extends_trans: "extends s t \<Longrightarrow> extends t u \<Longrightarrow> extends s u"
    and extends_step: "inv s \<Longrightarrow> step e s = Inr s' \<Longrightarrow> extends s s'"
begin

lemma run_inv: "try_fold step es s = Inr s' \<Longrightarrow> inv s \<Longrightarrow> inv s'"
proof (induction es arbitrary: s)
  case (Cons e es)
  then show ?case
    by (cases "step e s") (auto dest: inv_step)
qed simp

lemma run_extends: "try_fold step es s = Inr s' \<Longrightarrow> inv s \<Longrightarrow> extends s s'"
proof (induction es arbitrary: s)
  case Nil
  then show ?case by (simp add: extends_refl)
next
  case (Cons e es)
  then show ?case
    by (cases "step e s") (auto dest: inv_step extends_step intro: extends_trans)
qed

lemma replay_inv: "try_fold step es init = Inr s \<Longrightarrow> inv s"
  by (erule run_inv) (rule inv_init)

lemma replay_extends:
  assumes "try_fold step (es @ fs) init = Inr s'"
  shows "\<exists>s. try_fold step es init = Inr s \<and> inv s \<and> inv s' \<and> extends s s'"
proof -
  from assms obtain s where s: "try_fold step es init = Inr s" "try_fold step fs s = Inr s'"
    by (auto simp: try_fold_append and_then_ok)
  then show ?thesis
    using replay_inv run_inv run_extends by blast
qed

end

section \<open>Keyed maps\<close>

definition keyed :: "('v \<Rightarrow> 'k) \<Rightarrow> ('k::linorder, 'v) btree_map \<Rightarrow> bool" where
  "keyed key m \<longleftrightarrow> bt_wf m \<and> (\<forall>k v. bt_get m k = Some v \<longrightarrow> key v = k)"

lemma keyed_none [simp]: "keyed key []"
  by (simp add: keyed_def)

lemma keyed_insert [simp]: "keyed key m \<Longrightarrow> keyed key (bt_insert (key v) v m)"
  unfolding keyed_def by (intro conjI btk.keyed_ins) simp_all

lemma keyed_insert_key: "keyed key m \<Longrightarrow> key v = k \<Longrightarrow> keyed key (bt_insert k v m)"
  by (drule keyed_insert [of key m v]) simp

lemma keyed_adjust:
  assumes "keyed key m" and "\<And>v. bt_get m k = Some v \<Longrightarrow> key (f v) = k"
  shows "keyed key (bt_adjust k f m)"
  unfolding keyed_def
proof (intro conjI allI impI)
  show "bt_wf (bt_adjust k f m)"
    using assms(1) by (simp add: keyed_def)
  fix k' v
  assume "bt_get (bt_adjust k f m) k' = Some v"
  then show "key v = k'"
    using assms by (cases "k' = k") (auto simp: keyed_def)
qed

lemma keyed_map [simp]:
  assumes "keyed key m" and "\<And>k v. key (f k v) = key v"
  shows "keyed key (bt_map f m)"
  unfolding keyed_def
proof (intro conjI allI impI)
  show "bt_wf (bt_map f m)"
    using assms(1) by (simp add: keyed_def)
  fix k v
  assume "bt_get (bt_map f m) k = Some v"
  then obtain w where "bt_get m k = Some w" "v = f k w"
    by auto
  with assms show "key v = k"
    unfolding keyed_def by metis
qed

lemma keyed_wf: "keyed key m \<Longrightarrow> bt_wf m"
  by (simp add: keyed_def)

lemma keyed_get: "keyed key m \<Longrightarrow> bt_get m k = Some v \<Longrightarrow> key v = k"
  by (simp add: keyed_def)

lemma keyed_values_iff: "keyed key m \<Longrightarrow> v \<in> set (bt_values m) \<longleftrightarrow> bt_get m (key v) = Some v"
  unfolding keyed_def using bt_values_iff [of m v] by metis

lemma keyed_values_distinct: "keyed key m \<Longrightarrow> distinct (map key (bt_values m))"
  unfolding keyed_def by (rule btk.keyed_vals_distinct) auto

section \<open>The invariant\<close>

definition maps_wf :: "canonical_state \<Rightarrow> bool" where
  "maps_wf s \<longleftrightarrow> keyed ho_id (cs_hosts s) \<and> keyed rt_id (cs_runtimes s) \<and> keyed pj_id (cs_projects s)
     \<and> keyed se_id (cs_sessions s) \<and> bt_wf (cs_reported_status s) \<and> keyed tu_id (cs_turns s)
     \<and> keyed it_id (cs_items s) \<and> keyed qe_id (cs_queue s) \<and> keyed at_id (cs_attention s)
     \<and> keyed wf_id (cs_workflows s) \<and> keyed st_id (cs_steps s) \<and> keyed ar_id (cs_artifacts s)
     \<and> bt_wf (cs_diagnostics s)"

definition orders_wf :: "canonical_state \<Rightarrow> bool" where
  "orders_wf s \<longleftrightarrow> distinct (cs_turn_order s) \<and> set (cs_turn_order s) = set (bt_keys (cs_turns s))
     \<and> distinct (cs_attention_order s) \<and> set (cs_attention_order s) = set (bt_keys (cs_attention s))
     \<and> set (bt_keys (cs_reported_status s)) \<subseteq> set (bt_keys (cs_sessions s))"

definition turns_wf :: "canonical_state \<Rightarrow> bool" where
  "turns_wf s \<longleftrightarrow>
     (\<forall>i t. bt_get (cs_turns s) i = Some t \<longrightarrow> turn_validate t = ok)
     \<and> (\<forall>i j t u c. bt_get (cs_turns s) i = Some t \<and> bt_get (cs_turns s) j = Some u
          \<and> tu_origin t = RemoteCommand c \<and> tu_origin u = RemoteCommand c \<longrightarrow> i = j)
     \<and> (\<forall>i x. bt_get (cs_items s) i = Some x \<longrightarrow>
          (\<exists>t. bt_get (cs_turns s) (it_turn_id x) = Some t \<and> i \<in> set (tu_item_ids t)))"

definition acks_wf :: "canonical_state \<Rightarrow> bool" where
  "acks_wf s \<longleftrightarrow>
     (\<forall>xs a ys. cs_acks s = xs @ a # ys \<and> reached_runtime (ack_outcome a) \<longrightarrow>
        acked is_accepted_locally (ack_command_id a) xs \<and> \<not> acked reached_runtime (ack_command_id a) xs)
     \<and> (\<forall>a sid h. a \<in> set (cs_acks s) \<and> ack_outcome a = AcceptedByRuntime sid PromptTurn h \<longrightarrow>
        (\<exists>i t. bt_get (cs_turns s) i = Some t \<and> tu_origin t = RemoteCommand (ack_command_id a)
           \<and> tu_session_id t = sid))"

definition runtime_accepted :: "canonical_state \<Rightarrow> provider_runtime_id \<Rightarrow> bool" where
  "runtime_accepted s rid \<longleftrightarrow> (\<exists>a \<in> set (cs_acks s). \<exists>sid k h.
     ack_outcome a = AcceptedByRuntime sid k h \<and> bh_runtime_id h = rid)"

definition session_accepted :: "canonical_state \<Rightarrow> session_id \<Rightarrow> bool" where
  "session_accepted s sid \<longleftrightarrow> (\<exists>a \<in> set (cs_acks s). \<exists>k h. ack_outcome a = AcceptedByRuntime sid k h)"

definition live_wf :: "canonical_state \<Rightarrow> bool" where
  "live_wf s \<longleftrightarrow>
     (\<forall>i r. bt_get (cs_runtimes s) i = Some r \<and> permits (rt_capabilities r) LiveControl \<longrightarrow> runtime_accepted s i)
     \<and> (\<forall>i x. bt_get (cs_sessions s) i = Some x \<and> accepts_control (se_live_binding x) \<longrightarrow> session_accepted s i)"

definition derived_wf :: "canonical_state \<Rightarrow> bool" where
  "derived_wf s \<longleftrightarrow> recompute_derived s = s"

definition wf_state :: "canonical_state \<Rightarrow> bool" where
  "wf_state s \<longleftrightarrow> maps_wf s \<and> orders_wf s \<and> turns_wf s \<and> acks_wf s \<and> live_wf s \<and> derived_wf s"

lemma maps_wfD:
  assumes "maps_wf s"
  shows "keyed ho_id (cs_hosts s)" "keyed rt_id (cs_runtimes s)" "keyed pj_id (cs_projects s)"
    "keyed se_id (cs_sessions s)" "keyed tu_id (cs_turns s)" "keyed it_id (cs_items s)"
    "keyed qe_id (cs_queue s)" "keyed at_id (cs_attention s)"
  using assms by (simp_all add: maps_wf_def)

section \<open>What a successful operation did\<close>

lemma merge_turn_keeps:
  "merge_turn t u = Inr v \<Longrightarrow> tu_id v = tu_id u \<and> tu_session_id v = tu_session_id t \<and> tu_origin v = tu_origin t
     \<and> tu_session_id v = tu_session_id u \<and> tu_origin v = tu_origin u
     \<and> tu_item_ids v = foldl push_new (tu_item_ids t) (tu_item_ids u)
     \<and> (\<forall>h. tu_binding_handle t = Some h \<longrightarrow> tu_binding_handle v = Some h)"
  by (cases "tu_binding_handle t"; cases "tu_binding_handle u") (auto simp: merge_turn_def split: if_splits)

lemma apply_turn_ok:
  assumes "apply_turn turn s = Inr s'"
  obtains merged where "tu_id merged = tu_id turn" "tu_origin merged = tu_origin turn"
    "turn_validate merged = ok" "\<not> command_already_bound turn s"
    "s' = s\<lparr>cs_turn_order := push_new (cs_turn_order s) (tu_id turn),
            cs_turns := bt_insert (tu_id turn) merged (cs_turns s)\<rparr>"
    "case bt_get (cs_turns s) (tu_id turn) of None \<Rightarrow> merged = turn | Some t \<Rightarrow> merge_turn t turn = Inr merged"
proof -
  from assms obtain merged where merged:
    "(case bt_get (cs_turns s) (tu_id turn) of None \<Rightarrow> Inr turn | Some t \<Rightarrow> merge_turn t turn) = Inr merged"
    and rest: "turn_validate merged = ok" "\<not> command_already_bound turn s"
      "s' = s\<lparr>cs_turn_order := push_new (cs_turn_order s) (tu_id merged),
              cs_turns := bt_insert (tu_id merged) merged (cs_turns s)\<rparr>"
    by (auto simp: apply_turn_def and_then_ok map_err_ok split: if_splits)
  have "tu_id merged = tu_id turn \<and> tu_origin merged = tu_origin turn"
    using merged by (auto split: option.splits dest: merge_turn_keeps)
  moreover have "case bt_get (cs_turns s) (tu_id turn) of None \<Rightarrow> merged = turn | Some t \<Rightarrow> merge_turn t turn = Inr merged"
    using merged by (cases "bt_get (cs_turns s) (tu_id turn)") simp_all
  ultimately show thesis
    using rest by (intro that) simp_all
qed

lemma apply_item_ok:
  assumes "apply_item item s = Inr s'"
  obtains turn where "bt_get (cs_turns s) (it_turn_id item) = Some turn"
    "turn_validate (turn\<lparr>tu_item_ids := push_new (tu_item_ids turn) (it_id item)\<rparr>) = ok"
    "s' = s\<lparr>cs_turns := bt_adjust (it_turn_id item)
              (\<lambda>_. turn\<lparr>tu_item_ids := push_new (tu_item_ids turn) (it_id item)\<rparr>) (cs_turns s),
            cs_items := bt_insert (it_id item) item (cs_items s)\<rparr>"
  using assms by (auto simp: apply_item_def and_then_ok map_err_ok ok_or_ok Let_def)

lemma apply_session_ok:
  assumes "apply_session session s = Inr s'"
  obtains merged where "se_id merged = se_id session" "se_live_binding merged = se_live_binding session"
    "session_live_check session s = ok"
    "s' = s\<lparr>cs_sessions := bt_insert (se_id session) merged (cs_sessions s)\<rparr>"
    "\<forall>x. bt_get (cs_sessions s) (se_id session) = Some x \<longrightarrow> se_created_at_ms merged = se_created_at_ms x"
proof -
  define merged where "merged = (case bt_get (cs_sessions s) (se_id session) of
      None \<Rightarrow> session | Some existing \<Rightarrow> session\<lparr>se_created_at_ms := se_created_at_ms existing\<rparr>)"
  have "se_id merged = se_id session \<and> se_live_binding merged = se_live_binding session"
    by (simp add: merged_def split: option.split)
  with assms show thesis
    by (intro that [of merged]) (auto simp: apply_session_def and_then_ok Let_def merged_def)
qed

lemma apply_project_ok:
  obtains merged where "pj_id merged = pj_id project"
    "apply_project project s = s\<lparr>cs_projects := bt_insert (pj_id project) merged (cs_projects s)\<rparr>"
    "\<forall>p. bt_get (cs_projects s) (pj_id project) = Some p \<longrightarrow>
       pj_bindings merged = fold merge_binding (pj_bindings project) (pj_bindings p)
       \<and> pj_last_activity_at_ms p \<le> pj_last_activity_at_ms merged"
proof -
  define merged where "merged = (case bt_get (cs_projects s) (pj_id project) of
      None \<Rightarrow> project
    | Some existing \<Rightarrow> project\<lparr>pj_bindings := fold merge_binding (pj_bindings project) (pj_bindings existing),
        pj_last_activity_at_ms := max (pj_last_activity_at_ms project) (pj_last_activity_at_ms existing)\<rparr>)"
  have "pj_id merged = pj_id project"
    by (simp add: merged_def split: option.split)
  then show thesis
    by (intro that [of merged]) (auto simp: apply_project_def Let_def merged_def)
qed

lemma apply_runtime_ok:
  "apply_runtime r s = Inr s' \<longleftrightarrow>
     s' = s\<lparr>cs_runtimes := bt_insert (rt_id r) r (cs_runtimes s)\<rparr>
     \<and> (\<forall>x. bt_get (cs_runtimes s) (rt_id r) = Some x \<longrightarrow> rt_host_id x = rt_host_id r)
     \<and> (permits (rt_capabilities r) LiveControl \<longrightarrow> has_runtime_acceptance_for s (rt_id r))"
  by (auto simp: apply_runtime_def is_some_and_iff)

lemma apply_capabilities_ok:
  "apply_capabilities c s = Inr s' \<longleftrightarrow>
     s' = s\<lparr>cs_runtimes := bt_adjust (rc_runtime_id c) (\<lambda>r. r\<lparr>rt_capabilities := c\<rparr>) (cs_runtimes s)\<rparr>
     \<and> bt_get (cs_runtimes s) (rc_runtime_id c) \<noteq> None
     \<and> (permits c LiveControl \<longrightarrow> has_runtime_acceptance_for s (rc_runtime_id c))"
  by (auto simp: apply_capabilities_def bt_contains_def)

lemma apply_session_status_ok:
  "apply_session_status sid st s = Inr s' \<longleftrightarrow>
     s' = s\<lparr>cs_reported_status := bt_insert sid st (cs_reported_status s)\<rparr> \<and> bt_get (cs_sessions s) sid \<noteq> None"
  by (auto simp: apply_session_status_def bt_contains_def)

lemma apply_ack_ok:
  "apply_ack a s = Inr s' \<longleftrightarrow>
     s' = s\<lparr>cs_acks := cs_acks s @ [a]\<rparr> \<and> runtime_ack_check (ack_command_id a) (ack_outcome a) s = ok"
  by (auto simp: apply_ack_def and_then_ok)

lemmas applied = apply_runtime_ok apply_capabilities_ok apply_session_status_ok apply_ack_ok apply_attention_def

subsection \<open>Maps\<close>

lemma keyed_fold_adjust:
  "keyed key m \<Longrightarrow> (\<And>x v. key (f x v) = key v) \<Longrightarrow> keyed key (fold (\<lambda>x. bt_adjust (g x) (f x)) xs m)"
proof (induction xs arbitrary: m)
  case (Cons x xs)
  then show ?case
    by (auto intro!: Cons.IH keyed_adjust dest: keyed_get)
qed simp

lemma apply_effect_maps:
  assumes "maps_wf s" "apply_effect e s = Inr s'"
  shows "maps_wf s'"
proof (cases e)
  case (ProjectUpserted p)
  with assms show ?thesis
    by (cases rule: apply_project_ok [of p s]) (auto simp: maps_wf_def keyed_insert_key)
next
  case (SessionUpserted x)
  with assms show ?thesis
    by (auto simp: maps_wf_def keyed_insert_key elim!: apply_session_ok)
next
  case (TurnUpserted t)
  with assms show ?thesis
    by (auto simp: maps_wf_def keyed_insert_key elim!: apply_turn_ok)
next
  case (ItemUpserted i)
  with assms(2) obtain t where t: "bt_get (cs_turns s) (it_turn_id i) = Some t"
    "s' = s\<lparr>cs_turns := bt_adjust (it_turn_id i)
              (\<lambda>_. t\<lparr>tu_item_ids := push_new (tu_item_ids t) (it_id i)\<rparr>) (cs_turns s),
            cs_items := bt_insert (it_id i) i (cs_items s)\<rparr>"
    by (auto elim: apply_item_ok)
  with assms(1) have "tu_id t = it_turn_id i"
    by (auto simp: maps_wf_def keyed_def)
  with t assms(1) show ?thesis
    by (simp add: maps_wf_def keyed_insert_key keyed_adjust)
next
  case (QueueReordered sid order)
  with assms show ?thesis
    by (auto simp: maps_wf_def apply_reorder_def case_prod_beta' intro!: keyed_fold_adjust)
next
  case (CapabilitiesUpdated c)
  with assms show ?thesis
    by (simp add: maps_wf_def applied) (auto intro!: keyed_adjust elim: keyed_get)
qed (use assms in \<open>auto simp: maps_wf_def applied\<close>)

subsection \<open>Orders\<close>

lemma push_new_facts [simp]:
  "set (push_new xs x) = insert x (set xs)"
  "distinct xs \<Longrightarrow> distinct (push_new xs x)"
  "prefix xs (push_new xs x)"
  by (auto simp: push_new_def)

lemma foldl_push_new [simp]:
  "set (foldl push_new xs ys) = set xs \<union> set ys"
  "distinct xs \<Longrightarrow> distinct (foldl push_new xs ys)"
  "prefix xs (foldl push_new xs ys)"
proof (induction ys arbitrary: xs)
  case (Cons y ys)
  {
    case 1
    show ?case using Cons.IH(1) [of "push_new xs y"] by auto
  next
    case 2
    then show ?case using Cons.IH(2) [of "push_new xs y"] by simp
  next
    case 3
    show ?case using prefix_order.trans [OF push_new_facts(3) [of xs y] Cons.IH(3) [of "push_new xs y"]]
      by simp
  }
qed auto

lemma set_bt_keys_insert [simp]: "set (bt_keys (bt_insert k v m)) = insert k (set (bt_keys m))"
  using bt_insert_keys [of k v m] by (simp add: bt_keys_def)

lemma apply_effect_orders:
  assumes "orders_wf s" "apply_effect e s = Inr s'"
  shows "orders_wf s'"
proof (cases e)
  case (ProjectUpserted p)
  with assms show ?thesis
    by (cases rule: apply_project_ok [of p s]) (auto simp: orders_wf_def)
next
  case (QueueReordered sid order)
  with assms show ?thesis
    by (auto simp: orders_wf_def apply_reorder_def)
next
  case (SessionStatusChanged sid st)
  with assms show ?thesis
    by (auto simp: orders_wf_def applied bt_keys_iff subset_iff)
qed (use assms in \<open>auto simp: orders_wf_def applied elim!: apply_session_ok apply_turn_ok apply_item_ok\<close>)

subsection \<open>Turns and items\<close>

lemma apply_effect_frame_turns:
  assumes "apply_effect e s = Inr s'"
  shows "(\<forall>t. e \<noteq> TurnUpserted t) \<and> (\<forall>i. e \<noteq> ItemUpserted i) \<Longrightarrow> cs_turns s' = cs_turns s \<and> cs_items s' = cs_items s"
proof (cases e)
  case (ProjectUpserted p)
  with assms show ?thesis
    by (cases rule: apply_project_ok [of p s]) auto
next
  case (QueueReordered sid order)
  with assms show ?thesis
    by (auto simp: apply_reorder_def)
qed (use assms in \<open>auto simp: applied elim!: apply_session_ok\<close>)

text \<open>How the turns of a state may change: nothing is removed and a turn only grows.\<close>

definition turn_extends :: "turn \<Rightarrow> turn \<Rightarrow> bool" where
  "turn_extends t u \<longleftrightarrow> tu_id u = tu_id t \<and> tu_session_id u = tu_session_id t \<and> tu_origin u = tu_origin t
     \<and> prefix (tu_item_ids t) (tu_item_ids u)
     \<and> (\<forall>h. tu_binding_handle t = Some h \<longrightarrow> tu_binding_handle u = Some h)"

lemma turn_extends_refl [simp]: "turn_extends t t"
  by (simp add: turn_extends_def)

lemma turn_extends_trans: "turn_extends t u \<Longrightarrow> turn_extends u v \<Longrightarrow> turn_extends t v"
  by (auto simp: turn_extends_def)

lemma turn_extends_items: "turn_extends t u \<Longrightarrow> set (tu_item_ids t) \<subseteq> set (tu_item_ids u)"
  by (auto simp: turn_extends_def dest: set_mono_prefix)

lemma apply_effect_turn_extends:
  assumes "apply_effect e s = Inr s'" "maps_wf s" "bt_get (cs_turns s) i = Some t"
  shows "\<exists>u. bt_get (cs_turns s') i = Some u \<and> turn_extends t u"
proof (cases "(\<forall>t. e \<noteq> TurnUpserted t) \<and> (\<forall>i. e \<noteq> ItemUpserted i)")
  case True
  with apply_effect_frame_turns [OF assms(1)] assms(3) show ?thesis
    by auto
next
  case False
  then consider (turn) x where "e = TurnUpserted x" | (item) x where "e = ItemUpserted x"
    by auto
  then show ?thesis
  proof cases
    case turn
    with assms(1) have "apply_turn x s = Inr s'"
      by simp
    then show ?thesis
    proof (cases rule: apply_turn_ok)
      case (1 merged)
      show ?thesis
      proof (cases "i = tu_id x")
        case True
        with 1 assms have "merge_turn t x = Inr merged"
          by simp
        moreover have "tu_id t = i"
          using assms by (auto simp: maps_wf_def intro: keyed_get [of tu_id "cs_turns s"])
        ultimately have "turn_extends t merged"
          using 1 True merge_turn_keeps [of t x merged] by (simp add: turn_extends_def)
        with 1 True show ?thesis
          by simp
      qed (use 1 assms in simp)
    qed
  next
    case item
    with assms(1) have "apply_item x s = Inr s'"
      by simp
    then show ?thesis
      by (cases rule: apply_item_ok) (use assms(3) in \<open>auto simp: turn_extends_def\<close>)
  qed
qed

lemma turns_wf_item:
  assumes "turns_wf s" "bt_get (cs_items s) i = Some y"
  obtains t where "bt_get (cs_turns s) (it_turn_id y) = Some t" "i \<in> set (tu_item_ids t)"
  using assms unfolding turns_wf_def by blast

lemma apply_turn_wf:
  assumes "turns_wf s" "maps_wf s" "apply_turn x s = Inr s'"
  shows "turns_wf s'"
  using assms(3)
proof (cases rule: apply_turn_ok)
  case (1 merged)
  have uniq: "i = tu_id x" if "bt_get (cs_turns s) i = Some t" "tu_origin t = RemoteCommand c"
    "tu_origin x = RemoteCommand c" for i t c
  proof -
    have "tu_id t = i" "t \<in> set (bt_values (cs_turns s))"
      using that(1) assms(2) by (auto simp: maps_wf_def intro: keyed_get bt_get_values)
    with 1(4) that show ?thesis
      by (auto simp: command_already_bound_def list_ex_iff)
  qed
  have items: "\<exists>u. bt_get (cs_turns s') (it_turn_id y) = Some u \<and> i \<in> set (tu_item_ids u)"
    if "bt_get (cs_items s) i = Some y" for i y
  proof -
    from assms(1) that obtain t where t: "bt_get (cs_turns s) (it_turn_id y) = Some t" "i \<in> set (tu_item_ids t)"
      by (rule turns_wf_item)
    obtain u where "bt_get (cs_turns s') (it_turn_id y) = Some u" "turn_extends t u"
      using apply_effect_turn_extends [of "TurnUpserted x" s s'] assms t by auto
    with t show ?thesis
      using turn_extends_items by blast
  qed
  have get: "bt_get (cs_turns s') i = (if i = tu_id x then Some merged else bt_get (cs_turns s) i)" for i
    using 1(5) by simp
  show ?thesis
    unfolding turns_wf_def
  proof (intro conjI allI impI)
    show "turn_validate t = ok" if "bt_get (cs_turns s') i = Some t" for i t
      using that 1(3) assms(1) by (auto simp: get turns_wf_def split: if_splits)
    show "i = j" if "bt_get (cs_turns s') i = Some t \<and> bt_get (cs_turns s') j = Some u
        \<and> tu_origin t = RemoteCommand c \<and> tu_origin u = RemoteCommand c" for i j t u c
      using that uniq [of i t c] uniq [of j u c] 1(2) assms(1)
      by (auto simp: get turns_wf_def split: if_splits)
    show "\<exists>t. bt_get (cs_turns s') (it_turn_id y) = Some t \<and> i \<in> set (tu_item_ids t)"
      if "bt_get (cs_items s') i = Some y" for i y
      using that items [of i y] 1(5) by simp
  qed
qed

lemma apply_item_wf:
  assumes "turns_wf s" "maps_wf s" "apply_item x s = Inr s'"
  shows "turns_wf s'"
  using assms(3)
proof (cases rule: apply_item_ok)
  case (1 turn)
  let ?t = "turn\<lparr>tu_item_ids := push_new (tu_item_ids turn) (it_id x)\<rparr>"
  have get: "bt_get (cs_turns s') i = (if i = it_turn_id x then Some ?t else bt_get (cs_turns s) i)" for i
    using 1 by simp
  have origin: "\<exists>v. bt_get (cs_turns s) i = Some v \<and> tu_origin v = tu_origin t"
    if "bt_get (cs_turns s') i = Some t" for i t
    using that 1(1) by (auto simp: get split: if_splits)
  show ?thesis
    unfolding turns_wf_def
  proof (intro conjI allI impI)
    show "turn_validate t = ok" if "bt_get (cs_turns s') i = Some t" for i t
      using that 1(2) assms(1) by (auto simp: get turns_wf_def split: if_splits)
    show "i = j" if "bt_get (cs_turns s') i = Some t \<and> bt_get (cs_turns s') j = Some u
        \<and> tu_origin t = RemoteCommand c \<and> tu_origin u = RemoteCommand c" for i j t u c
      using that origin [of i t] origin [of j u] assms(1) unfolding turns_wf_def by metis
    show "\<exists>t. bt_get (cs_turns s') (it_turn_id y) = Some t \<and> i \<in> set (tu_item_ids t)"
      if "bt_get (cs_items s') i = Some y" for i y
    proof (cases "i = it_id x")
      case True
      with that 1(3) have "y = x"
        by simp
      with True show ?thesis
        by (simp add: get)
    next
      case False
      with that 1(3) have "bt_get (cs_items s) i = Some y"
        by simp
      with assms(1) obtain t where "bt_get (cs_turns s) (it_turn_id y) = Some t" "i \<in> set (tu_item_ids t)"
        by (rule turns_wf_item)
      with 1(1) show ?thesis
        by (auto simp: get)
    qed
  qed
qed

lemma apply_effect_turns:
  assumes "turns_wf s" "maps_wf s" "apply_effect e s = Inr s'"
  shows "turns_wf s'"
proof (cases "(\<forall>t. e \<noteq> TurnUpserted t) \<and> (\<forall>i. e \<noteq> ItemUpserted i)")
  case True
  with apply_effect_frame_turns [OF assms(3)] assms(1) show ?thesis
    by (simp add: turns_wf_def)
next
  case False
  with assms show ?thesis
    by (auto intro: apply_turn_wf apply_item_wf)
qed

subsection \<open>Acknowledgements\<close>

lemma apply_effect_acks_extend:
  assumes "apply_effect e s = Inr s'"
  shows "cs_acks s' = cs_acks s @ (case e of CommandAcknowledged a \<Rightarrow> [a] | _ \<Rightarrow> [])"
proof (cases e)
  case (ProjectUpserted p)
  with assms show ?thesis
    by (cases rule: apply_project_ok [of p s]) auto
next
  case (QueueReordered sid order)
  with assms show ?thesis
    by (auto simp: apply_reorder_def)
qed (use assms in \<open>auto simp: applied elim!: apply_session_ok apply_turn_ok apply_item_ok\<close>)

lemma remote_command_turn_ok:
  "remote_command_turn s cid = Inr t \<Longrightarrow> t \<in> set (bt_values (cs_turns s)) \<and> tu_origin t = RemoteCommand cid"
proof -
  assume "remote_command_turn s cid = Inr t"
  then have "remote_turns s cid = [t]"
    by (auto simp: remote_command_turn_def split: list.splits)
  then have "t \<in> set (remote_turns s cid)"
    by simp
  then show ?thesis
    by (simp add: remote_turns_def)
qed

lemma runtime_ack_check_ok:
  assumes "runtime_ack_check cid out s = ok" "out = AcceptedByRuntime sid k h"
  shows "acked is_accepted_locally cid (cs_acks s) \<and> \<not> acked reached_runtime cid (cs_acks s)
    \<and> (k = PromptTurn \<longrightarrow> (\<exists>t \<in> set (bt_values (cs_turns s)). tu_origin t = RemoteCommand cid \<and> tu_session_id t = sid))"
proof -
  from assms have "acked is_accepted_locally cid (cs_acks s)" "\<not> acked reached_runtime cid (cs_acks s)"
    and "k = PromptTurn \<longrightarrow> (\<exists>t. remote_command_turn s cid = Inr t \<and> tu_session_id t = sid)"
    by (auto simp: and_then_ok split: if_splits)
  then show ?thesis
    using remote_command_turn_ok [of s cid] by blast
qed

lemma reached_runtime_cases:
  assumes "reached_runtime out"
  obtains sid k h where "out = AcceptedByRuntime sid k h"
  using assms by (cases out) auto

lemma split_snoc: "xs @ a # ys = zs @ [b] \<Longrightarrow> (\<exists>ys'. zs = xs @ a # ys') \<or> (xs = zs \<and> a = b)"
  by (cases ys rule: rev_cases) auto

lemma apply_effect_acks:
  assumes "acks_wf s" "maps_wf s" "apply_effect e s = Inr s'"
  shows "acks_wf s'"
proof -
  have new: "runtime_ack_check (ack_command_id b) (ack_outcome b) s = ok"
    if "cs_acks s' = cs_acks s @ [b]" for b
  proof (cases e)
    case (CommandAcknowledged a)
    with assms(3) that show ?thesis
      by (simp add: applied)
  qed (use apply_effect_acks_extend [OF assms(3)] that in auto)
  have old: "cs_acks s' = cs_acks s \<or> (\<exists>b. cs_acks s' = cs_acks s @ [b])"
    using apply_effect_acks_extend [OF assms(3)] by (cases e) auto
  have turns: "\<exists>i u. bt_get (cs_turns s') i = Some u \<and> tu_origin u = tu_origin t \<and> tu_session_id u = tu_session_id t"
    if "bt_get (cs_turns s) i = Some t" for i t
    using apply_effect_turn_extends [OF assms(3,2) that] by (auto simp: turn_extends_def)
  show ?thesis
    unfolding acks_wf_def
  proof (rule conjI; intro allI impI)
    show "acked is_accepted_locally (ack_command_id a) xs \<and> \<not> acked reached_runtime (ack_command_id a) xs"
      if split: "cs_acks s' = xs @ a # ys \<and> reached_runtime (ack_outcome a)" for xs a ys
    proof (cases "\<exists>ys'. cs_acks s = xs @ a # ys'")
      case True
      with assms(1) split show ?thesis
        unfolding acks_wf_def by blast
    next
      case False
      moreover from False old split obtain b where "xs @ a # ys = cs_acks s @ [b]" "cs_acks s' = cs_acks s @ [b]"
        by metis
      ultimately have "cs_acks s' = cs_acks s @ [a]" "xs = cs_acks s"
        using split_snoc by metis+
      with new [of a] split show ?thesis
        by (auto elim!: reached_runtime_cases dest: runtime_ack_check_ok)
    qed
    show "\<exists>i t. bt_get (cs_turns s') i = Some t \<and> tu_origin t = RemoteCommand (ack_command_id a) \<and> tu_session_id t = sid"
      if a: "a \<in> set (cs_acks s') \<and> ack_outcome a = AcceptedByRuntime sid PromptTurn h" for a sid h
    proof (cases "a \<in> set (cs_acks s)")
      case True
      with a assms(1) obtain i t where "bt_get (cs_turns s) i = Some t"
        "tu_origin t = RemoteCommand (ack_command_id a)" "tu_session_id t = sid"
        unfolding acks_wf_def by blast
      then show ?thesis
        using turns by metis
    next
      case False
      with old a have "cs_acks s' = cs_acks s @ [a]"
        by auto
      from runtime_ack_check_ok [OF new [OF this]] a obtain t where t: "t \<in> set (bt_values (cs_turns s))"
        "tu_origin t = RemoteCommand (ack_command_id a)" "tu_session_id t = sid"
        by blast
      then have "bt_get (cs_turns s) (tu_id t) = Some t"
        using keyed_values_iff [OF maps_wfD(5) [OF assms(2)]] by blast
      with t show ?thesis
        using turns by metis
    qed
  qed
qed

subsection \<open>Live control\<close>

lemma runtime_accepted_mono: "set (cs_acks s) \<subseteq> set (cs_acks s') \<Longrightarrow> runtime_accepted s rid \<Longrightarrow> runtime_accepted s' rid"
  unfolding runtime_accepted_def by blast

lemma session_accepted_mono: "set (cs_acks s) \<subseteq> set (cs_acks s') \<Longrightarrow> session_accepted s i \<Longrightarrow> session_accepted s' i"
  unfolding session_accepted_def by blast

lemma accepted_outcome_iff: "accepted_outcome out = Some (sid, h) \<longleftrightarrow> (\<exists>k. out = AcceptedByRuntime sid k h)"
  by (cases out) auto

lemma accepted_runtime_session_ok:
  assumes "accepted_runtime_session s a rid = Some x"
  obtains sid k h where "ack_outcome a = AcceptedByRuntime sid k h" "bh_runtime_id h = rid"
    "bt_get (cs_sessions s) sid = Some x"
  using assms by (auto simp: accepted_runtime_session_def accepted_outcome_iff Option.bind_eq_Some_conv
      split: option.splits if_splits prod.splits)

lemma has_runtime_acceptance_ok: "has_runtime_acceptance_for s rid \<Longrightarrow> runtime_accepted s rid"
  unfolding has_runtime_acceptance_for_def runtime_accepted_def list_ex_iff
  by (fastforce elim: accepted_runtime_session_ok)

lemma controlling_accepted_ok:
  assumes "controlling_accepted s x rid" "maps_wf s"
  shows "session_accepted s (se_id x)"
proof -
  from assms(1) obtain a y where a: "a \<in> set (cs_acks s)" "accepted_runtime_session s a rid = Some y" "se_id y = se_id x"
    by (auto simp: controlling_accepted_def list_ex_iff is_some_and_iff)
  from a(2) obtain sid k h where "ack_outcome a = AcceptedByRuntime sid k h" "bt_get (cs_sessions s) sid = Some y"
    by (rule accepted_runtime_session_ok)
  moreover from this assms(2) have "se_id y = sid"
    by (auto simp: maps_wf_def intro: keyed_get [of se_id "cs_sessions s"])
  ultimately show ?thesis
    using a unfolding session_accepted_def by auto
qed

lemma session_live_check_ok:
  "session_live_check x s = Inr u \<Longrightarrow> accepts_control (se_live_binding x) \<Longrightarrow>
     \<exists>r. live_runtime_of s x = Inr r \<and> controlling_accepted s x (rt_id r)"
  by (auto simp: session_live_check_def and_then_ok split: if_splits)

lemma apply_effect_runtimes:
  assumes "apply_effect e s = Inr s'" "bt_get (cs_runtimes s') i = Some r"
  shows "bt_get (cs_runtimes s) i = Some r
    \<or> (permits (rt_capabilities r) LiveControl \<longrightarrow> has_runtime_acceptance_for s i)"
proof (cases e)
  case (ProjectUpserted p)
  with assms show ?thesis
    by (cases rule: apply_project_ok [of p s]) auto
next
  case (QueueReordered sid order)
  with assms show ?thesis
    by (auto simp: apply_reorder_def)
qed (use assms in \<open>auto simp: applied split: if_splits elim!: apply_session_ok apply_turn_ok apply_item_ok\<close>)

lemma apply_effect_sessions:
  assumes "apply_effect e s = Inr s'" "bt_get (cs_sessions s') i = Some x"
  shows "bt_get (cs_sessions s) i = Some x
    \<or> (\<exists>y. i = se_id y \<and> se_live_binding x = se_live_binding y \<and> session_live_check y s = ok)"
proof (cases e)
  case (ProjectUpserted p)
  with assms show ?thesis
    by (cases rule: apply_project_ok [of p s]) auto
next
  case (QueueReordered sid order)
  with assms show ?thesis
    by (auto simp: apply_reorder_def)
next
  case (SessionUpserted y)
  with assms(1) have "apply_session y s = Inr s'"
    by simp
  then show ?thesis
    by (cases rule: apply_session_ok) (use assms(2) in \<open>auto split: if_splits\<close>)
qed (use assms in \<open>auto simp: applied elim!: apply_turn_ok apply_item_ok\<close>)

lemma apply_effect_live:
  assumes "live_wf s" "maps_wf s" "apply_effect e s = Inr s'"
  shows "live_wf s'"
proof -
  have acks: "set (cs_acks s) \<subseteq> set (cs_acks s')"
    using apply_effect_acks_extend [OF assms(3)] by simp
  show ?thesis
    unfolding live_wf_def
  proof (intro conjI allI impI)
    show "runtime_accepted s' i" if r: "bt_get (cs_runtimes s') i = Some r \<and> permits (rt_capabilities r) LiveControl" for i r
    proof -
      from r apply_effect_runtimes [OF assms(3)] have "bt_get (cs_runtimes s) i = Some r \<or> has_runtime_acceptance_for s i"
        by blast
      with r assms(1) have "runtime_accepted s i"
        unfolding live_wf_def using has_runtime_acceptance_ok by blast
      with acks show ?thesis
        by (rule runtime_accepted_mono)
    qed
    show "session_accepted s' i" if x: "bt_get (cs_sessions s') i = Some x \<and> accepts_control (se_live_binding x)" for i x
    proof -
      consider "bt_get (cs_sessions s) i = Some x"
        | y where "i = se_id y" "se_live_binding x = se_live_binding y" "session_live_check y s = ok"
        using x apply_effect_sessions [OF assms(3), of i x] by blast
      then have "session_accepted s i"
      proof cases
        case 1
        with x assms(1) show ?thesis
          unfolding live_wf_def by blast
      next
        case (2 y)
        with x obtain r :: provider_runtime where "controlling_accepted s y (rt_id r)"
          using session_live_check_ok [of y s] by metis
        then have "session_accepted s (se_id y)"
          using assms(2) by (rule controlling_accepted_ok)
        with 2 show ?thesis
          by simp
      qed
      with acks show ?thesis
        by (rule session_accepted_mono)
    qed
  qed
qed

section \<open>Derived fields keep the invariant\<close>

lemma recompute_frame:
  assumes "maps_wf s"
  shows "recompute_derived s = derive_projects (derive_sessions s)"
  using assms by (intro recompute_derived_eq keyed_wf) (auto dest: maps_wfD)

lemma recompute_maps: "maps_wf s \<Longrightarrow> maps_wf (recompute_derived s)"
  by (simp add: recompute_frame) (simp add: maps_wf_def derive_projects_def derive_sessions_def)

lemma recompute_orders: "maps_wf s \<Longrightarrow> orders_wf s \<Longrightarrow> orders_wf (recompute_derived s)"
  by (simp add: recompute_frame) (simp add: orders_wf_def derive_projects_def derive_sessions_def)

lemma recompute_turns: "maps_wf s \<Longrightarrow> turns_wf s \<Longrightarrow> turns_wf (recompute_derived s)"
  by (simp add: recompute_frame) (simp add: turns_wf_def derive_projects_def derive_sessions_def)

lemma recompute_acks: "maps_wf s \<Longrightarrow> acks_wf s \<Longrightarrow> acks_wf (recompute_derived s)"
  by (simp add: recompute_frame) (simp add: acks_wf_def derive_projects_def derive_sessions_def)

lemma recompute_live:
  assumes "maps_wf s" "live_wf s"
  shows "live_wf (recompute_derived s)"
proof -
  let ?d = "derive_projects (derive_sessions s)"
  have "runtime_accepted ?d = runtime_accepted s" "session_accepted ?d = session_accepted s"
    by (intro ext, simp add: runtime_accepted_def session_accepted_def derive_projects_def derive_sessions_def)+
  moreover have "\<exists>y. bt_get (cs_sessions s) i = Some y \<and> se_live_binding y = se_live_binding x"
    if "bt_get (cs_sessions ?d) i = Some x" for i x
    using that by (auto simp: derive_projects_def derive_sessions_def)
  moreover have "cs_runtimes ?d = cs_runtimes s"
    by (simp add: derive_projects_def derive_sessions_def)
  ultimately show ?thesis
    using assms(2) unfolding recompute_frame [OF assms(1)] live_wf_def by fastforce
qed

lemma recompute_derived_wf: "maps_wf s \<Longrightarrow> derived_wf (recompute_derived s)"
  unfolding derived_wf_def by (rule recompute_derived_idem) (auto dest: maps_wfD intro: keyed_wf)

lemma apply_state_split:
  assumes "apply_state e s = Inr s'"
  obtains t where "apply_effect e s = Inr t" "s' = recompute_derived t"
  using assms by (auto simp: apply_state_def and_then_ok)

lemma apply_state_wf:
  assumes "wf_state s" "apply_state e s = Inr s'"
  shows "wf_state s'"
  using assms(2)
proof (cases rule: apply_state_split)
  case (1 t)
  from assms(1) have s: "maps_wf s" "orders_wf s" "turns_wf s" "acks_wf s" "live_wf s"
    by (simp_all add: wf_state_def)
  have "maps_wf t" "orders_wf t" "turns_wf t" "acks_wf t" "live_wf t"
    using s 1(1) apply_effect_maps apply_effect_orders apply_effect_turns apply_effect_acks apply_effect_live
    by blast+
  then show ?thesis
    by (simp add: 1(2) wf_state_def recompute_maps recompute_orders recompute_turns recompute_acks
        recompute_live recompute_derived_wf)
qed

lemma wf_state_default: "wf_state state_default"
  by (simp add: wf_state_def maps_wf_def orders_wf_def turns_wf_def acks_wf_def live_wf_def derived_wf_def
      state_default_def bt_keys_def recompute_derived_def recompute_project_counts_def)

section \<open>The extension order\<close>

definition state_extends :: "canonical_state \<Rightarrow> canonical_state \<Rightarrow> bool" where
  "state_extends s s' \<longleftrightarrow>
     (\<forall>i t. bt_get (cs_turns s) i = Some t \<longrightarrow> (\<exists>u. bt_get (cs_turns s') i = Some u \<and> turn_extends t u))
     \<and> (\<forall>i r. bt_get (cs_runtimes s) i = Some r \<longrightarrow>
          (\<exists>r'. bt_get (cs_runtimes s') i = Some r' \<and> rt_host_id r' = rt_host_id r))
     \<and> (\<forall>i x. bt_get (cs_sessions s) i = Some x \<longrightarrow>
          (\<exists>x'. bt_get (cs_sessions s') i = Some x' \<and> se_created_at_ms x' = se_created_at_ms x))
     \<and> (\<forall>i p. bt_get (cs_projects s) i = Some p \<longrightarrow>
          (\<exists>p'. bt_get (cs_projects s') i = Some p' \<and> prefix (map pb_id (pj_bindings p)) (map pb_id (pj_bindings p'))
             \<and> pj_last_activity_at_ms p \<le> pj_last_activity_at_ms p'))
     \<and> set (bt_keys (cs_items s)) \<subseteq> set (bt_keys (cs_items s'))
     \<and> set (bt_keys (cs_queue s)) \<subseteq> set (bt_keys (cs_queue s'))
     \<and> prefix (cs_acks s) (cs_acks s') \<and> prefix (cs_turn_order s) (cs_turn_order s')
     \<and> prefix (cs_attention_order s) (cs_attention_order s')"

lemma state_extends_refl: "state_extends s s"
  by (simp add: state_extends_def)

lemma state_extendsD:
  assumes "state_extends s s'"
  shows "bt_get (cs_turns s) i = Some t \<Longrightarrow> \<exists>u. bt_get (cs_turns s') i = Some u \<and> turn_extends t u"
    and "bt_get (cs_runtimes s) i = Some r \<Longrightarrow>
      \<exists>r'. bt_get (cs_runtimes s') i = Some r' \<and> rt_host_id r' = rt_host_id r"
    and "bt_get (cs_sessions s) i = Some x \<Longrightarrow>
      \<exists>x'. bt_get (cs_sessions s') i = Some x' \<and> se_created_at_ms x' = se_created_at_ms x"
    and "bt_get (cs_projects s) i = Some p \<Longrightarrow>
      \<exists>p'. bt_get (cs_projects s') i = Some p' \<and> prefix (map pb_id (pj_bindings p)) (map pb_id (pj_bindings p'))
        \<and> pj_last_activity_at_ms p \<le> pj_last_activity_at_ms p'"
  using assms by (simp_all add: state_extends_def)

lemma state_extends_trans:
  assumes st: "state_extends s t" and tu: "state_extends t u"
  shows "state_extends s u"
  unfolding state_extends_def
proof (intro conjI allI impI)
  show "\<exists>w. bt_get (cs_turns u) i = Some w \<and> turn_extends v w" if "bt_get (cs_turns s) i = Some v" for i v
    using state_extendsD(1) [OF st that] state_extendsD(1) [OF tu] turn_extends_trans by blast
  show "\<exists>w. bt_get (cs_runtimes u) i = Some w \<and> rt_host_id w = rt_host_id v"
    if "bt_get (cs_runtimes s) i = Some v" for i v
    using state_extendsD(2) [OF st that] state_extendsD(2) [OF tu] by fastforce
  show "\<exists>w. bt_get (cs_sessions u) i = Some w \<and> se_created_at_ms w = se_created_at_ms v"
    if "bt_get (cs_sessions s) i = Some v" for i v
    using state_extendsD(3) [OF st that] state_extendsD(3) [OF tu] by fastforce
  show "\<exists>w. bt_get (cs_projects u) i = Some w \<and> prefix (map pb_id (pj_bindings v)) (map pb_id (pj_bindings w))
      \<and> pj_last_activity_at_ms v \<le> pj_last_activity_at_ms w" if "bt_get (cs_projects s) i = Some v" for i v
    using state_extendsD(4) [OF st that] state_extendsD(4) [OF tu] by (meson order_trans prefix_order.trans)
qed (use st tu in \<open>auto simp: state_extends_def\<close>)

lemma map_merge_binding: "map pb_id (merge_binding b bs) = push_new (map pb_id bs) (pb_id b)"
  by (induction bs) (auto simp: push_new_def)

lemma map_fold_merge_binding: "map pb_id (fold merge_binding xs bs) = foldl push_new (map pb_id bs) (map pb_id xs)"
  by (induction xs arbitrary: bs) (simp_all add: map_merge_binding)

lemma fold_bt_adjust_preserves_keys: "bt_keys (fold (\<lambda>x. bt_adjust (g x) (f x)) xs m) = bt_keys m"
  by (induction xs arbitrary: m) simp_all

lemma extends_if_frame:
  assumes "cs_turns s' = cs_turns s" "cs_runtimes s' = cs_runtimes s" "cs_sessions s' = cs_sessions s"
    "cs_projects s' = cs_projects s" "set (bt_keys (cs_items s)) \<subseteq> set (bt_keys (cs_items s'))"
    "set (bt_keys (cs_queue s)) \<subseteq> set (bt_keys (cs_queue s'))" "prefix (cs_acks s) (cs_acks s')"
    "cs_turn_order s' = cs_turn_order s" "prefix (cs_attention_order s) (cs_attention_order s')"
  shows "state_extends s s'"
  using assms by (simp add: state_extends_def)

lemma apply_effect_extends:
  assumes "maps_wf s" "apply_effect e s = Inr s'"
  shows "state_extends s s'"
proof (cases e)
  case (RuntimeUpserted r)
  with assms show ?thesis
    by (auto simp: state_extends_def applied)
next
  case (CapabilitiesUpdated c)
  with assms show ?thesis
    by (auto simp: state_extends_def applied)
next
  case (ProjectUpserted p)
  show ?thesis
  proof (cases rule: apply_project_ok [of p s])
    case (1 merged)
    with assms ProjectUpserted have s': "s' = s\<lparr>cs_projects := bt_insert (pj_id p) merged (cs_projects s)\<rparr>"
      by simp
    from 1(3) have "prefix (map pb_id (pj_bindings q)) (map pb_id (pj_bindings merged))
        \<and> pj_last_activity_at_ms q \<le> pj_last_activity_at_ms merged"
      if "bt_get (cs_projects s) (pj_id p) = Some q" for q
      using that by (simp add: map_fold_merge_binding)
    then show ?thesis
      by (auto simp: state_extends_def s')
  qed
next
  case (SessionUpserted x)
  with assms have "apply_session x s = Inr s'"
    by simp
  then show ?thesis
    by (cases rule: apply_session_ok) (auto simp: state_extends_def)
next
  case (TurnUpserted t)
  with assms have *: "apply_turn t s = Inr s'"
    by simp
  have "\<exists>u. bt_get (cs_turns s') i = Some u \<and> turn_extends v u" if "bt_get (cs_turns s) i = Some v" for i v
    using apply_effect_turn_extends [OF assms(2,1) that] .
  with * show ?thesis
    by (cases rule: apply_turn_ok) (auto simp: state_extends_def)
next
  case (ItemUpserted i)
  with assms have *: "apply_item i s = Inr s'"
    by simp
  have "\<exists>u. bt_get (cs_turns s') i = Some u \<and> turn_extends v u" if "bt_get (cs_turns s) i = Some v" for i v
    using apply_effect_turn_extends [OF assms(2,1) that] .
  with * show ?thesis
    by (cases rule: apply_item_ok) (auto simp: state_extends_def)
next
  case (QueueReordered sid order)
  with assms show ?thesis
    by (auto simp: apply_reorder_def case_prod_beta' fold_bt_adjust_preserves_keys intro!: extends_if_frame)
qed (use assms in \<open>auto simp: applied intro!: extends_if_frame\<close>)

lemma recompute_extends:
  assumes "maps_wf s"
  shows "state_extends s (recompute_derived s)"
proof -
  have "pj_last_activity_at_ms p \<le> pj_last_activity_at_ms (derive_project t i p)" for t i p
    by (simp add: derive_project_def Let_def split: prod.split)
  then show ?thesis
    unfolding recompute_frame [OF assms]
    by (auto simp: state_extends_def derive_projects_def derive_sessions_def)
qed

lemma apply_state_extends:
  assumes "wf_state s" "apply_state e s = Inr s'"
  shows "state_extends s s'"
  using assms(2)
proof (cases rule: apply_state_split)
  case (1 t)
  from assms(1) have "maps_wf s"
    by (simp add: wf_state_def)
  with 1(1) have "state_extends s t" "maps_wf t"
    using apply_effect_extends apply_effect_maps by blast+
  then show ?thesis
    using recompute_extends state_extends_trans 1(2) by blast
qed

interpretation canon: effect_system state_default apply_state wf_state state_extends
  by unfold_locales
     (auto intro: wf_state_default apply_state_wf state_extends_refl state_extends_trans apply_state_extends)

end
