(* ===== verification/State_Properties.thy ===== *)
theory State_Properties
  imports State_Invariant
begin

text \<open>
  What the canonical state guarantees after any log of effects: the invariant, the order in which it
  grows, the exactness of the fields the store derives, and the correlation of acknowledgements.
\<close>

section \<open>Replaying a log of effects\<close>

definition replay_effects :: "state_effect list \<Rightarrow> canonical_state state_result" where
  "replay_effects es = try_fold apply_state es state_default"

lemma replay_wf: "replay_effects es = Inr s \<Longrightarrow> wf_state s"
  unfolding replay_effects_def by (rule canon.replay_inv)

lemma replay_maps: "replay_effects es = Inr s \<Longrightarrow> maps_wf s"
  using replay_wf by (auto simp: wf_state_def)

section \<open>Counting\<close>

lemma distinct_singleton: "distinct xs \<Longrightarrow> set xs = {x} \<Longrightarrow> xs = [x]"
  by (cases xs; cases "tl xs") (auto simp: insert_eq_iff)

lemma bt_count:
  assumes "bt_wf m"
  shows "length (filter P (bt_values m)) = card {k. \<exists>v. bt_get m k = Some v \<and> P v}"
proof -
  have "{k. \<exists>v. bt_get m k = Some v \<and> P v} = set (map fst (filter (\<lambda>e. P (snd e)) m))"
    using assms by (force simp: bt_get_mem)
  moreover have "distinct (map fst (filter (\<lambda>e. P (snd e)) m))"
    using bt_keys_distinct [OF assms] by (simp add: bt_keys_def distinct_map_filter)
  ultimately have "card {k. \<exists>v. bt_get m k = Some v \<and> P v} = length (filter (\<lambda>e. P (snd e)) m)"
    by (metis distinct_card length_map)
  also have "\<dots> = length (filter P (bt_values m))"
    by (simp add: bt_values_def filter_map o_def)
  finally show ?thesis by simp
qed

lemma bt_ex:
  assumes "bt_wf m"
  shows "list_ex P (bt_values m) \<longleftrightarrow> (\<exists>k v. bt_get m k = Some v \<and> P v)"
  unfolding list_ex_iff Bex_def bt_values_iff [OF assms] by blast

lemma filter_map_filter:
  "filter P (List.map_filter f xs) = map (the \<circ> f) (filter (\<lambda>x. \<exists>v. f x = Some v \<and> P v) xs)"
  by (induction xs) (auto simp: List.map_filter_simps split: option.splits)

lemma last_filter_split:
  assumes "filter P xs \<noteq> []"
  shows "\<exists>ys zs. xs = ys @ last (filter P xs) # zs \<and> P (last (filter P xs)) \<and> (\<forall>z \<in> set zs. \<not> P z)"
  using assms
proof (induction xs rule: rev_induct)
  case (snoc x xs)
  show ?case
  proof (cases "P x")
    case True
    then show ?thesis
      by (intro exI [of _ xs] exI [of _ "[]"]) simp
  next
    case False
    with snoc obtain ys zs where "xs = ys @ last (filter P xs) # zs" "P (last (filter P xs))" "\<forall>z \<in> set zs. \<not> P z"
      by auto
    with False show ?thesis
      by (intro exI [of _ ys] exI [of _ "zs @ [x]"]) auto
  qed
qed simp

section \<open>Derived fields of a session\<close>

definition open_turn :: "canonical_state \<Rightarrow> session_id \<Rightarrow> turn_id \<Rightarrow> bool" where
  "open_turn s sid i \<longleftrightarrow> (\<exists>t. bt_get (cs_turns s) i = Some t \<and> tu_session_id t = sid \<and> \<not> turn_is_terminal (tu_status t))"

lemma active_turn_of_eq:
  assumes "keyed tu_id (cs_turns s)"
  shows "active_turn_of s sid =
    (if filter (open_turn s sid) (cs_turn_order s) = [] then None
     else Some (last (filter (open_turn s sid) (cs_turn_order s))))"
proof -
  let ?ids = "filter (open_turn s sid) (cs_turn_order s)"
  have "filter (\<lambda>t. \<not> turn_is_terminal (tu_status t)) (turns_of s sid) =
      filter (\<lambda>t. tu_session_id t = sid \<and> \<not> turn_is_terminal (tu_status t))
        (List.map_filter (bt_get (cs_turns s)) (cs_turn_order s))"
    by (simp add: turns_of_def conj_commute)
  also have "\<dots> = map (the \<circ> bt_get (cs_turns s)) ?ids"
    by (simp add: filter_map_filter open_turn_def [abs_def])
  finally have eq: "filter (\<lambda>t. \<not> turn_is_terminal (tu_status t)) (turns_of s sid) = map (the \<circ> bt_get (cs_turns s)) ?ids" .
  have "tu_id (the (bt_get (cs_turns s) i)) = i" if "i \<in> set ?ids" for i
    using that assms by (auto simp: open_turn_def intro: keyed_get)
  moreover have "last ?ids \<in> set ?ids" if "?ids \<noteq> []"
    using that by (rule last_in_set)
  ultimately show ?thesis
    unfolding active_turn_of_def eq by (auto simp: last_map split: list.split)
qed

lemma active_turn_of_None:
  assumes "wf_state s"
  shows "active_turn_of s sid = None \<longleftrightarrow> (\<nexists>i. open_turn s sid i)"
proof -
  have "open_turn s sid i \<Longrightarrow> i \<in> set (cs_turn_order s)" for i
    using assms by (auto simp: wf_state_def orders_wf_def bt_keys_iff open_turn_def)
  moreover have "keyed tu_id (cs_turns s)"
    using assms by (simp add: wf_state_def maps_wfD)
  ultimately show ?thesis
    by (auto simp: active_turn_of_eq filter_empty_conv)
qed

lemma active_turn_of_Some:
  assumes "wf_state s" "active_turn_of s sid = Some i"
  shows "open_turn s sid i \<and> (\<exists>xs ys. cs_turn_order s = xs @ i # ys \<and> (\<forall>j \<in> set ys. \<not> open_turn s sid j))"
proof -
  have "keyed tu_id (cs_turns s)"
    using assms(1) by (simp add: wf_state_def maps_wfD)
  with assms(2) have "filter (open_turn s sid) (cs_turn_order s) \<noteq> []"
    "i = last (filter (open_turn s sid) (cs_turn_order s))"
    by (simp_all add: active_turn_of_eq split: if_splits)
  then show ?thesis
    using last_filter_split [of "open_turn s sid" "cs_turn_order s"] by auto
qed

lemma derived_frame:
  assumes "wf_state s"
  shows "derive_sessions s = s" "derive_projects s = s"
proof -
  have eq: "derive_projects (derive_sessions s) = s"
    using assms recompute_frame [of s] by (simp add: wf_state_def derived_wf_def)
  have "cs_sessions (derive_projects (derive_sessions s)) = cs_sessions (derive_sessions s)"
    by (simp add: derive_projects_def)
  then have "cs_sessions (derive_sessions s) = cs_sessions s"
    by (simp add: eq)
  then show "derive_sessions s = s"
    by (simp add: derive_sessions_def)
  with eq show "derive_projects s = s"
    by simp
qed

lemma derived_session:
  assumes "wf_state s" "bt_get (cs_sessions s) i = Some x"
  shows "derive_session s i x = x"
proof -
  have "bt_map (derive_session s) (cs_sessions s) = cs_sessions (derive_sessions s)"
    by (simp add: derive_sessions_def)
  then show ?thesis
    using assms(2) bt_get_map [of "derive_session s" "cs_sessions s" i]
    by (simp add: derived_frame(1) [OF assms(1)])
qed

text \<open>The inputs of the status, stated over the state instead of computed from it.\<close>

definition open_attention :: "canonical_state \<Rightarrow> session_id \<Rightarrow> attention_id \<Rightarrow> attention_item \<Rightarrow> bool" where
  "open_attention s sid k a \<longleftrightarrow> bt_get (cs_attention s) k = Some a \<and> at_session_id a = Some sid \<and> at_state a = Attention_Open"

definition session_depends :: "canonical_state \<Rightarrow> session \<Rightarrow> status_inputs" where
  "session_depends s x =
     \<lparr>si_runtime_usable = (\<exists>r. runtime_of s x = Some r \<and> is_usable (rt_connection r)),
      si_has_active_turn = ((\<exists>i. open_turn s (se_id x) i)
        \<or> bt_get (cs_reported_status s) (se_id x) = Some Session_Running),
      si_open_approval = (\<exists>k a r. open_attention s (se_id x) k a \<and> at_subject a = Approval r),
      si_open_question = (\<exists>k a r. open_attention s (se_id x) k a \<and> at_subject a = Question r),
      si_pending_queue_entries = se_queue_depth x,
      si_terminal = terminal_status (bt_get (cs_reported_status s) (se_id x))\<rparr>"

lemma is_approval_iff: "is_approval a \<longleftrightarrow> (\<exists>r. a = Approval r)"
  by (cases a) auto

lemma is_question_iff: "is_question a \<longleftrightarrow> (\<exists>r. a = Question r)"
  by (cases a) auto

lemma open_attention_of_ex:
  assumes "wf_state s"
  shows "list_ex P (open_attention_of s sid) \<longleftrightarrow> (\<exists>k a. open_attention s sid k a \<and> P a)"
proof -
  have "bt_wf (cs_attention s)"
    using assms by (auto simp: wf_state_def dest: maps_wfD keyed_wf)
  then have "a \<in> set (open_attention_of s sid) \<longleftrightarrow> (\<exists>k. open_attention s sid k a)" for a
    by (auto simp: open_attention_of_def open_attention_def attention_is_open_def bt_values_iff)
  then show ?thesis
    unfolding list_ex_iff by blast
qed

lemma derive_session_fields:
  "se_active_turn_id (derive_session s sid x) = active_turn_of s sid"
  "se_queue_depth (derive_session s sid x) = u32_of_count (length
     (filter (\<lambda>e. qe_session_id e = sid \<and> is_pending (qe_state e)) (bt_values (cs_queue s))))"
  "se_open_attention_count (derive_session s sid x) = u32_of_count (length (open_attention_of s sid))"
  "last_activity_of s sid \<le> se_last_activity_at_ms (derive_session s sid x)"
  by (simp_all add: derive_session_def Let_def)

lemma derive_session_status_field:
  "se_status (derive_session s sid x) = derive_session_status
     \<lparr>si_runtime_usable = is_some_and (\<lambda>r. is_usable (rt_connection r)) (runtime_of s x),
      si_has_active_turn = (active_turn_of s sid \<noteq> None \<or> bt_get (cs_reported_status s) sid = Some Session_Running),
      si_open_approval = list_ex (\<lambda>a. is_approval (at_subject a)) (open_attention_of s sid),
      si_open_question = list_ex (\<lambda>a. is_question (at_subject a)) (open_attention_of s sid),
      si_pending_queue_entries = se_queue_depth (derive_session s sid x),
      si_terminal = terminal_status (bt_get (cs_reported_status s) sid)\<rparr>"
  by (simp add: derive_session_def Let_def)

section \<open>Derived fields of a project\<close>

lemma unat_u32_le: "unat (n :: u32) \<le> 2 ^ 32 - 1"
proof -
  have "unat n < 2 ^ LENGTH(32)"
    by (rule unsigned_less)
  then show ?thesis by simp
qed

lemma fold_counter:
  fixes cnt :: "'a \<Rightarrow> nat"
  assumes "\<And>x a. cnt (g x a) = min (cnt a + of_bool (P x)) M" and "cnt a \<le> M"
  shows "cnt (fold g xs a) = min (cnt a + length (filter P xs)) M"
  using assms(2)
proof (induction xs arbitrary: a)
  case (Cons x xs)
  then show ?case
    by (simp add: assms(1) min_def)
qed simp

text \<open>Each counter of one project, as a saturated count over the sessions.\<close>

lemma count_session_step:
  "unat (sc_total (fst (count_session pid x a))) = min (unat (sc_total (fst a)) + of_bool (se_project_id x = pid)) (2 ^ 32 - 1)"
  "unat (sc_archived (fst (count_session pid x a))) =
     min (unat (sc_archived (fst a)) + of_bool (se_project_id x = pid \<and> se_archived x)) (2 ^ 32 - 1)"
  "unat (sc_running (fst (count_session pid x a))) =
     min (unat (sc_running (fst a)) + of_bool (se_project_id x = pid \<and> se_status x = Session_Running)) (2 ^ 32 - 1)"
  "unat (sc_failed (fst (count_session pid x a))) =
     min (unat (sc_failed (fst a)) + of_bool (se_project_id x = pid \<and> se_status x = Session_Failed)) (2 ^ 32 - 1)"
  "unat (sc_waiting_human (fst (count_session pid x a))) =
     min (unat (sc_waiting_human (fst a)) + of_bool (se_project_id x = pid \<and> waits_for_human (se_status x))) (2 ^ 32 - 1)"
  using unat_u32_le
  by (auto simp: count_session_def Let_def case_prod_beta unat_u32_saturating_succ waits_for_human_def min_absorb1)

lemma derive_project_fields:
  "pj_session_counts (derive_project s pid p) =
     fst (fold (count_session pid) (bt_values (cs_sessions s)) (session_counts_default, i64_MIN))"
  "pj_attention_count (derive_project s pid p) = u32_of_count (length (filter
     (\<lambda>a. at_project_id a = pid \<and> attention_is_open (at_state a)) (bt_values (cs_attention s))))"
  "pj_workflow_count (derive_project s pid p) =
     u32_of_count (length (filter (\<lambda>w. wf_project_id w = pid) (bt_values (cs_workflows s))))"
  by (simp_all add: derive_project_def Let_def split: prod.split)

lemma derived_project:
  assumes "wf_state s" "bt_get (cs_projects s) i = Some p"
  shows "derive_project s i p = p"
proof -
  have "bt_map (derive_project s) (cs_projects s) = cs_projects (derive_projects s)"
    by (simp add: derive_projects_def)
  then show ?thesis
    using assms(2) bt_get_map [of "derive_project s" "cs_projects s" i]
    by (simp add: derived_frame(2) [OF assms(1)])
qed

section \<open>A sample log\<close>

definition sample_ack :: "command_id \<Rightarrow> command_outcome \<Rightarrow> command_ack" where
  "sample_ack i out = \<lparr>ack_command_id = i, ack_outcome = out, ack_acked_at_ms = 8\<rparr>"

definition sample_control :: runtime_capabilities where
  "sample_control = sample_capabilities\<lparr>rc_entries :=
     [\<lparr>cap_capability = LiveObserve, cap_state = Supported, cap_evidence = sample_evidence\<rparr>,
      \<lparr>cap_capability = LiveControl, cap_state = Supported, cap_evidence = sample_evidence\<rparr>]\<rparr>"

definition sample_effects :: "state_effect list" where
  "sample_effects =
     [HostUpserted sample_host, RuntimeUpserted sample_runtime, ProjectUpserted sample_project,
      SessionUpserted sample_session,
      CommandAcknowledged (sample_ack ''cmd_1'' (AcceptedLocally None)),
      TurnUpserted sample_turn, ItemUpserted sample_item,
      CommandAcknowledged (sample_ack ''cmd_1''
        (AcceptedByRuntime ''ses_1'' PromptTurn (sample_handle Binding_RuntimeAcknowledgement))),
      QueueEntryUpserted (sample_entry ''q1'' 0 Queue_Pending),
      QueueEntryUpserted (sample_entry ''q2'' 1 Queue_Pending),
      AttentionUpserted sample_question]"

definition sample_state :: canonical_state where
  "sample_state = (case replay_effects sample_effects of Inr s \<Rightarrow> s | Inl _ \<Rightarrow> state_default)"

lemma sample_replay: "replay_effects sample_effects = Inr sample_state"
proof -
  have "is_ok (replay_effects sample_effects)"
    unfolding is_ok_def by code_simp
  then show ?thesis
    by (auto simp: sample_state_def is_ok_def split: sum.splits)
qed

section \<open>Properties\<close>

text \<open>
  C1: the invariant of the canonical state. After any log of effects that applies, every map is in
  strict key order with each value under its own identifier, the observation orders list exactly the
  stored turns and attention entries once each, every stored turn validates, a remote command owns at
  most one turn, every item is listed by its turn, and recomputing the derived fields changes nothing.
\<close>

theorem replay_invariant:
  assumes "replay_effects es = Inr s"
  shows "maps_wf s \<and> orders_wf s \<and> turns_wf s \<and> recompute_derived s = s"
  using replay_wf [OF assms] by (simp add: wf_state_def derived_wf_def)

theorem replay_invariant_witness: "turns_wf sample_state \<and> recompute_derived sample_state = sample_state"
  using replay_invariant [OF sample_replay] by blast



text \<open>
  C3: correlation of acknowledgements. In any reachable state, a command's runtime acceptance comes
  after its local acceptance and is recorded at most once; a prompt's runtime acceptance has its turn,
  in the accepted session, and looking that turn up succeeds and is never ambiguous.
\<close>

theorem acknowledgements_correlated:
  assumes "replay_effects es = Inr s" and "cs_acks s = xs @ a # ys"
    and "ack_outcome a = AcceptedByRuntime sid k h"
  shows "acked is_accepted_locally (ack_command_id a) xs
    \<and> \<not> acked reached_runtime (ack_command_id a) (xs @ ys)
    \<and> (k = PromptTurn \<longrightarrow> (\<exists>t. remote_command_turn s (ack_command_id a) = Inr t \<and> tu_session_id t = sid))"
proof -
  let ?cid = "ack_command_id a"
  from replay_wf [OF assms(1)] have wf: "maps_wf s" "turns_wf s" "acks_wf s"
    by (simp_all add: wf_state_def)
  have before: "acked is_accepted_locally (ack_command_id b) us \<and> \<not> acked reached_runtime (ack_command_id b) us"
    if "cs_acks s = us @ b # vs" "reached_runtime (ack_outcome b)" for us b vs
    using wf(3) that unfolding acks_wf_def by blast
  have "\<not> acked reached_runtime ?cid ys"
  proof
    assume "acked reached_runtime ?cid ys"
    then obtain b where b: "b \<in> set ys" "ack_command_id b = ?cid" "reached_runtime (ack_outcome b)"
      by (auto simp: acked_def list_ex_iff)
    then obtain us vs where "ys = us @ b # vs"
      by (meson split_list)
    with before [of "xs @ a # us" b vs] assms b show False
      by (auto simp: acked_def)
  qed
  moreover have "\<exists>t. remote_command_turn s ?cid = Inr t \<and> tu_session_id t = sid" if "k = PromptTurn"
  proof -
    from wf(3) assms(2,3) that obtain i t where t: "bt_get (cs_turns s) i = Some t"
      "tu_origin t = RemoteCommand ?cid" "tu_session_id t = sid"
      unfolding acks_wf_def by (metis in_set_conv_decomp)
    have "remote_turns s ?cid = [t]"
    proof -
      have "set (remote_turns s ?cid) = {t}"
        using t wf(2) bt_values_iff [OF keyed_wf [OF maps_wfD(5) [OF wf(1)]]]
        by (auto simp: remote_turns_def turns_wf_def) (metis option.inject)
      moreover have "distinct (map tu_id (remote_turns s ?cid))"
        using keyed_values_distinct [OF maps_wfD(5) [OF wf(1)]]
        by (simp add: remote_turns_def distinct_map_filter)
      ultimately show ?thesis
        by (intro distinct_singleton) (simp_all add: distinct_map)
    qed
    with t show ?thesis
      by (simp add: remote_command_turn_def)
  qed
  ultimately show ?thesis
    using before [of xs a ys] assms by (auto simp: acked_def)
qed

theorem acknowledgements_correlated_witness:
  "\<exists>t. remote_command_turn sample_state ''cmd_1'' = Inr t \<and> tu_session_id t = ''ses_1''"
proof -
  let ?a = "sample_ack ''cmd_1'' (AcceptedByRuntime ''ses_1'' PromptTurn (sample_handle Binding_RuntimeAcknowledgement))"
  have "map_option cs_acks (case replay_effects sample_effects of Inr s \<Rightarrow> Some s | Inl _ \<Rightarrow> None) =
      Some [sample_ack ''cmd_1'' (AcceptedLocally None), ?a]"
    by code_simp
  then have "cs_acks sample_state = [sample_ack ''cmd_1'' (AcceptedLocally None)] @ ?a # []"
    by (simp add: sample_replay)
  from acknowledgements_correlated [OF sample_replay this] show ?thesis
    by (simp add: sample_ack_def)
qed

text \<open>
  C4: control is never claimed without proof. In any reachable state, a runtime whose capabilities
  permit live control has a recorded runtime acceptance under its own identity, and a session bound as
  controlling has one for that very session.
\<close>

theorem control_requires_acceptance:
  assumes "replay_effects es = Inr s"
  shows "(bt_get (cs_runtimes s) rid = Some r \<and> permits (rt_capabilities r) LiveControl \<longrightarrow>
      (\<exists>a \<in> set (cs_acks s). \<exists>sid k h. ack_outcome a = AcceptedByRuntime sid k h \<and> bh_runtime_id h = rid))
    \<and> (bt_get (cs_sessions s) sid = Some x \<and> se_live_binding x = Controlling r' t e \<longrightarrow>
      (\<exists>a \<in> set (cs_acks s). \<exists>k h. ack_outcome a = AcceptedByRuntime sid k h))"
  using replay_wf [OF assms]
  by (fastforce simp: wf_state_def live_wf_def runtime_accepted_def session_accepted_def)

definition sample_controlled :: canonical_state where
  "sample_controlled = (case replay_effects (sample_effects @ [CapabilitiesUpdated sample_control]) of
     Inr s \<Rightarrow> s | Inl _ \<Rightarrow> state_default)"

theorem control_requires_acceptance_witness:
  "\<exists>a \<in> set (cs_acks sample_controlled). \<exists>sid k h. ack_outcome a = AcceptedByRuntime sid k h \<and> bh_runtime_id h = ''rt_1''"
proof -
  have eval: "(case replay_effects (sample_effects @ [CapabilitiesUpdated sample_control]) of
      Inr s \<Rightarrow> map_option (\<lambda>r. permits (rt_capabilities r) LiveControl) (bt_get (cs_runtimes s) ''rt_1'')
    | Inl _ \<Rightarrow> None) = Some True"
    by code_simp
  then have replay: "replay_effects (sample_effects @ [CapabilitiesUpdated sample_control]) = Inr sample_controlled"
    by (auto simp: sample_controlled_def split: sum.splits)
  with eval obtain r where "bt_get (cs_runtimes sample_controlled) ''rt_1'' = Some r" "permits (rt_capabilities r) LiveControl"
    by auto
  with control_requires_acceptance [OF replay, of "''rt_1''" r] show ?thesis
    by blast
qed

text \<open>
  C5: the derived fields of a session are exact. In any reachable state its active turn is the last
  observed turn of the session that has not ended (and none is recorded exactly when all ended), its
  queue depth and open-attention count are the (saturated) numbers of pending entries and of open
  entries, and its status is the precedence function of those facts, the runtime's usability and
  the last reported status.
\<close>

theorem session_derivation_exact:
  assumes "replay_effects es = Inr s" and "bt_get (cs_sessions s) sid = Some x"
  shows "(se_active_turn_id x = None \<longleftrightarrow> (\<nexists>i. open_turn s sid i))
    \<and> (\<forall>i. se_active_turn_id x = Some i \<longrightarrow> open_turn s sid i
         \<and> (\<exists>us vs. cs_turn_order s = us @ i # vs \<and> (\<forall>j \<in> set vs. \<not> open_turn s sid j)))
    \<and> unat (se_queue_depth x) =
        min (card {k. \<exists>q. bt_get (cs_queue s) k = Some q \<and> qe_session_id q = sid \<and> qe_state q = Queue_Pending}) (2 ^ 32 - 1)
    \<and> unat (se_open_attention_count x) = min (card {k. \<exists>a. open_attention s sid k a}) (2 ^ 32 - 1)
    \<and> se_status x = derive_session_status (session_depends s x)"
proof -
  have wf: "wf_state s"
    using assms(1) by (rule replay_wf)
  then have maps: "maps_wf s"
    by (simp add: wf_state_def)
  have x: "derive_session s sid x = x" "se_id x = sid"
    using derived_session [OF wf assms(2)] keyed_get [OF maps_wfD(4) [OF maps] assms(2)] by simp_all
  have bt: "bt_wf (cs_queue s)" "bt_wf (cs_attention s)"
    using maps_wfD [OF maps] keyed_wf by blast+
  have active: "se_active_turn_id x = active_turn_of s sid"
    using derive_session_fields(1) [of s sid x] x(1) by simp
  have queue: "unat (se_queue_depth x) =
      min (card {k. \<exists>q. bt_get (cs_queue s) k = Some q \<and> qe_session_id q = sid \<and> qe_state q = Queue_Pending}) (2 ^ 32 - 1)"
    using derive_session_fields(2) [of s sid x] x(1)
    by (simp add: unat_u32_of_count bt_count [OF bt(1)] is_pending_def)
  have attention: "unat (se_open_attention_count x) = min (card {k. \<exists>a. open_attention s sid k a}) (2 ^ 32 - 1)"
    using derive_session_fields(3) [of s sid x] x(1)
    by (simp add: unat_u32_of_count open_attention_of_def bt_count [OF bt(2)] open_attention_def attention_is_open_def)
  have status: "se_status x = derive_session_status (session_depends s x)"
    using derive_session_status_field [of s sid x] x active_turn_of_None [OF wf, of sid]
    by (simp add: session_depends_def is_some_and_iff open_attention_of_ex [OF wf] is_approval_iff is_question_iff)
  show ?thesis
    using active queue attention status active_turn_of_None [OF wf, of sid] active_turn_of_Some [OF wf, of sid]
    by simp
qed

theorem session_derivation_exact_witness:
  "\<exists>x. bt_get (cs_sessions sample_state) ''ses_1'' = Some x
     \<and> se_status x = derive_session_status (session_depends sample_state x)"
proof -
  have "(case replay_effects sample_effects of
      Inr s \<Rightarrow> bt_contains (cs_sessions s) ''ses_1'' | Inl _ \<Rightarrow> False)"
    by code_simp
  then obtain x where "bt_get (cs_sessions sample_state) ''ses_1'' = Some x"
    by (auto simp: sample_replay bt_contains_def)
  with session_derivation_exact [OF sample_replay this] show ?thesis
    by blast
qed

text \<open>
  C6: the counters of a project are exact. In any reachable state a project's session counters are the
  (saturated) numbers of its sessions, of the archived, running, failed and waiting ones among them,
  and its attention and workflow counts are those of its open entries and of its workflows.
\<close>

theorem project_counts_exact:
  assumes "replay_effects es = Inr s" and "bt_get (cs_projects s) pid = Some p"
  defines "sessions P \<equiv> card {i. \<exists>x. bt_get (cs_sessions s) i = Some x \<and> se_project_id x = pid \<and> P x}"
  shows "unat (sc_total (pj_session_counts p)) = min (sessions (\<lambda>_. True)) (2 ^ 32 - 1)
    \<and> unat (sc_archived (pj_session_counts p)) = min (sessions se_archived) (2 ^ 32 - 1)
    \<and> unat (sc_running (pj_session_counts p)) = min (sessions (\<lambda>x. se_status x = Session_Running)) (2 ^ 32 - 1)
    \<and> unat (sc_failed (pj_session_counts p)) = min (sessions (\<lambda>x. se_status x = Session_Failed)) (2 ^ 32 - 1)
    \<and> unat (sc_waiting_human (pj_session_counts p)) = min (sessions (\<lambda>x. waits_for_human (se_status x))) (2 ^ 32 - 1)
    \<and> unat (pj_attention_count p) = min (card {k. \<exists>a. bt_get (cs_attention s) k = Some a
        \<and> at_project_id a = pid \<and> at_state a = Attention_Open}) (2 ^ 32 - 1)
    \<and> unat (pj_workflow_count p) = min (card {k. \<exists>w. bt_get (cs_workflows s) k = Some w
        \<and> wf_project_id w = pid}) (2 ^ 32 - 1)"
proof -
  have wf: "wf_state s"
    using assms(1) by (rule replay_wf)
  then have bt: "bt_wf (cs_sessions s)" "bt_wf (cs_attention s)" "bt_wf (cs_workflows s)"
    by (auto simp: wf_state_def maps_wf_def intro: keyed_wf)
  define vs where "vs = bt_values (cs_sessions s)"
  have p: "derive_project s pid p = p"
    using derived_project [OF wf assms(2)] .
  have counts: "pj_session_counts p = fst (fold (count_session pid) vs (session_counts_default, i64_MIN))"
    using derive_project_fields(1) [of s pid p] p by (simp add: vs_def)
  have n: "length (filter (\<lambda>x. se_project_id x = pid \<and> P x) vs) = sessions P" for P
    unfolding sessions_def vs_def by (rule bt_count [OF bt(1)])
  have fold: "unat (f (pj_session_counts p)) = min (sessions P) (2 ^ 32 - 1)"
    if "\<And>x a. unat (f (fst (count_session pid x a))) = min (unat (f (fst a)) + of_bool (se_project_id x = pid \<and> P x)) (2 ^ 32 - 1)"
      and "f session_counts_default = 0" for f :: "session_counts \<Rightarrow> u32" and P
    using fold_counter [of "\<lambda>a. unat (f (fst a))" "count_session pid" "\<lambda>x. se_project_id x = pid \<and> P x"
        "2 ^ 32 - 1" "(session_counts_default, i64_MIN)" vs, OF that(1)] that(2)
    by (simp add: counts n)
  have "unat (pj_attention_count p) = min (card {k. \<exists>a. bt_get (cs_attention s) k = Some a
      \<and> at_project_id a = pid \<and> at_state a = Attention_Open}) (2 ^ 32 - 1)"
    using derive_project_fields(2) [of s pid p] p
    by (simp add: unat_u32_of_count bt_count [OF bt(2)] attention_is_open_def)
  moreover have "unat (pj_workflow_count p) = min (card {k. \<exists>w. bt_get (cs_workflows s) k = Some w
      \<and> wf_project_id w = pid}) (2 ^ 32 - 1)"
    using derive_project_fields(3) [of s pid p] p by (simp add: unat_u32_of_count bt_count [OF bt(3)])
  moreover have "unat (sc_total (pj_session_counts p)) = min (sessions (\<lambda>_. True)) (2 ^ 32 - 1)"
    "unat (sc_archived (pj_session_counts p)) = min (sessions se_archived) (2 ^ 32 - 1)"
    "unat (sc_running (pj_session_counts p)) = min (sessions (\<lambda>x. se_status x = Session_Running)) (2 ^ 32 - 1)"
    "unat (sc_failed (pj_session_counts p)) = min (sessions (\<lambda>x. se_status x = Session_Failed)) (2 ^ 32 - 1)"
    "unat (sc_waiting_human (pj_session_counts p)) = min (sessions (\<lambda>x. waits_for_human (se_status x))) (2 ^ 32 - 1)"
    by (rule fold; simp add: count_session_step session_counts_default_def)+
  ultimately show ?thesis
    by blast
qed

theorem project_counts_exact_witness:
  "\<exists>p. bt_get (cs_projects sample_state) ''prj_1'' = Some p
     \<and> unat (sc_total (pj_session_counts p)) =
         min (card {i. \<exists>x. bt_get (cs_sessions sample_state) i = Some x \<and> se_project_id x = ''prj_1'' \<and> True}) (2 ^ 32 - 1)"
proof -
  have "(case replay_effects sample_effects of
      Inr s \<Rightarrow> bt_contains (cs_projects s) ''prj_1'' | Inl _ \<Rightarrow> False)"
    by code_simp
  then obtain p where "bt_get (cs_projects sample_state) ''prj_1'' = Some p"
    by (auto simp: sample_replay bt_contains_def)
  with project_counts_exact [OF sample_replay this] show ?thesis
    by blast
qed

end
