(* ===== verification/Projection_Contract.thy ===== *)
theory Projection_Contract
  imports Effect
begin

text \<open>
  The subscriber read models (\<open>kaleido-proto/src/projection.rs\<close>): the eight views with their
  validators, projection keys and envelopes, the decision a subscription gets from a retained
  window, and the check of a run of envelopes after a cursor. The laws proved here are what host
  and client rely on: a decision answers its own request, and a run is accepted exactly when it is
  the gapless continuation of the client's cursor.
\<close>

section \<open>Views\<close>

definition PROJECTION_VERSION :: u32 where "PROJECTION_VERSION = 3"

record project_binding_summary =
  pbs_binding_id :: project_binding_id
  pbs_runtime_id :: provider_runtime_id

record project_summary =
  psm_project_id :: project_id
  psm_display_name :: string
  psm_bindings :: "project_binding_summary list"
  psm_session_counts :: session_counts
  psm_attention_count :: u32
  psm_workflow_count :: u32
  psm_last_activity_at_ms :: i64

record provider_group =
  pg_family :: provider_family
  pg_runtime_ids :: "provider_runtime_id list"
  pg_projects :: "project_summary list"

record project_index_view =
  piv_host_id :: host_id
  piv_reachability :: host_reachability
  piv_groups :: "provider_group list"

record session_summary =
  ssm_session_id :: session_id
  ssm_project_binding_id :: project_binding_id
  ssm_title :: "string option"
  ssm_status :: session_status
  ssm_ownership :: ownership_mode
  ssm_live_binding :: live_binding
  ssm_queue_depth :: u32
  ssm_open_attention_count :: u32
  ssm_last_activity_at_ms :: i64

record session_index_view =
  siv_project_id :: project_id
  siv_active :: "session_summary list"
  siv_history :: "session_summary list"
  siv_archived :: "session_summary list"

record transcript_turn =
  tt_turn :: turn
  tt_items :: "item list"

record transcript_view =
  tv_session_id :: session_id
  tv_turns :: "transcript_turn list"
  tv_has_earlier :: bool

record live_activity_view =
  lav_session_id :: session_id
  lav_active_turn_id :: "turn_id option"
  lav_streaming_item_ids :: "item_id list"
  lav_plan :: "plan_entry list"
  lav_tasks :: "agent_task list"
  lav_updated_at_ms :: i64

record input_queue_view =
  iqv_session_id :: session_id
  iqv_entries :: "queue_entry list"
  iqv_writable :: bool
  iqv_steer_supported :: bool

record attention_inbox_view =
  aiv_entries :: "attention_item list"

record workflow_board_step =
  wbs_step_id :: step_id
  wbs_title :: string
  wbs_state :: step_state
  wbs_depends_on :: "step_id list"
  wbs_assignment :: step_assignment
  wbs_session_id :: "session_id option"
  wbs_blockers :: "step_blocker list"

record workflow_board_view =
  wbv_workflow_id :: workflow_id
  wbv_state :: workflow_state
  wbv_steps :: "workflow_board_step list"
  wbv_artifacts :: "artifact list"

record runtime_capability_view =
  rcv_host_id :: host_id
  rcv_runtime_id :: provider_runtime_id
  rcv_negotiated_at_ms :: i64
  rcv_entries :: "capability_entry list"

datatype projection_payload =
  View_ProjectIndex project_index_view
| View_SessionIndex session_index_view
| View_Transcript transcript_view
| View_LiveActivity live_activity_view
| View_InputQueue input_queue_view
| View_AttentionInbox attention_inbox_view
| View_WorkflowBoard workflow_board_view
| View_RuntimeCapability runtime_capability_view

record projection_envelope =
  px_version :: u32
  px_key :: projection_key
  px_cursor :: cursor
  px_payload :: projection_payload

record projection_subscribe =
  sub_key :: projection_key
  sub_since :: "cursor option"

datatype projection_subscribe_outcome =
  Resumed cursor
| CurrentFollows cursor
| Subscribe_Rejected canonical_error

record projection_subscribe_ack =
  sak_key :: projection_key
  sak_outcome :: projection_subscribe_outcome

section \<open>Validation of a view\<close>

definition from_capabilities :: "host_id \<Rightarrow> runtime_capabilities \<Rightarrow> runtime_capability_view" where
  "from_capabilities hid caps = \<lparr>rcv_host_id = hid, rcv_runtime_id = rc_runtime_id caps,
     rcv_negotiated_at_ms = rc_negotiated_at_ms caps, rcv_entries = rc_entries caps\<rparr>"

definition runtime_capability_view_validate :: "runtime_capability_view \<Rightarrow> ccheck" where
  "runtime_capability_view_validate v = run_checks
     [require_id (rcv_host_id v) ''runtime_capability.host_id'',
      capabilities_validate \<lparr>rc_runtime_id = rcv_runtime_id v,
        rc_negotiated_at_ms = rcv_negotiated_at_ms v, rc_entries = rcv_entries v\<rparr>]"

definition project_binding_summary_validate :: "project_binding_summary \<Rightarrow> ccheck" where
  "project_binding_summary_validate b = run_checks
     [require_id (pbs_binding_id b) ''project_binding_summary.binding_id'',
      require_id (pbs_runtime_id b) ''project_binding_summary.runtime_id'']"

definition project_summary_validate :: "project_summary \<Rightarrow> ccheck" where
  "project_summary_validate p = run_checks
     [require_id (psm_project_id p) ''project_summary.project_id'',
      for_each project_binding_summary_validate (psm_bindings p)]"

definition provider_group_validate :: "provider_group \<Rightarrow> ccheck" where
  "provider_group_validate g = run_checks
     [reject_if (list_ex (\<lambda>i. i = []) (pg_runtime_ids g)) (EmptyIdentifier ''provider_group.runtime_ids''),
      for_each (\<lambda>p. run_checks
        [project_summary_validate p,
         for_each (\<lambda>b. dangling_unless (pbs_runtime_id b \<in> set (pg_runtime_ids g))
           ''provider_group.projects.bindings.runtime_id'') (psm_bindings p)]) (pg_projects g)]"

definition project_index_view_validate :: "project_index_view \<Rightarrow> ccheck" where
  "project_index_view_validate v = run_checks
     [require_id (piv_host_id v) ''project_index.host_id'',
      for_each provider_group_validate (piv_groups v)]"

definition session_summary_validate :: "session_summary \<Rightarrow> ccheck" where
  "session_summary_validate x = run_checks
     [require_id (ssm_session_id x) ''session_summary.session_id'',
      require_id (ssm_project_binding_id x) ''session_summary.project_binding_id'',
      live_binding_validate_shape (ssm_live_binding x)]"

definition session_index_view_validate :: "session_index_view \<Rightarrow> ccheck" where
  "session_index_view_validate v = run_checks
     [require_id (siv_project_id v) ''session_index.project_id'',
      for_each session_summary_validate (siv_active v @ siv_history v @ siv_archived v)]"

definition transcript_turn_check :: "session_id \<Rightarrow> transcript_turn \<Rightarrow> ccheck" where
  "transcript_turn_check sid t = run_checks
     [turn_validate (tt_turn t),
      dangling_unless (tu_session_id (tt_turn t) = sid) ''transcript.turns.session_id'',
      for_each (\<lambda>i. dangling_unless
        (list_ex (\<lambda>item. it_id item = i \<and> it_turn_id item = tu_id (tt_turn t)) (tt_items t))
        ''transcript.turns.item_ids'') (tu_item_ids (tt_turn t)),
      for_each (\<lambda>item. run_checks
        [item_validate item,
         reject_if (it_session_id item \<noteq> sid \<or> it_turn_id item \<noteq> tu_id (tt_turn t)
             \<or> it_id item \<notin> set (tu_item_ids (tt_turn t)))
           (DanglingReference ''transcript.turns.items'')]) (tt_items t)]"

definition transcript_view_validate :: "transcript_view \<Rightarrow> ccheck" where
  "transcript_view_validate v = run_checks
     [require_id (tv_session_id v) ''transcript.session_id'',
      for_each (transcript_turn_check (tv_session_id v)) (tv_turns v)]"

definition live_activity_view_validate :: "live_activity_view \<Rightarrow> ccheck" where
  "live_activity_view_validate v = run_checks
     [require_id (lav_session_id v) ''live_activity.session_id'',
      reject_if (is_some_and (\<lambda>i. i = []) (lav_active_turn_id v))
        (EmptyIdentifier ''live_activity.active_turn_id''),
      reject_if (list_ex (\<lambda>i. i = []) (lav_streaming_item_ids v))
        (EmptyIdentifier ''live_activity.streaming_item_ids''),
      for_each (\<lambda>e. ensure_sensitive ''live_activity.plan.title_ref'' (pe_title_ref e)) (lav_plan v),
      for_each (\<lambda>t. run_checks
        [require_id (ta_id t) ''live_activity.tasks.id'',
         ensure_sensitive ''live_activity.tasks.title_ref'' (ta_title_ref t)]) (lav_tasks v)]"

definition input_queue_view_validate :: "input_queue_view \<Rightarrow> ccheck" where
  "input_queue_view_validate v = run_checks
     [require_id (iqv_session_id v) ''input_queue.session_id'',
      for_each (\<lambda>e. run_checks
        [queue_entry_validate e,
         dangling_unless (qe_session_id e = iqv_session_id v) ''input_queue.entries.session_id''])
        (iqv_entries v)]"

definition attention_inbox_view_validate :: "attention_inbox_view \<Rightarrow> ccheck" where
  "attention_inbox_view_validate v = for_each attention_validate (aiv_entries v)"

fun blocker_check :: "step_blocker \<Rightarrow> ccheck" where
  "blocker_check (DependencyIncomplete i) = require_id i ''workflow_board_step.blockers.step_id''"
| "blocker_check (HumanGateOpen i) = require_id i ''workflow_board_step.blockers.attention_id''"
| "blocker_check _ = ok"

definition workflow_board_step_validate :: "workflow_board_step \<Rightarrow> ccheck" where
  "workflow_board_step_validate x = run_checks
     [require_id (wbs_step_id x) ''workflow_board_step.step_id'',
      reject_if (list_ex (\<lambda>i. i = []) (wbs_depends_on x))
        (EmptyIdentifier ''workflow_board_step.depends_on''),
      when_some (\<lambda>i. require_id i ''workflow_board_step.session_id'') (wbs_session_id x),
      step_assignment_validate (wbs_assignment x),
      for_each blocker_check (wbs_blockers x)]"

definition workflow_board_view_validate :: "workflow_board_view \<Rightarrow> ccheck" where
  "workflow_board_view_validate v = run_checks
     [require_id (wbv_workflow_id v) ''workflow_board.workflow_id'',
      for_each (\<lambda>x. run_checks
        [workflow_board_step_validate x,
         for_each (\<lambda>d. dangling_unless (list_ex (\<lambda>c. wbs_step_id c = d) (wbv_steps v))
           ''workflow_board.steps.depends_on'') (wbs_depends_on x)]) (wbv_steps v),
      for_each (\<lambda>a. run_checks
        [artifact_validate a,
         dangling_unless (ar_workflow_id a = wbv_workflow_id v) ''workflow_board.artifacts.workflow_id'',
         when_some (\<lambda>i. dangling_unless (list_ex (\<lambda>x. wbs_step_id x = i) (wbv_steps v))
           ''workflow_board.artifacts.produced_by'') (ar_produced_by a)]) (wbv_artifacts v)]"

fun projection_key_validate :: "projection_key \<Rightarrow> ccheck" where
  "projection_key_validate (Key_ProjectIndex hid) = require_id hid ''projection_key.host_id''"
| "projection_key_validate (Key_AttentionInbox hid) = require_id hid ''projection_key.host_id''"
| "projection_key_validate (Key_SessionIndex pid) = require_id pid ''projection_key.project_id''"
| "projection_key_validate (Key_Transcript sid) = require_id sid ''projection_key.session_id''"
| "projection_key_validate (Key_LiveActivity sid) = require_id sid ''projection_key.session_id''"
| "projection_key_validate (Key_InputQueue sid) = require_id sid ''projection_key.session_id''"
| "projection_key_validate (Key_WorkflowBoard wid) = require_id wid ''projection_key.workflow_id''"
| "projection_key_validate (Key_RuntimeCapability hid rid) = run_checks
     [require_id hid ''projection_key.host_id'', require_id rid ''projection_key.runtime_id'']"

fun payload_matches :: "projection_key \<Rightarrow> projection_payload \<Rightarrow> ccheck" where
  "payload_matches (Key_ProjectIndex hid) (View_ProjectIndex v) =
     (if hid = piv_host_id v then project_index_view_validate v else Inl ProjectionKeyPayloadMismatch)"
| "payload_matches (Key_SessionIndex pid) (View_SessionIndex v) =
     (if pid = siv_project_id v then session_index_view_validate v else Inl ProjectionKeyPayloadMismatch)"
| "payload_matches (Key_Transcript sid) (View_Transcript v) =
     (if sid = tv_session_id v then transcript_view_validate v else Inl ProjectionKeyPayloadMismatch)"
| "payload_matches (Key_LiveActivity sid) (View_LiveActivity v) =
     (if sid = lav_session_id v then live_activity_view_validate v else Inl ProjectionKeyPayloadMismatch)"
| "payload_matches (Key_InputQueue sid) (View_InputQueue v) =
     (if sid = iqv_session_id v then input_queue_view_validate v else Inl ProjectionKeyPayloadMismatch)"
| "payload_matches (Key_AttentionInbox hid) (View_AttentionInbox v) = run_checks
     [attention_inbox_view_validate v,
      reject_if (list_ex (\<lambda>a. at_host_id a \<noteq> hid) (aiv_entries v))
        (DanglingReference ''attention_inbox.entries.host_id'')]"
| "payload_matches (Key_WorkflowBoard wid) (View_WorkflowBoard v) =
     (if wid = wbv_workflow_id v then workflow_board_view_validate v else Inl ProjectionKeyPayloadMismatch)"
| "payload_matches (Key_RuntimeCapability hid rid) (View_RuntimeCapability v) =
     (if hid = rcv_host_id v \<and> rid = rcv_runtime_id v then runtime_capability_view_validate v
      else Inl ProjectionKeyPayloadMismatch)"
| "payload_matches _ _ = Inl ProjectionKeyPayloadMismatch"

definition payload_validate_for_key :: "projection_key \<Rightarrow> projection_payload \<Rightarrow> ccheck" where
  "payload_validate_for_key key payload = run_checks
     [projection_key_validate key, payload_matches key payload]"

definition requires_full_refresh :: "projection_envelope \<Rightarrow> bool" where
  "requires_full_refresh e \<longleftrightarrow> px_version e \<noteq> PROJECTION_VERSION"

definition validate_for_transport :: "projection_envelope \<Rightarrow> ccheck" where
  "validate_for_transport e = run_checks
     [projection_key_validate (px_key e), payload_validate_for_key (px_key e) (px_payload e)]"

section \<open>Subscriptions\<close>

definition ack_validate_for :: "projection_subscribe \<Rightarrow> projection_subscribe_ack \<Rightarrow> ccheck" where
  "ack_validate_for request ack = run_checks
     [projection_key_validate (sub_key request),
      projection_key_validate (sak_key ack),
      reject_if (sak_key ack \<noteq> sub_key request) ProjectionSubscribeKeyMismatch,
      (case sak_outcome ack of
         Resumed from_cursor \<Rightarrow>
           and_then (ok_or (sub_since request) ProjectionResumeWithoutCursor) (\<lambda>since.
           and_then (cursor_next since) (\<lambda>expected.
           reject_if (from_cursor \<noteq> expected)
             (ProjectionResumeCursorMismatch (cur_seq expected) (cur_seq from_cursor))))
       | Subscribe_Rejected error \<Rightarrow> canonical_error_validate error
       | CurrentFollows current_cursor \<Rightarrow> when_some (\<lambda>since.
           reject_if (cur_seq current_cursor \<le> cur_seq since)
             (ProjectionCurrentCursorNotAhead (cur_seq since) (cur_seq current_cursor))) (sub_since request))]"

definition cursor_gap_error :: "i64 \<Rightarrow> canonical_error" where
  "cursor_gap_error at_ms =
     \<lparr>ce_code = Err_CursorGap, ce_retriable = True, ce_detail_ref = None, ce_at_ms = at_ms\<rparr>"

definition subscription_outcome ::
  "cursor option \<Rightarrow> cursor \<Rightarrow> cursor \<Rightarrow> i64 \<Rightarrow> (contract_violation, projection_subscribe_outcome) result" where
  "subscription_outcome since retained_floor current_head at_ms =
     (case since of
        None \<Rightarrow> Inr (CurrentFollows current_head)
      | Some since \<Rightarrow>
          (if cur_seq since > cur_seq current_head then Inr (Subscribe_Rejected (cursor_gap_error at_ms))
           else (case cursor_next since of
               Inl CursorOverflow \<Rightarrow> Inr (Subscribe_Rejected (cursor_gap_error at_ms))
             | Inl other \<Rightarrow> Inl other
             | Inr nxt \<Rightarrow>
                 (if cur_seq nxt < cur_seq retained_floor then Inr (CurrentFollows current_head)
                  else Inr (Resumed nxt)))))"

definition decide_projection_subscription ::
  "projection_subscribe \<Rightarrow> cursor \<Rightarrow> cursor \<Rightarrow> i64 \<Rightarrow> (contract_violation, projection_subscribe_ack) result" where
  "decide_projection_subscription request retained_floor current_head at_ms =
     and_then (run_checks
       [projection_key_validate (sub_key request),
        reject_if (cur_seq retained_floor > cur_seq current_head)
          (InvalidProjectionCursorWindow (cur_seq retained_floor) (cur_seq current_head))]) (\<lambda>_.
     and_then (subscription_outcome (sub_since request) retained_floor current_head at_ms) (\<lambda>outcome.
       Inr \<lparr>sak_key = sub_key request, sak_outcome = outcome\<rparr>))"

definition sequence_step :: "projection_key \<Rightarrow> cursor \<Rightarrow> projection_envelope \<Rightarrow> ccheck" where
  "sequence_step key previous envelope = run_checks
     [validate_for_transport envelope,
      reject_if (px_key envelope \<noteq> key) MixedProjectionKeys,
      reject_if (px_cursor envelope = previous) (CursorRepeated (cur_seq (px_cursor envelope))),
      and_then (cursor_next previous) (\<lambda>expected.
        reject_if (px_cursor envelope \<noteq> expected)
          (CursorGap (cur_seq expected) (cur_seq (px_cursor envelope))))]"

fun sequence_from :: "projection_key \<Rightarrow> cursor \<Rightarrow> projection_envelope list \<Rightarrow> ccheck" where
  "sequence_from key previous [] = ok"
| "sequence_from key previous (e # es) =
     (case sequence_step key previous e of Inl v \<Rightarrow> Inl v | Inr _ \<Rightarrow> sequence_from key (px_cursor e) es)"

definition validate_projection_sequence ::
  "projection_key \<Rightarrow> cursor \<Rightarrow> projection_envelope list \<Rightarrow> ccheck" where
  "validate_projection_sequence key after envelopes = run_checks
     [projection_key_validate key, sequence_from key after envelopes]"

section \<open>What the checks accept\<close>

lemma unat_u64_less: "unat n < 18446744073709551616" for n :: u64
proof -
  have "unat n < 2 ^ LENGTH(64)" by (rule unsigned_less)
  then show ?thesis by simp
qed

lemma cursor_next_err: "cursor_next c = Inl e \<longleftrightarrow> e = CursorOverflow \<and> unat (cur_seq c) = 2 ^ 64 - 1"
proof (cases "unat (cur_seq c) = 2 ^ 64 - 1")
  case True
  then have "checked_add (cur_seq c) 1 = None"
    by (simp add: checked_add_None)
  then show ?thesis using True by (auto simp: cursor_next_def)
next
  case False
  then have "unat (cur_seq c) + 1 < 2 ^ 64"
    using unat_u64_less [of "cur_seq c"] by simp
  then have "checked_add (cur_seq c) 1 = Some (cur_seq c + 1)"
    by (simp add: checked_add_Some)
  then show ?thesis using False by (simp add: cursor_next_def)
qed

lemma sequence_step_ok:
  "sequence_step key c e = ok \<longleftrightarrow>
     validate_for_transport e = ok \<and> px_key e = key \<and> unat (cur_seq (px_cursor e)) = unat (cur_seq c) + 1"
proof (cases "cursor_next c")
  case (Inl v)
  then show ?thesis
    using cursor_next_ok [of c "px_cursor e"] by (simp add: sequence_step_def)
next
  case (Inr d)
  then show ?thesis
    using cursor_next_ok [of c "px_cursor e"] by (auto simp: sequence_step_def)
qed

lemma sequence_from_ok:
  "sequence_from key c es = ok \<longleftrightarrow>
     (\<forall>i < length es. validate_for_transport (es ! i) = ok \<and> px_key (es ! i) = key
        \<and> unat (cur_seq (px_cursor (es ! i))) = unat (cur_seq c) + Suc i)"
proof (induction es arbitrary: c)
  case Nil
  then show ?case by simp
next
  case (Cons e es)
  have "sequence_from key c (e # es) = ok \<longleftrightarrow>
      sequence_step key c e = ok \<and> sequence_from key (px_cursor e) es = ok"
    by (cases "sequence_step key c e") auto
  also have "\<dots> \<longleftrightarrow> (\<forall>i < length (e # es). validate_for_transport ((e # es) ! i) = ok \<and> px_key ((e # es) ! i) = key
        \<and> unat (cur_seq (px_cursor ((e # es) ! i))) = unat (cur_seq c) + Suc i)"
    by (auto simp: sequence_step_ok Cons.IH All_less_Suc2 simp del: One_nat_def)
  finally show ?case .
qed

lemma cursor_gap_error_valid [simp]: "canonical_error_validate (cursor_gap_error at_ms) = ok"
  by (simp add: cursor_gap_error_def canonical_error_validate_def)

lemma subscription_outcome_eq:
  "subscription_outcome since floor_c head_c at_ms = Inr
     (case since of
        None \<Rightarrow> CurrentFollows head_c
      | Some c \<Rightarrow>
          if unat (cur_seq head_c) < unat (cur_seq c) \<or> unat (cur_seq c) = 2 ^ 64 - 1
          then Subscribe_Rejected (cursor_gap_error at_ms)
          else if unat (cur_seq c) + 1 < unat (cur_seq floor_c) then CurrentFollows head_c
          else Resumed (Cursor (cur_seq c + 1)))"
proof (cases since)
  case None
  then show ?thesis by (simp add: subscription_outcome_def)
next
  case (Some c)
  show ?thesis
  proof (cases "cursor_next c")
    case (Inl v)
    then have "v = CursorOverflow" "unat (cur_seq c) = 2 ^ 64 - 1"
      by (simp_all add: cursor_next_err)
    then show ?thesis
      using Some Inl by (simp add: subscription_outcome_def)
  next
    case (Inr d)
    then have d: "unat (cur_seq d) = unat (cur_seq c) + 1" "d = Cursor (cur_seq c + 1)"
      using cursor_next_ok [of c d]
      by (auto simp: cursor_next_def ok_or_ok checked_add_Some)
    have "unat (cur_seq c) \<noteq> 2 ^ 64 - 1"
      using d(1) unat_u64_less [of "cur_seq d"] by simp
    then show ?thesis
      using Some Inr d(1) by (auto simp: subscription_outcome_def word_less_nat_alt d(2) [symmetric])
  qed
qed

lemma cursor_succ:
  assumes "unat (cur_seq c) \<noteq> 2 ^ 64 - 1"
  shows "unat (cur_seq c + 1) = unat (cur_seq c) + 1 \<and> cursor_next c = Inr (Cursor (cur_seq c + 1))"
proof -
  have "unat (cur_seq c) + 1 < 2 ^ 64"
    using assms unat_u64_less [of "cur_seq c"] by simp
  then have "checked_add (cur_seq c) 1 = Some (cur_seq c + 1)"
    by (simp add: checked_add_Some)
  then show ?thesis
    using unat_checked_add [of "cur_seq c" 1] by (simp add: cursor_next_def)
qed

lemma decided_subscription:
  assumes "projection_key_validate (sub_key request) = ok"
    and "unat (cur_seq floor_c) \<le> unat (cur_seq head_c)"
  shows "\<exists>ack. decide_projection_subscription request floor_c head_c at_ms = Inr ack
    \<and> ack_validate_for request ack = ok
    \<and> sak_outcome ack = (case sub_since request of
        None \<Rightarrow> CurrentFollows head_c
      | Some c \<Rightarrow>
          if unat (cur_seq head_c) < unat (cur_seq c) \<or> unat (cur_seq c) = 2 ^ 64 - 1
          then Subscribe_Rejected (cursor_gap_error at_ms)
          else if unat (cur_seq c) + 1 < unat (cur_seq floor_c) then CurrentFollows head_c
          else Resumed (Cursor (cur_seq c + 1)))"
proof (cases "sub_since request")
  case None
  with assms show ?thesis
    by (simp add: decide_projection_subscription_def subscription_outcome_eq word_less_nat_alt not_less
        ack_validate_for_def)
next
  case (Some c)
  with assms cursor_succ [of c] show ?thesis
    by (auto simp: decide_projection_subscription_def subscription_outcome_eq word_less_nat_alt
        word_le_nat_alt not_less ack_validate_for_def)
qed

section \<open>Properties\<close>

definition sample_index :: "host_reachability \<Rightarrow> u64 \<Rightarrow> projection_envelope" where
  "sample_index reach seq = \<lparr>px_version = PROJECTION_VERSION, px_key = Key_ProjectIndex ''host_1'',
     px_cursor = Cursor seq,
     px_payload = View_ProjectIndex \<lparr>piv_host_id = ''host_1'', piv_reachability = reach, piv_groups = []\<rparr>\<rparr>"

text \<open>
  C30: \<open>decide_projection_subscription\<close> never fails on a valid key and a window whose floor is not
  above its head, its acknowledgement always passes the client's own \<open>validate_for\<close>, and the answer
  is exact: without a cursor, or with one that fell out of the window, the current view follows; a
  cursor ahead of the head (or one with no successor) is refused; every other cursor is resumed
  right after it, inside the retained window.
\<close>

theorem subscription_decision_exact:
  assumes "projection_key_validate (sub_key request) = ok"
    and "unat (cur_seq floor_c) \<le> unat (cur_seq head_c)"
  shows "\<exists>ack. decide_projection_subscription request floor_c head_c at_ms = Inr ack
    \<and> ack_validate_for request ack = ok
    \<and> (case sak_outcome ack of
         CurrentFollows c \<Rightarrow> c = head_c \<and> (\<forall>since. sub_since request = Some since \<longrightarrow>
           unat (cur_seq since) + 1 < unat (cur_seq floor_c))
       | Subscribe_Rejected e \<Rightarrow> ce_code e = Err_CursorGap \<and> (\<exists>since. sub_since request = Some since
           \<and> (unat (cur_seq head_c) < unat (cur_seq since) \<or> unat (cur_seq since) = 2 ^ 64 - 1))
       | Resumed c \<Rightarrow> (\<exists>since. sub_since request = Some since
           \<and> unat (cur_seq c) = unat (cur_seq since) + 1
           \<and> unat (cur_seq floor_c) \<le> unat (cur_seq c) \<and> unat (cur_seq c) \<le> unat (cur_seq head_c) + 1))"
proof -
  have "unat (cur_seq c + 1) = unat (cur_seq c) + 1" if "unat (cur_seq c) \<noteq> 2 ^ 64 - 1" for c
    using cursor_succ [OF that] by simp
  then show ?thesis
    using decided_subscription [OF assms, of at_ms]
    by (cases "sub_since request") (auto simp: cursor_gap_error_def)
qed

theorem subscription_decision_exact_witness:
  "\<exists>ack. decide_projection_subscription \<lparr>sub_key = Key_InputQueue ''ses_1'', sub_since = Some (Cursor 4)\<rparr>
      (Cursor 2) (Cursor 9) 7 = Inr ack \<and> sak_outcome ack = Resumed (Cursor 5)"
  using subscription_decision_exact [of "\<lparr>sub_key = Key_InputQueue ''ses_1'', sub_since = Some (Cursor 4)\<rparr>"
      "Cursor 2" "Cursor 9" 7]
  by (auto simp: decide_projection_subscription_def subscription_outcome_eq)

text \<open>
  C31: \<open>validate_projection_sequence\<close> accepts a run after a cursor exactly when the key is valid and
  every envelope is valid for transport, carries that key, and the cursors are the next ones in
  order without a gap, a repetition or a wrap-around.
\<close>

theorem projection_sequence_exact:
  "validate_projection_sequence key after es = ok \<longleftrightarrow>
     projection_key_validate key = ok
     \<and> (\<forall>i < length es. validate_for_transport (es ! i) = ok \<and> px_key (es ! i) = key
          \<and> unat (cur_seq (px_cursor (es ! i))) = unat (cur_seq after) + Suc i)"
  by (simp add: validate_projection_sequence_def sequence_from_ok)

theorem projection_sequence_exact_witness:
  "validate_projection_sequence (Key_ProjectIndex ''host_1'') (Cursor 3)
     [sample_index LanDirect 4, sample_index Relayed 5] = ok
   \<and> validate_projection_sequence (Key_ProjectIndex ''host_1'') (Cursor 3) [sample_index LanDirect 5] \<noteq> ok"
  unfolding projection_sequence_exact
  by (simp add: All_less_Suc2 sample_index_def validate_for_transport_def payload_validate_for_key_def
      project_index_view_validate_def check_simps)

end
