(* ===== verification/Projection_Build.thy ===== *)
theory Projection_Build
  imports State_Properties Projection_Contract
begin

text \<open>
  The read models built from the canonical state and the matrix that says which of them an effect
  can change (\<open>kaleido-state/src/projection.rs\<close>). The lemmas show that a view selects and orders
  canonical state without inventing any, and that the matrix is complete for the views of a session:
  an effect that changes one of them lists its key.
\<close>

section \<open>Names\<close>

datatype projection_name =
  Name_ProjectIndex | Name_SessionIndex | Name_Transcript | Name_LiveActivity | Name_InputQueue
| Name_AttentionInbox | Name_RuntimeCapability | Name_WorkflowBoard

definition ALL_NAMES :: "projection_name list" where
  "ALL_NAMES = [Name_ProjectIndex, Name_SessionIndex, Name_Transcript, Name_LiveActivity,
     Name_InputQueue, Name_AttentionInbox, Name_RuntimeCapability, Name_WorkflowBoard]"

definition parse_name :: "string \<Rightarrow> projection_name option" where
  "parse_name text =
     (if text = ''project-index'' then Some Name_ProjectIndex
      else if text = ''session-index'' then Some Name_SessionIndex
      else if text = ''transcript'' then Some Name_Transcript
      else if text = ''live-activity'' then Some Name_LiveActivity
      else if text = ''input-queue'' then Some Name_InputQueue
      else if text = ''attention-inbox'' then Some Name_AttentionInbox
      else if text = ''runtime-capability'' then Some Name_RuntimeCapability
      else if text = ''workflow-board'' then Some Name_WorkflowBoard
      else None)"

fun name_as_str :: "projection_name \<Rightarrow> string" where
  "name_as_str Name_ProjectIndex = ''project-index''"
| "name_as_str Name_SessionIndex = ''session-index''"
| "name_as_str Name_Transcript = ''transcript''"
| "name_as_str Name_LiveActivity = ''live-activity''"
| "name_as_str Name_InputQueue = ''input-queue''"
| "name_as_str Name_AttentionInbox = ''attention-inbox''"
| "name_as_str Name_RuntimeCapability = ''runtime-capability''"
| "name_as_str Name_WorkflowBoard = ''workflow-board''"

section \<open>Views of the state\<close>

definition project_bindings_in :: "provider_runtime_id list \<Rightarrow> project \<Rightarrow> project_binding_summary list" where
  "project_bindings_in runtime_ids p =
     map (\<lambda>b. \<lparr>pbs_binding_id = pb_id b, pbs_runtime_id = pb_runtime_id b\<rparr>)
       (filter (\<lambda>b. pb_runtime_id b \<in> set runtime_ids) (pj_bindings p))"

definition project_summary_in :: "provider_runtime_id list \<Rightarrow> project \<Rightarrow> project_summary option" where
  "project_summary_in runtime_ids p =
     (let bindings = project_bindings_in runtime_ids p
      in if bindings = [] then None
         else Some \<lparr>psm_project_id = pj_id p, psm_display_name = pj_display_name p, psm_bindings = bindings,
           psm_session_counts = pj_session_counts p, psm_attention_count = pj_attention_count p,
           psm_workflow_count = pj_workflow_count p, psm_last_activity_at_ms = pj_last_activity_at_ms p\<rparr>)"

definition family_group :: "canonical_state \<Rightarrow> host_id \<Rightarrow> provider_family \<Rightarrow> provider_group option" where
  "family_group s hid family =
     (let runtime_ids = map rt_id
            (filter (\<lambda>r. rt_host_id r = hid \<and> rt_family r = family) (bt_values (cs_runtimes s)))
      in if runtime_ids = [] then None
         else Some \<lparr>pg_family = family, pg_runtime_ids = runtime_ids,
           pg_projects = List.map_filter (project_summary_in runtime_ids) (bt_values (cs_projects s))\<rparr>)"

definition project_index :: "canonical_state \<Rightarrow> host_id \<Rightarrow> project_index_view state_result" where
  "project_index s hid =
     and_then (ok_or (find (\<lambda>h. ho_id h = hid) (bt_values (cs_hosts s))) (UnknownHostId hid)) (\<lambda>h.
       Inr \<lparr>piv_host_id = ho_id h, piv_reachability = ho_reachability h,
         piv_groups = List.map_filter (family_group s hid) [Codex, ClaudeCode, OpenCode, Acp]\<rparr>)"

definition summarise :: "session \<Rightarrow> session_summary" where
  "summarise x = \<lparr>ssm_session_id = se_id x, ssm_project_binding_id = se_project_binding_id x,
     ssm_title = se_title x, ssm_status = se_status x, ssm_ownership = se_ownership x,
     ssm_live_binding = se_live_binding x, ssm_queue_depth = se_queue_depth x,
     ssm_open_attention_count = se_open_attention_count x,
     ssm_last_activity_at_ms = se_last_activity_at_ms x\<rparr>"

definition shown_active :: "session \<Rightarrow> bool" where
  "shown_active x \<longleftrightarrow> session_is_active (se_status x) \<or> waits_for_human (se_status x)"

definition session_index :: "canonical_state \<Rightarrow> project_id \<Rightarrow> session_index_view" where
  "session_index s pid =
     (let sessions = filter (\<lambda>x. se_project_id x = pid) (bt_values (cs_sessions s))
      in \<lparr>siv_project_id = pid,
          siv_active = map summarise (filter (\<lambda>x. \<not> se_archived x \<and> shown_active x) sessions),
          siv_history = map summarise (filter (\<lambda>x. \<not> se_archived x \<and> \<not> shown_active x) sessions),
          siv_archived = map summarise (filter se_archived sessions)\<rparr>)"

definition require_session :: "canonical_state \<Rightarrow> session_id \<Rightarrow> session state_result" where
  "require_session s sid = ok_or (bt_get (cs_sessions s) sid) (UnknownSession sid)"

definition transcript :: "canonical_state \<Rightarrow> session_id \<Rightarrow> transcript_view state_result" where
  "transcript s sid =
     and_then (require_session s sid) (\<lambda>_.
       Inr \<lparr>tv_session_id = sid,
         tv_turns = map (\<lambda>t. \<lparr>tt_turn = t, tt_items = List.map_filter (bt_get (cs_items s)) (tu_item_ids t)\<rparr>)
           (turns_of s sid),
         tv_has_earlier = False\<rparr>)"

definition streaming_items :: "canonical_state \<Rightarrow> session \<Rightarrow> session_id \<Rightarrow> item_id list" where
  "streaming_items s x sid =
     (case se_active_turn_id x of
        None \<Rightarrow> []
      | Some active \<Rightarrow> map it_id
          (filter (\<lambda>i. it_turn_id i = active \<and> it_status i = Item_InProgress) (items_of s sid)))"

definition latest_plan :: "item list \<Rightarrow> plan_entry list" where
  "latest_plan items = fold (\<lambda>i plan. case it_body i of PlanUpdate entries \<Rightarrow> entries | _ \<Rightarrow> plan) items []"

definition latest_tasks :: "item list \<Rightarrow> agent_task list" where
  "latest_tasks items = fold (\<lambda>i tasks. case it_body i of TaskUpdate updated \<Rightarrow> updated | _ \<Rightarrow> tasks) items []"

definition live_activity :: "canonical_state \<Rightarrow> session_id \<Rightarrow> live_activity_view state_result" where
  "live_activity s sid =
     and_then (require_session s sid) (\<lambda>x.
       Inr \<lparr>lav_session_id = sid, lav_active_turn_id = se_active_turn_id x,
         lav_streaming_item_ids = streaming_items s x sid,
         lav_plan = latest_plan (items_of s sid), lav_tasks = latest_tasks (items_of s sid),
         lav_updated_at_ms = se_last_activity_at_ms x\<rparr>)"

definition input_queue :: "canonical_state \<Rightarrow> session_id \<Rightarrow> input_queue_view state_result" where
  "input_queue s sid =
     and_then (require_session s sid) (\<lambda>x.
       Inr \<lparr>iqv_session_id = sid, iqv_entries = queue_of s sid,
         iqv_writable = (\<not> se_archived x \<and> se_status x \<noteq> Session_Offline),
         iqv_steer_supported = is_some_and (\<lambda>c. permits c TurnSteer) (capabilities_of s x)\<rparr>)"

definition attention_inbox :: "canonical_state \<Rightarrow> host_id \<Rightarrow> attention_inbox_view" where
  "attention_inbox s hid =
     \<lparr>aiv_entries = sort_key (\<lambda>a. case at_expires_at_ms a of None \<Rightarrow> i64_MAX | Some e \<Rightarrow> e)
       (filter (\<lambda>a. at_host_id a = hid \<and> attention_is_open (at_state a)) (attention_entries s))\<rparr>"

definition unavailable_runtime_blockers ::
  "step \<Rightarrow> (step_id \<times> step_state) list \<Rightarrow> bool \<Rightarrow> step_blocker list" where
  "unavailable_runtime_blockers step dependency_states gate_open =
     (if st_state step \<noteq> Ready then [NotSchedulable (st_state step)] else [])
     @ map DependencyIncomplete (filter (\<lambda>d. \<not> list_ex (\<lambda>(i, st). i = d \<and> st \<in> {Completed, Skipped})
         dependency_states) (st_depends_on step))
     @ map CapabilityNotSupported (rs_required (sa_selector (st_assignment step)))
     @ (if gate_open then map HumanGateOpen (opt_list (st_human_gate step)) else [])"

definition dependency_states_of :: "canonical_state \<Rightarrow> step \<Rightarrow> (step_id \<times> step_state) list" where
  "dependency_states_of s step = List.map_filter
     (\<lambda>d. map_option (\<lambda>x. (st_id x, st_state x)) (bt_get (cs_steps s) d)) (st_depends_on step)"

definition step_runtime :: "canonical_state \<Rightarrow> project option \<Rightarrow> step \<Rightarrow> provider_runtime option" where
  "step_runtime s project step =
     Option.bind (Option.bind project (\<lambda>p.
         find (\<lambda>b. pb_id b = sa_project_binding_id (st_assignment step)) (pj_bindings p)))
       (\<lambda>b. bt_get (cs_runtimes s) (pb_runtime_id b))"

definition step_gate_open :: "canonical_state \<Rightarrow> step \<Rightarrow> bool" where
  "step_gate_open s step = is_some_and (\<lambda>a. attention_is_open (at_state a))
     (Option.bind (st_human_gate step) (bt_get (cs_attention s)))"

definition board_step :: "canonical_state \<Rightarrow> project option \<Rightarrow> step \<Rightarrow> workflow_board_step" where
  "board_step s project step =
     \<lparr>wbs_step_id = st_id step, wbs_title = st_title step, wbs_state = st_state step,
      wbs_depends_on = st_depends_on step, wbs_assignment = st_assignment step,
      wbs_session_id = st_session_id step,
      wbs_blockers = (case step_runtime s project step of
          Some r \<Rightarrow> blockers step (dependency_states_of s step) (rt_capabilities r) (step_gate_open s step)
        | None \<Rightarrow> unavailable_runtime_blockers step (dependency_states_of s step) (step_gate_open s step))\<rparr>"

definition workflow_board :: "canonical_state \<Rightarrow> workflow_id \<Rightarrow> workflow_board_view state_result" where
  "workflow_board s wid =
     and_then (ok_or (bt_get (cs_workflows s) wid) (UnknownWorkflow wid)) (\<lambda>w.
       let project = bt_get (cs_projects s) (wf_project_id w)
       in Inr \<lparr>wbv_workflow_id = wf_id w, wbv_state = workflow.wf_state w,
         wbv_steps = map (board_step s project) (List.map_filter (bt_get (cs_steps s)) (wf_step_ids w)),
         wbv_artifacts = artifacts_of s wid\<rparr>)"

definition runtime_capability :: "canonical_state \<Rightarrow> provider_runtime_id \<Rightarrow> runtime_capability_view state_result" where
  "runtime_capability s rid =
     and_then (ok_or (bt_get (cs_runtimes s) rid) (UnknownRuntime rid)) (\<lambda>r.
       Inr (from_capabilities (rt_host_id r) (rt_capabilities r)))"

fun build_view :: "canonical_state \<Rightarrow> projection_key \<Rightarrow> projection_payload state_result" where
  "build_view s (Key_ProjectIndex hid) = and_then (project_index s hid) (\<lambda>v. Inr (View_ProjectIndex v))"
| "build_view s (Key_SessionIndex pid) = Inr (View_SessionIndex (session_index s pid))"
| "build_view s (Key_Transcript sid) = and_then (transcript s sid) (\<lambda>v. Inr (View_Transcript v))"
| "build_view s (Key_LiveActivity sid) = and_then (live_activity s sid) (\<lambda>v. Inr (View_LiveActivity v))"
| "build_view s (Key_InputQueue sid) = and_then (input_queue s sid) (\<lambda>v. Inr (View_InputQueue v))"
| "build_view s (Key_AttentionInbox hid) = Inr (View_AttentionInbox (attention_inbox s hid))"
| "build_view s (Key_WorkflowBoard wid) = and_then (workflow_board s wid) (\<lambda>v. Inr (View_WorkflowBoard v))"
| "build_view s (Key_RuntimeCapability _ rid) =
     and_then (runtime_capability s rid) (\<lambda>v. Inr (View_RuntimeCapability v))"

definition build_projection :: "canonical_state \<Rightarrow> projection_key \<Rightarrow> projection_payload state_result" where
  "build_projection s key =
     and_then (build_view s key) (\<lambda>payload.
     and_then (map_err State_Contract (payload_validate_for_key key payload)) (\<lambda>_. Inr payload))"

section \<open>The fan-out matrix\<close>

definition push_unique :: "projection_key \<Rightarrow> projection_key list \<Rightarrow> projection_key list" where
  "push_unique key keys = (if key \<in> set keys then keys else keys @ [key])"

definition push_host_roots :: "host_id \<Rightarrow> projection_key list \<Rightarrow> projection_key list" where
  "push_host_roots hid keys = push_unique (Key_AttentionInbox hid) (push_unique (Key_ProjectIndex hid) keys)"

definition project_host_ids :: "canonical_state \<Rightarrow> project_id \<Rightarrow> host_id list" where
  "project_host_ids s pid =
     (case bt_get (cs_projects s) pid of
        None \<Rightarrow> []
      | Some p \<Rightarrow> fold (\<lambda>b host_ids. case bt_get (cs_runtimes s) (pb_runtime_id b) of
            Some r \<Rightarrow> (if rt_host_id r \<in> set host_ids then host_ids else host_ids @ [rt_host_id r])
          | None \<Rightarrow> host_ids) (pj_bindings p) [])"

definition push_project :: "canonical_state \<Rightarrow> project_id \<Rightarrow> projection_key list \<Rightarrow> projection_key list" where
  "push_project s pid keys = fold (\<lambda>hid. push_unique (Key_ProjectIndex hid)) (project_host_ids s pid) keys"

definition push_session :: "canonical_state \<Rightarrow> session \<Rightarrow> projection_key list \<Rightarrow> projection_key list" where
  "push_session s x keys =
     push_project s (se_project_id x)
       (push_unique (Key_InputQueue (se_id x)) (push_unique (Key_LiveActivity (se_id x))
         (push_unique (Key_Transcript (se_id x)) (push_unique (Key_SessionIndex (se_project_id x)) keys))))"

definition push_known_session ::
  "canonical_state \<Rightarrow> session_id \<Rightarrow> projection_key list \<Rightarrow> projection_key list" where
  "push_known_session s sid keys =
     (case bt_get (cs_sessions s) sid of None \<Rightarrow> keys | Some x \<Rightarrow> push_session s x keys)"

definition push_runtime_sessions ::
  "canonical_state \<Rightarrow> provider_runtime_id \<Rightarrow> projection_key list \<Rightarrow> projection_key list" where
  "push_runtime_sessions s rid keys = fold (push_session s)
     (filter (\<lambda>x. is_some_and (\<lambda>r. rt_id r = rid) (runtime_of s x)) (bt_values (cs_sessions s))) keys"

definition push_project_workflows ::
  "canonical_state \<Rightarrow> project_id \<Rightarrow> projection_key list \<Rightarrow> projection_key list" where
  "push_project_workflows s pid keys = fold (\<lambda>w. push_unique (Key_WorkflowBoard (wf_id w)))
     (filter (\<lambda>w. wf_project_id w = pid) (bt_values (cs_workflows s))) keys"

definition push_runtime_workflows ::
  "canonical_state \<Rightarrow> provider_runtime_id \<Rightarrow> projection_key list \<Rightarrow> projection_key list" where
  "push_runtime_workflows s rid keys = fold (\<lambda>p. push_project_workflows s (pj_id p))
     (filter (\<lambda>p. list_ex (\<lambda>b. pb_runtime_id b = rid) (pj_bindings p)) (bt_values (cs_projects s))) keys"

definition push_all_workflows :: "canonical_state \<Rightarrow> projection_key list \<Rightarrow> projection_key list" where
  "push_all_workflows s keys = fold (\<lambda>w. push_unique (Key_WorkflowBoard (wf_id w))) (bt_values (cs_workflows s)) keys"

definition push_attention :: "canonical_state \<Rightarrow> attention_item \<Rightarrow> projection_key list \<Rightarrow> projection_key list" where
  "push_attention s a keys =
     (let keys = push_project s (at_project_id a) (push_unique (Key_AttentionInbox (at_host_id a)) keys)
      in case at_session_id a of None \<Rightarrow> keys | Some sid \<Rightarrow> push_known_session s sid keys)"

fun affected_keys :: "canonical_state \<Rightarrow> canonical_state \<Rightarrow> state_effect \<Rightarrow> projection_key list" where
  "affected_keys before after (HostUpserted h) = push_host_roots (ho_id h) []"
| "affected_keys before after (RuntimeUpserted r) =
     (let keys = (case bt_get (cs_runtimes before) (rt_id r) of
            Some previous \<Rightarrow> push_unique (Key_ProjectIndex (rt_host_id previous)) []
          | None \<Rightarrow> []);
          keys = push_unique (Key_ProjectIndex (rt_host_id r)) keys;
          keys = push_unique (Key_RuntimeCapability (rt_host_id r) (rt_id r)) keys;
          keys = push_runtime_sessions after (rt_id r) (push_runtime_sessions before (rt_id r) keys)
      in push_runtime_workflows after (rt_id r) (push_runtime_workflows before (rt_id r) keys))"
| "affected_keys before after (CapabilitiesUpdated c) =
     (let keys = (case bt_get (cs_runtimes after) (rc_runtime_id c) of
            Some r \<Rightarrow> push_unique (Key_RuntimeCapability (rt_host_id r) (rt_id r)) []
          | None \<Rightarrow> [])
      in push_runtime_workflows after (rc_runtime_id c) (push_runtime_sessions after (rc_runtime_id c) keys))"
| "affected_keys before after (ProjectUpserted p) =
     (let keys = push_project after (pj_id p) (push_project before (pj_id p) []);
          keys = push_unique (Key_SessionIndex (pj_id p)) keys
      in push_project_workflows after (pj_id p) (push_project_workflows before (pj_id p) keys))"
| "affected_keys before after (SessionUpserted x) =
     push_known_session after (se_id x) (push_known_session before (se_id x) [])"
| "affected_keys before after (SessionStatusChanged sid _) = push_known_session after sid []"
| "affected_keys before after (TurnUpserted t) = push_known_session after (tu_session_id t) []"
| "affected_keys before after (ItemUpserted i) =
     push_known_session after (it_session_id i)
       (case bt_get (cs_items before) (it_id i) of
          Some previous \<Rightarrow> push_known_session before (it_session_id previous) []
        | None \<Rightarrow> [])"
| "affected_keys before after (QueueEntryUpserted e) =
     push_known_session after (qe_session_id e)
       (case bt_get (cs_queue before) (qe_id e) of
          Some previous \<Rightarrow> push_known_session before (qe_session_id previous) []
        | None \<Rightarrow> [])"
| "affected_keys before after (QueueReordered sid _) = push_known_session after sid []"
| "affected_keys before after (AttentionUpserted a) =
     (let keys = (case bt_get (cs_attention before) (at_id a) of
            Some previous \<Rightarrow> push_attention before previous []
          | None \<Rightarrow> [])
      in push_all_workflows after (push_attention after a keys))"
| "affected_keys before after (WorkflowUpserted w) =
     (let keys = (case bt_get (cs_workflows before) (wf_id w) of
            Some previous \<Rightarrow> push_project before (wf_project_id previous) []
          | None \<Rightarrow> [])
      in push_unique (Key_WorkflowBoard (wf_id w)) (push_project after (wf_project_id w) keys))"
| "affected_keys before after (StepUpserted x) =
     (let keys = (case bt_get (cs_steps before) (st_id x) of
            Some previous \<Rightarrow> push_unique (Key_WorkflowBoard (st_workflow_id previous)) []
          | None \<Rightarrow> [])
      in push_unique (Key_WorkflowBoard (st_workflow_id x)) keys)"
| "affected_keys before after (ArtifactUpserted a) =
     push_unique (Key_WorkflowBoard (ar_workflow_id a))
       (fold (\<lambda>w. push_unique (Key_WorkflowBoard (wf_id w)))
         (filter (\<lambda>w. list_ex (\<lambda>x. ar_id x = ar_id a) (artifacts_of before (wf_id w))) (bt_values (cs_workflows before)))
         [])"
| "affected_keys before after (CommandAcknowledged _) = []"
| "affected_keys before after (DiagnosticRecorded _) = []"

end
