(* ===== verification/Fanout.thy ===== *)
theory Fanout
  imports Projection_Build
begin

text \<open>
  Completeness of the fan-out matrix for the views of one session. \<open>session_frame\<close> says what a
  transition leaves alone of a session; \<open>touches\<close> names the sessions an effect can reach. An effect
  that does not touch a session keeps its frame, and the frame determines the session's views.
\<close>

section \<open>What the views of a session read\<close>

definition turn_facts :: "turn \<Rightarrow> turn" where
  "turn_facts t = t\<lparr>tu_item_ids := []\<rparr>"

definition session_frame :: "session_id \<Rightarrow> canonical_state \<Rightarrow> canonical_state \<Rightarrow> bool" where
  "session_frame sid s s' \<longleftrightarrow>
     bt_get (cs_sessions s') sid = bt_get (cs_sessions s) sid
     \<and> bt_get (cs_reported_status s') sid = bt_get (cs_reported_status s) sid
     \<and> map turn_facts (turns_of s' sid) = map turn_facts (turns_of s sid)
     \<and> map turn_facts (filter (\<lambda>t. tu_session_id t = sid) (bt_values (cs_turns s')))
       = map turn_facts (filter (\<lambda>t. tu_session_id t = sid) (bt_values (cs_turns s)))
     \<and> filter (\<lambda>i. it_session_id i = sid) (bt_values (cs_items s'))
       = filter (\<lambda>i. it_session_id i = sid) (bt_values (cs_items s))
     \<and> filter (\<lambda>e. qe_session_id e = sid) (bt_values (cs_queue s'))
       = filter (\<lambda>e. qe_session_id e = sid) (bt_values (cs_queue s))
     \<and> filter (\<lambda>a. at_session_id a = Some sid) (bt_values (cs_attention s'))
       = filter (\<lambda>a. at_session_id a = Some sid) (bt_values (cs_attention s))
     \<and> (\<forall>x. bt_get (cs_sessions s) sid = Some x \<longrightarrow> runtime_of s' x = runtime_of s x)"

lemma fold_if_filter: "fold (\<lambda>x m. if P x then f x m else m) xs a = fold f (filter P xs) a"
  by (induction xs arbitrary: a) simp_all

lemma fold_map_eq:
  assumes "map g xs = map g ys" and "\<And>x. f x = h (g x)"
  shows "fold f xs a = fold f ys a"
proof -
  have "f = h \<circ> g"
    using assms(2) by (simp add: fun_eq_iff)
  then have "fold f zs a = fold h (map g zs) a" for zs
    by (simp add: fold_map)
  then show ?thesis by (simp only: assms(1))
qed

lemma last_activity_frame:
  assumes "session_frame sid s s'"
  shows "last_activity_of s' sid = last_activity_of s sid"
proof -
  define f :: "turn \<Rightarrow> i64 \<Rightarrow> i64" where
    "f t m = max (max m (case tu_completed_at_ms t of Some x \<Rightarrow> x | None \<Rightarrow> i64_MIN))
       (case tu_started_at_ms t of Some x \<Rightarrow> x | None \<Rightarrow> i64_MIN)" for t m
  have "fold f (filter (\<lambda>t. tu_session_id t = sid) (bt_values (cs_turns s'))) a
      = fold f (filter (\<lambda>t. tu_session_id t = sid) (bt_values (cs_turns s))) a" for a
    by (rule fold_map_eq [where g = turn_facts and h = f])
       (use assms in \<open>simp_all add: session_frame_def turn_facts_def f_def fun_eq_iff\<close>)
  then show ?thesis
    using assms by (simp add: last_activity_of_def fold_if_filter session_frame_def flip: f_def)
qed

lemma active_turn_frame:
  assumes "session_frame sid s s'"
  shows "active_turn_of s' sid = active_turn_of s sid"
proof -
  define ids where "ids ts = map tu_id (filter (\<lambda>t. \<not> turn_is_terminal (tu_status t)) ts)" for ts :: "turn list"
  have via: "ids ts = ids (map turn_facts ts)" for ts
    by (simp add: ids_def filter_map o_def turn_facts_def)
  have "active_turn_of z sid = (if ids (turns_of z sid) = [] then None else Some (last (ids (turns_of z sid))))" for z
    by (auto simp: active_turn_of_def ids_def last_map split: list.split)
  moreover have "ids (turns_of s' sid) = ids (turns_of s sid)"
    using assms via [of "turns_of s' sid"] via [of "turns_of s sid"] by (simp add: session_frame_def)
  ultimately show ?thesis by simp
qed

lemma filter_conj: "filter (\<lambda>x. P x \<and> Q x) xs = filter Q (filter P xs)"
  by (simp add: conj_commute)

lemma derive_session_frame:
  assumes "session_frame sid s s'" "bt_get (cs_sessions s) sid = Some x"
  shows "derive_session s' sid x = derive_session s sid x"
proof -
  have "open_attention_of s' sid = open_attention_of s sid"
    using assms(1) by (simp add: open_attention_of_def filter_conj session_frame_def del: filter_filter)
  moreover have "filter (\<lambda>e. qe_session_id e = sid \<and> is_pending (qe_state e)) (bt_values (cs_queue s'))
      = filter (\<lambda>e. qe_session_id e = sid \<and> is_pending (qe_state e)) (bt_values (cs_queue s))"
    using assms(1) by (simp add: filter_conj session_frame_def del: filter_filter)
  moreover have "runtime_of s' x = runtime_of s x"
    "bt_get (cs_reported_status s') sid = bt_get (cs_reported_status s) sid"
    using assms by (simp_all add: session_frame_def)
  ultimately show ?thesis
    using last_activity_frame [OF assms(1)] active_turn_frame [OF assms(1)]
    by (simp add: derive_session_def)
qed

section \<open>The state after the recomputation\<close>

lemma recompute_keeps:
  assumes "maps_wf s"
  shows "cs_hosts (recompute_derived s) = cs_hosts s" "cs_runtimes (recompute_derived s) = cs_runtimes s"
    "cs_turns (recompute_derived s) = cs_turns s" "cs_turn_order (recompute_derived s) = cs_turn_order s"
    "cs_items (recompute_derived s) = cs_items s" "cs_queue (recompute_derived s) = cs_queue s"
    "cs_attention (recompute_derived s) = cs_attention s"
    "cs_attention_order (recompute_derived s) = cs_attention_order s"
    "cs_workflows (recompute_derived s) = cs_workflows s" "cs_steps (recompute_derived s) = cs_steps s"
    "cs_artifacts (recompute_derived s) = cs_artifacts s"
    "cs_acks (recompute_derived s) = cs_acks s"
    "cs_reported_status (recompute_derived s) = cs_reported_status s"
  by (simp_all add: recompute_frame [OF assms] derive_projects_def derive_sessions_def)

lemma recompute_session_get:
  assumes "maps_wf s"
  shows "bt_get (cs_sessions (recompute_derived s)) sid =
    map_option (derive_session s sid) (bt_get (cs_sessions s) sid)"
  by (simp add: recompute_frame [OF assms] derive_projects_def derive_sessions_def)

lemma recompute_runtime_of:
  assumes "maps_wf s"
  shows "runtime_of (recompute_derived s) x = runtime_of s x"
  by (rule runtime_of_keeps)
     (simp_all add: recompute_frame [OF assms] derive_projects_def derive_sessions_def option.map_comp o_def)

lemma frame_session_kept:
  assumes "wf_state s" "session_frame sid s t" "maps_wf t"
  shows "bt_get (cs_sessions (recompute_derived t)) sid = bt_get (cs_sessions s) sid"
proof (cases "bt_get (cs_sessions s) sid")
  case None
  with assms show ?thesis by (simp add: recompute_session_get session_frame_def)
next
  case (Some x)
  then have "derive_session t sid x = x"
    using derive_session_frame [OF assms(2)] derived_session [OF assms(1)] by simp
  with Some assms show ?thesis
    by (simp add: recompute_session_get session_frame_def)
qed

section \<open>Updates outside a selection\<close>

lemma filter_values_insert:
  assumes "\<not> P v" and "\<not> is_some_and P (bt_get m k)"
  shows "filter P (bt_values (bt_insert k v m)) = filter P (bt_values m)"
  using assms
proof (induction m)
  case (Cons e m)
  then show ?case
    by (cases e) (auto simp: bt_get_def bt_values_def split: if_splits)
qed (simp add: bt_values_def)

lemma map_values_adjust:
  assumes "bt_wf m" and "\<And>old. bt_get m k = Some old \<Longrightarrow> g (f old) = g old \<and> P (f old) = P old"
  shows "map g (filter P (bt_values (bt_adjust k f m))) = map g (filter P (bt_values m))"
proof -
  have "\<forall>(k', v) \<in> set m. k' = k \<longrightarrow> g (f v) = g v \<and> P (f v) = P v"
    using assms by (auto simp: bt_get_mem)
  then show ?thesis
    by (induction m) (auto simp: bt_adjust_def bt_values_def split: if_splits)
qed

lemma filter_values_adjust:
  assumes "bt_wf m" and "\<And>old. bt_get m k = Some old \<Longrightarrow> \<not> P old \<and> \<not> P (f old)"
  shows "filter P (bt_values (bt_adjust k f m)) = filter P (bt_values m)"
proof -
  have "\<forall>(k', v) \<in> set m. k' = k \<longrightarrow> \<not> P v \<and> \<not> P (f v)"
    using assms by (auto simp: bt_get_mem)
  then show ?thesis
    by (induction m) (auto simp: bt_adjust_def bt_values_def split: if_splits)
qed

lemma filter_map_filter_cong:
  assumes "\<And>k. k \<in> set ks \<Longrightarrow> f k = g k \<or> (\<forall>v. f k = Some v \<longrightarrow> \<not> P v) \<and> (\<forall>v. g k = Some v \<longrightarrow> \<not> P v)"
  shows "filter P (List.map_filter f ks) = filter P (List.map_filter g ks)"
  using assms
proof (induction ks)
  case (Cons k ks)
  then have "filter P (List.map_filter f ks) = filter P (List.map_filter g ks)"
    by simp
  with Cons.prems [of k] show ?case
    by (cases "f k"; cases "g k") (auto simp: List.map_filter_simps)
qed simp

lemma map_filter_cong: "(\<And>k. k \<in> set ks \<Longrightarrow> f k = g k) \<Longrightarrow> List.map_filter f ks = List.map_filter g ks"
  by (induction ks) (simp_all add: List.map_filter_simps split: option.split)

lemma turns_of_mem:
  "t \<in> set (turns_of s sid) \<longleftrightarrow> tu_session_id t = sid \<and> (\<exists>k \<in> set (cs_turn_order s). bt_get (cs_turns s) k = Some t)"
proof -
  have "t \<in> set (List.map_filter f ks) \<longleftrightarrow> (\<exists>k \<in> set ks. f k = Some t)" for f :: "turn_id \<Rightarrow> turn option" and ks
    by (induction ks) (auto simp: List.map_filter_simps split: option.split)
  then show ?thesis by (auto simp: turns_of_def)
qed

section \<open>Which sessions an effect can reach\<close>

definition session_runtime_id :: "canonical_state \<Rightarrow> session \<Rightarrow> provider_runtime_id option" where
  "session_runtime_id s x =
     opt_or (map_option bh_runtime_id (se_binding_handle x))
       (opt_or (hs_runtime_id (se_history_source x))
         (Option.bind (bt_get (cs_projects s) (se_project_id x)) (\<lambda>p.
           map_option pb_runtime_id (find (\<lambda>b. pb_id b = se_project_binding_id x) (pj_bindings p)))))"

lemma runtime_of_eq: "runtime_of s x = Option.bind (session_runtime_id s x) (bt_get (cs_runtimes s))"
  by (simp add: runtime_of_def session_runtime_id_def)

lemma session_runtime_id_frame:
  "cs_projects s' = cs_projects s \<Longrightarrow> session_runtime_id s' x = session_runtime_id s x"
  by (simp add: session_runtime_id_def)

definition touches :: "canonical_state \<Rightarrow> session_id \<Rightarrow> state_effect \<Rightarrow> bool" where
  "touches s sid effect = (case effect of
     RuntimeUpserted r \<Rightarrow> is_some_and (\<lambda>x. session_runtime_id s x = Some (rt_id r)) (bt_get (cs_sessions s) sid)
   | CapabilitiesUpdated c \<Rightarrow>
       is_some_and (\<lambda>x. session_runtime_id s x = Some (rc_runtime_id c)) (bt_get (cs_sessions s) sid)
   | SessionUpserted x \<Rightarrow> se_id x = sid
   | SessionStatusChanged i _ \<Rightarrow> i = sid
   | TurnUpserted t \<Rightarrow> tu_session_id t = sid
   | ItemUpserted i \<Rightarrow> it_session_id i = sid
       \<or> is_some_and (\<lambda>old. it_session_id old = sid) (bt_get (cs_items s) (it_id i))
   | QueueEntryUpserted e \<Rightarrow> qe_session_id e = sid
       \<or> is_some_and (\<lambda>old. qe_session_id old = sid) (bt_get (cs_queue s) (qe_id e))
   | QueueReordered i _ \<Rightarrow> i = sid
   | AttentionUpserted a \<Rightarrow> at_session_id a = Some sid
       \<or> is_some_and (\<lambda>old. at_session_id old = Some sid) (bt_get (cs_attention s) (at_id a))
   | _ \<Rightarrow> False)"

lemma runtime_insert_frame:
  assumes "\<not> is_some_and (\<lambda>x. session_runtime_id s x = Some k) (bt_get (cs_sessions s) sid)"
    and "cs_projects s' = cs_projects s" "\<And>i. i \<noteq> k \<Longrightarrow> bt_get (cs_runtimes s') i = bt_get (cs_runtimes s) i"
    and "bt_get (cs_sessions s) sid = Some x"
  shows "runtime_of s' x = runtime_of s x"
proof -
  have "session_runtime_id s' x = session_runtime_id s x"
    using assms(2) by (rule session_runtime_id_frame)
  moreover have "session_runtime_id s x \<noteq> Some k"
    using assms(1,4) by simp
  ultimately show ?thesis
    using assms(3) by (cases "session_runtime_id s x") (auto simp: runtime_of_eq)
qed

lemma turns_of_insert:
  assumes "tu_session_id t \<noteq> sid" and "\<And>old. bt_get (cs_turns s) k = Some old \<Longrightarrow> tu_session_id old \<noteq> sid"
  shows "turns_of (s\<lparr>cs_turn_order := push_new (cs_turn_order s) k, cs_turns := bt_insert k t (cs_turns s)\<rparr>) sid
    = turns_of s sid"
proof -
  have "filter (\<lambda>t. tu_session_id t = sid) (List.map_filter (bt_get (bt_insert k t (cs_turns s))) ks)
      = filter (\<lambda>t. tu_session_id t = sid) (List.map_filter (bt_get (cs_turns s)) ks)" for ks
    by (rule filter_map_filter_cong) (use assms in auto)
  moreover have "List.map_filter f (push_new ks k) =
      (if k \<in> set ks then List.map_filter f ks else List.map_filter f ks @ opt_list (f k))" for f :: "turn_id \<Rightarrow> turn option" and ks
    by (auto simp: push_new_def List.map_filter_def)
  ultimately show ?thesis
    using assms by (auto simp: turns_of_def)
qed

section \<open>An effect keeps the sessions it does not touch\<close>

lemma turns_of_keeps: "cs_turns s' = cs_turns s \<Longrightarrow> cs_turn_order s' = cs_turn_order s \<Longrightarrow> turns_of s' sid = turns_of s sid"
  by (simp add: turns_of_def)

lemma runtime_of_same: "cs_projects s' = cs_projects s \<Longrightarrow> cs_runtimes s' = cs_runtimes s \<Longrightarrow> runtime_of s' x = runtime_of s x"
  by (rule runtime_of_keeps) simp_all

lemma frame_runtimes:
  assumes "\<And>i. i \<noteq> rid \<Longrightarrow> bt_get rs i = bt_get (cs_runtimes s) i"
    and "\<not> is_some_and (\<lambda>x. session_runtime_id s x = Some rid) (bt_get (cs_sessions s) sid)"
  shows "session_frame sid s (s\<lparr>cs_runtimes := rs\<rparr>)"
proof -
  have "runtime_of (s\<lparr>cs_runtimes := rs\<rparr>) x = runtime_of s x" if "bt_get (cs_sessions s) sid = Some x" for x
    using that assms by (intro runtime_insert_frame) simp_all
  then show ?thesis
    by (simp add: session_frame_def turns_of_def)
qed

lemma frame_turn:
  assumes "apply_turn u s = Inr t" "tu_session_id u \<noteq> sid"
  shows "session_frame sid s t"
  using assms(1)
proof (cases rule: apply_turn_ok)
  case (1 merged)
  have other: "tu_session_id merged \<noteq> sid" "\<And>old. bt_get (cs_turns s) (tu_id u) = Some old \<Longrightarrow> tu_session_id old \<noteq> sid"
    using 1(6) assms(2) by (auto split: option.splits dest: merge_turn_keeps)
  have "turns_of t sid = turns_of s sid"
    unfolding 1(5) by (rule turns_of_insert) (use other in auto)
  moreover have "filter (\<lambda>t. tu_session_id t = sid) (bt_values (cs_turns t))
      = filter (\<lambda>t. tu_session_id t = sid) (bt_values (cs_turns s))"
    unfolding 1(5) using other by (simp add: filter_values_insert is_some_and_iff)
  moreover have "runtime_of t x = runtime_of s x" for x
    unfolding 1(5) by (rule runtime_of_same) simp_all
  ultimately show ?thesis
    unfolding session_frame_def by (simp add: 1(5))
qed

lemma frame_item:
  assumes "maps_wf s" "apply_item i s = Inr t" "\<not> touches s sid (ItemUpserted i)"
  shows "session_frame sid s t"
  using assms(2)
proof (cases rule: apply_item_ok)
  case (1 u)
  define w where "w = u\<lparr>tu_item_ids := push_new (tu_item_ids u) (it_id i)\<rparr>"
  have w: "turn_facts w = turn_facts u" "tu_session_id w = tu_session_id u"
    by (simp_all add: w_def turn_facts_def)
  have wf: "bt_wf (cs_turns s)"
    using assms(1) by (auto dest: maps_wfD keyed_wf)
  have vals: "map turn_facts (filter (\<lambda>t. tu_session_id t = sid) (bt_values (cs_turns t)))
      = map turn_facts (filter (\<lambda>t. tu_session_id t = sid) (bt_values (cs_turns s)))"
    using 1(1) w map_values_adjust [OF wf, of "it_turn_id i" turn_facts "\<lambda>_. w" "\<lambda>t. tu_session_id t = sid"]
    by (simp add: 1(3) flip: w_def)
  have "bt_get (cs_turns t) k = map_option (\<lambda>v. if k = it_turn_id i then w else v) (bt_get (cs_turns s) k)" for k
    unfolding 1(3) by (cases "bt_get (cs_turns s) k") (auto simp: w_def)
  then have "map turn_facts (filter (\<lambda>t. tu_session_id t = sid) (List.map_filter (bt_get (cs_turns t)) ks))
      = map turn_facts (filter (\<lambda>t. tu_session_id t = sid) (List.map_filter (bt_get (cs_turns s)) ks))" for ks
    using 1(1) w by (induction ks) (auto simp: List.map_filter_simps split: option.split)
  then have turns: "map turn_facts (turns_of t sid) = map turn_facts (turns_of s sid)"
    by (simp add: turns_of_def 1(3))
  have items: "filter (\<lambda>i. it_session_id i = sid) (bt_values (cs_items t))
      = filter (\<lambda>i. it_session_id i = sid) (bt_values (cs_items s))"
    unfolding 1(3) using assms(3) by (simp add: filter_values_insert touches_def)
  have "runtime_of t x = runtime_of s x" for x
    unfolding 1(3) by (rule runtime_of_same) simp_all
  with vals turns items show ?thesis
    unfolding session_frame_def by (simp add: 1(3))
qed

lemma filter_values_reorder:
  assumes "bt_wf m" "i \<noteq> sid"
  shows "filter (\<lambda>e. qe_session_id e = sid) (bt_values (fold (\<lambda>(position, k).
      bt_adjust k (\<lambda>e. if qe_session_id e = i then e\<lparr>qe_position := of_nat position\<rparr> else e)) xs m))
    = filter (\<lambda>e. qe_session_id e = sid) (bt_values m)"
  using assms(1)
proof (induction xs arbitrary: m)
  case (Cons x xs)
  obtain position k where x: "x = (position, k)" by (cases x)
  let ?m = "bt_adjust k (\<lambda>e. if qe_session_id e = i then e\<lparr>qe_position := of_nat position\<rparr> else e) m"
  have "filter (\<lambda>e. qe_session_id e = sid) (bt_values ?m) = filter (\<lambda>e. qe_session_id e = sid) (bt_values m)"
    using assms(2) by (induction m) (auto simp: bt_adjust_def bt_values_def split: if_splits)
  with Cons x show ?case by simp
qed simp

lemma untouched_frame:
  assumes "maps_wf s" "apply_effect e s = Inr t" "\<not> touches s sid e" "\<And>p. e \<noteq> ProjectUpserted p"
  shows "session_frame sid s t"
proof (cases e)
  case (SessionUpserted x)
  with assms show ?thesis
    by (auto simp: session_frame_def touches_def turns_of_def elim!: apply_session_ok intro: runtime_of_same)
next
  case (QueueReordered i order)
  moreover have "bt_wf (cs_queue s)"
    using assms(1) by (auto dest: maps_wfD keyed_wf)
  ultimately show ?thesis
    using assms(2,3)
    by (auto simp: session_frame_def touches_def turns_of_def apply_reorder_def filter_values_reorder intro: runtime_of_same)
next
  case (RuntimeUpserted r)
  with assms show ?thesis
    by (auto simp: touches_def applied intro!: frame_runtimes [where rid = "rt_id r"])
next
  case (CapabilitiesUpdated c)
  with assms show ?thesis
    by (auto simp: touches_def applied intro!: frame_runtimes [where rid = "rc_runtime_id c"])
next
  case (TurnUpserted u)
  with assms show ?thesis
    by (intro frame_turn [of u]) (simp_all add: touches_def)
next
  case (ItemUpserted i)
  with assms show ?thesis
    by (intro frame_item [of _ i]) simp_all
qed (use assms in \<open>auto intro: runtime_of_same
    simp: touches_def applied session_frame_def turns_of_def filter_values_insert\<close>)

section \<open>The keys a touched session gets\<close>

definition session_keys :: "session_id \<Rightarrow> projection_key set" where
  "session_keys sid = {Key_Transcript sid, Key_LiveActivity sid, Key_InputQueue sid}"

lemma set_push_unique [simp]: "set (push_unique k ks) = insert k (set ks)"
  by (auto simp: push_unique_def)

lemma fold_mono:
  assumes "\<And>x ks. set ks \<subseteq> set (f x ks)"
  shows "set ks \<subseteq> set (fold f xs ks)"
proof (induction xs arbitrary: ks)
  case (Cons x xs)
  have "set ks \<subseteq> set (f x ks)" by (rule assms)
  also have "\<dots> \<subseteq> set (fold f xs (f x ks))" by (rule Cons.IH)
  finally show ?case by simp
qed simp

lemma set_push_project: "set ks \<subseteq> set (push_project s pid ks)"
  unfolding push_project_def by (rule fold_mono) auto

lemma push_session_mono: "set ks \<subseteq> set (push_session s x ks)"
  unfolding push_session_def using set_push_project by (rule subset_trans [rotated]) auto

lemma push_session_keys: "session_keys (se_id x) \<subseteq> set (push_session s x ks)"
  unfolding push_session_def session_keys_def using set_push_project by (rule subset_trans [rotated]) auto

lemma push_known_mono: "set ks \<subseteq> set (push_known_session s sid ks)"
  using push_session_mono by (auto simp: push_known_session_def split: option.split)

lemma push_known_keys:
  assumes "maps_wf s" "bt_get (cs_sessions s) sid = Some x"
  shows "session_keys sid \<subseteq> set (push_known_session s sid ks)"
proof -
  have "se_id x = sid"
    using assms by (auto dest: maps_wfD keyed_get)
  then show ?thesis
    using push_session_keys [of x s ks] assms(2) by (simp add: push_known_session_def)
qed

lemma fold_keys:
  assumes "\<And>x ks. set ks \<subseteq> set (f x ks)" "x \<in> set xs" "\<And>ks. A \<subseteq> set (f x ks)"
  shows "A \<subseteq> set (fold f xs ks)"
proof -
  obtain ys zs where "xs = ys @ x # zs"
    using assms(2) by (meson split_list)
  moreover have "A \<subseteq> set (fold f zs (f x (fold f ys ks)))"
    using assms(3) fold_mono [of f, OF assms(1)] by blast
  ultimately show ?thesis by simp
qed

lemma push_runtime_sessions_mono: "set ks \<subseteq> set (push_runtime_sessions s rid ks)"
  unfolding push_runtime_sessions_def by (rule fold_mono) (rule push_session_mono)

lemma push_runtime_sessions_keys:
  assumes "maps_wf s" "bt_get (cs_sessions s) sid = Some x" "runtime_of s x = Some r" "rt_id r = rid"
  shows "session_keys sid \<subseteq> set (push_runtime_sessions s rid ks)"
proof -
  have "se_id x = sid" "x \<in> set (bt_values (cs_sessions s))"
    using assms(1,2) by (auto dest: maps_wfD keyed_get bt_get_values)
  then show ?thesis
    unfolding push_runtime_sessions_def using assms(3,4) push_session_keys [of x s]
    by (intro fold_keys [OF push_session_mono, of x]) auto
qed

lemma push_project_workflows_mono: "set ks \<subseteq> set (push_project_workflows s pid ks)"
  unfolding push_project_workflows_def by (rule fold_mono) auto

lemma push_runtime_workflows_mono: "set ks \<subseteq> set (push_runtime_workflows s rid ks)"
  unfolding push_runtime_workflows_def by (rule fold_mono) (rule push_project_workflows_mono)

lemma push_all_workflows_mono: "set ks \<subseteq> set (push_all_workflows s ks)"
  unfolding push_all_workflows_def by (rule fold_mono) auto

lemma push_attention_mono: "set ks \<subseteq> set (push_attention s a ks)"
proof -
  have "set ks \<subseteq> set (push_project s (at_project_id a) (push_unique (Key_AttentionInbox (at_host_id a)) ks))"
    using set_push_project by (rule subset_trans [rotated]) auto
  then show ?thesis
    using push_known_mono
    by (cases "at_session_id a") (simp_all add: push_attention_def Let_def, blast)
qed

lemma push_attention_keys:
  assumes "maps_wf s" "at_session_id a = Some sid" "bt_get (cs_sessions s) sid = Some x"
  shows "session_keys sid \<subseteq> set (push_attention s a ks)"
  using push_known_keys [OF assms(1,3)] assms(2) by (simp add: push_attention_def Let_def)

lemmas push_mono = push_known_mono push_runtime_sessions_mono push_runtime_workflows_mono
  push_all_workflows_mono push_attention_mono

lemma touched_runtime:
  assumes "maps_wf s" "maps_wf t" "s' = recompute_derived t" "cs_projects t = cs_projects s" "cs_sessions t = cs_sessions s"
    and "bt_get (cs_sessions s) sid = Some x" "session_runtime_id s x = Some rid"
    and "bt_get (cs_runtimes t) rid = Some r"
  shows "session_keys sid \<subseteq> set (push_runtime_sessions s' rid ks)"
proof (rule push_runtime_sessions_keys)
  let ?y = "derive_session t sid x"
  show "maps_wf s'"
    by (simp add: assms(2,3) recompute_maps)
  show "bt_get (cs_sessions s') sid = Some ?y"
    by (simp add: assms(2,3,5,6) recompute_session_get)
  have "runtime_of s' ?y = runtime_of t ?y"
    by (simp add: assms(2,3) recompute_runtime_of)
  also have "\<dots> = runtime_of t x"
    by (rule runtime_of_keeps) simp_all
  also have "\<dots> = Some r"
    using session_runtime_id_frame [OF assms(4), of x] assms(7,8) by (simp add: runtime_of_eq)
  finally show "runtime_of s' ?y = Some r" .
  show "rt_id r = rid"
    using assms(2,8) by (auto dest: maps_wfD keyed_get)
qed

lemma touched_keys:
  assumes "maps_wf s" "maps_wf t" "apply_effect e s = Inr t" "s' = recompute_derived t" "touches s sid e"
    and "bt_get (cs_sessions s) sid = Some x" "bt_get (cs_sessions s') sid = Some x'"
  shows "session_keys sid \<subseteq> set (affected_keys s s' e)"
proof -
  have s': "maps_wf s'"
    by (simp add: assms(2,4) recompute_maps)
  note known = push_known_keys [OF assms(1,6)] push_known_keys [OF s' assms(7)]
  have via: "session_keys sid \<subseteq> set (push_known_session z i (push_known_session s sid ks))" for z i ks
    using known(1) push_known_mono by (rule subset_trans)
  show ?thesis
  proof (cases e)
    case (RuntimeUpserted r)
    then have "session_runtime_id s x = Some (rt_id r)"
      using assms(5,6) by (simp add: touches_def)
    then have "session_keys sid \<subseteq> set (push_runtime_sessions s' (rt_id r) ks)" for ks
      using RuntimeUpserted assms by (intro touched_runtime [of s t s' sid x "rt_id r" r]) (simp_all add: applied)
    then show ?thesis
      using push_runtime_workflows_mono by (simp add: RuntimeUpserted Let_def) blast
  next
    case (CapabilitiesUpdated c)
    then have id: "session_runtime_id s x = Some (rc_runtime_id c)"
      using assms(5,6) by (simp add: touches_def)
    have t: "t = s\<lparr>cs_runtimes := bt_adjust (rc_runtime_id c) (\<lambda>r. r\<lparr>rt_capabilities := c\<rparr>) (cs_runtimes s)\<rparr>"
      and "bt_get (cs_runtimes s) (rc_runtime_id c) \<noteq> None"
      using CapabilitiesUpdated assms(3) by (simp_all add: applied)
    then obtain r where "bt_get (cs_runtimes t) (rc_runtime_id c) = Some r"
      by auto
    then have "session_keys sid \<subseteq> set (push_runtime_sessions s' (rc_runtime_id c) ks)" for ks
      using id t assms by (intro touched_runtime [of s t s' sid x "rc_runtime_id c" r]) simp_all
    then show ?thesis
      using push_runtime_workflows_mono by (simp add: CapabilitiesUpdated Let_def) blast
  next
    case (AttentionUpserted a)
    consider "at_session_id a = Some sid"
      | old where "bt_get (cs_attention s) (at_id a) = Some old" "at_session_id old = Some sid"
      using assms(5) AttentionUpserted by (auto simp: touches_def is_some_and_iff)
    then show ?thesis
    proof cases
      case 1
      then show ?thesis
        using push_attention_keys [OF s' 1 assms(7)] push_all_workflows_mono
        by (simp add: AttentionUpserted Let_def) blast
    next
      case 2
      then show ?thesis
        using push_attention_keys [OF assms(1) 2(2) assms(6), of "[]"] push_attention_mono push_all_workflows_mono
        by (simp add: AttentionUpserted Let_def) blast
    qed
  qed (use assms(5) known via in \<open>auto simp: touches_def is_some_and_iff Let_def subset_iff\<close>)
qed

section \<open>Views of an untouched session\<close>

lemma transcript_lists_own_items:
  assumes "maps_wf s" "build_projection s (Key_Transcript sid) = Inr p"
    and "t \<in> set (turns_of s sid)" "i \<in> set (tu_item_ids t)"
  shows "\<exists>x. bt_get (cs_items s) i = Some x \<and> it_session_id x = sid"
proof -
  let ?items = "List.map_filter (bt_get (cs_items s)) (tu_item_ids t)"
  have "transcript_turn_check sid \<lparr>tt_turn = t, tt_items = ?items\<rparr> = ok"
    using assms(2,3)
    by (auto simp: build_projection_def transcript_def payload_validate_for_key_def transcript_view_validate_def
        check_simps)
  then have "\<exists>x \<in> set ?items. it_id x = i" "\<forall>x \<in> set ?items. it_session_id x = sid"
    using assms(4) by (auto simp: transcript_turn_check_def dangling_unless_def check_simps list_ex_iff)
  then obtain x where x: "x \<in> set ?items" "it_id x = i" "it_session_id x = sid"
    by auto
  then obtain j where "bt_get (cs_items s) j = Some x"
    by (auto simp: List.map_filter_def)
  with x assms(1) show ?thesis
    by (metis keyed_get maps_wfD(6))
qed

lemma views_frame:
  assumes "wf_state s" "maps_wf t" "session_frame sid s t" "s' = recompute_derived t"
    and "bt_get (cs_sessions s) sid = Some x"
  shows "live_activity s' sid = live_activity s sid" "input_queue s' sid = input_queue s sid"
proof -
  have x: "bt_get (cs_sessions s') sid = Some x"
    using frame_session_kept [OF assms(1,3,2)] assms(4,5) by simp
  have "items_of s' sid = items_of s sid" "queue_of s' sid = queue_of s sid"
    using assms(2-4) by (simp_all add: items_of_def queue_of_def recompute_keeps session_frame_def)
  moreover have "runtime_of s' x = runtime_of s x"
    using assms(2-5) by (simp add: recompute_runtime_of session_frame_def)
  ultimately show "live_activity s' sid = live_activity s sid" "input_queue s' sid = input_queue s sid"
    using x assms(5)
    by (simp_all add: live_activity_def input_queue_def require_session_def streaming_items_def capabilities_of_def
        cong: option.case_cong)
qed

lemma turns_of_adjust:
  assumes "\<And>old. bt_get (cs_turns s) k = Some old \<Longrightarrow> tu_session_id old \<noteq> sid" "tu_session_id w \<noteq> sid"
  shows "filter (\<lambda>t. tu_session_id t = sid) (List.map_filter (bt_get (bt_adjust k (\<lambda>_. w) (cs_turns s))) ks)
    = filter (\<lambda>t. tu_session_id t = sid) (List.map_filter (bt_get (cs_turns s)) ks)"
  by (rule filter_map_filter_cong) (use assms in auto)

lemma transcript_item_frame:
  assumes "wf_state s" "maps_wf t" "apply_item i s = Inr t" "s' = recompute_derived t"
    and "\<not> touches s sid (ItemUpserted i)"
    and "build_projection s (Key_Transcript sid) = Inr p" "build_projection s' (Key_Transcript sid) = Inr q"
  shows "turns_of s' sid = turns_of s sid \<and> (\<forall>u \<in> set (turns_of s sid). it_id i \<notin> set (tu_item_ids u))"
  using assms(3)
proof (cases rule: apply_item_ok)
  case (1 u)
  let ?w = "u\<lparr>tu_item_ids := push_new (tu_item_ids u) (it_id i)\<rparr>"
  have maps: "maps_wf s" "maps_wf s'"
    using assms(1,2,4) by (simp_all add: wf_state_def recompute_maps)
  have after: "turns_of s' sid = turns_of t sid" "bt_get (cs_items s') (it_id i) = Some i"
    using assms(2,4) 1(3) by (simp_all add: turns_of_def recompute_keeps)
  have unlisted: "it_id i \<notin> set (tu_item_ids v)" if "v \<in> set (turns_of s' sid)" for v
    using transcript_lists_own_items [OF maps(2) assms(7) that, of "it_id i"] after(2) assms(5)
    by (auto simp: touches_def)
  have before: "it_id i \<notin> set (tu_item_ids v)" if "v \<in> set (turns_of s sid)" for v
    using transcript_lists_own_items [OF maps(1) assms(6) that, of "it_id i"] assms(5)
    by (auto simp: touches_def)
  have "tu_session_id u \<noteq> sid"
  proof
    assume sid: "tu_session_id u = sid"
    have "it_turn_id i \<in> set (cs_turn_order s)"
      using assms(1) 1(1) by (auto simp: wf_state_def orders_wf_def bt_keys_iff)
    moreover have "bt_get (cs_turns t) (it_turn_id i) = Some ?w" "cs_turn_order t = cs_turn_order s"
      using 1(1) by (simp_all add: 1(3))
    moreover have "tu_session_id ?w = sid"
      using sid by simp
    ultimately have "?w \<in> set (turns_of s' sid)"
      unfolding after(1) turns_of_mem by metis
    from unlisted [OF this] show False
      by (simp add: push_new_def split: if_splits)
  qed
  then have "turns_of t sid = turns_of s sid"
    using turns_of_adjust [of s "it_turn_id i" sid ?w "cs_turn_order s"] 1(1) by (simp add: turns_of_def 1(3))
  with after(1) before show ?thesis by simp
qed

lemma effect_items:
  assumes "apply_effect e s = Inr t" "\<nexists>i. e = ItemUpserted i"
  shows "cs_items t = cs_items s"
proof (cases e)
  case (TurnUpserted u)
  then have "apply_turn u s = Inr t" using assms(1) by simp
  then show ?thesis by (cases rule: apply_turn_ok) simp
next
  case (SessionUpserted x)
  then have "apply_session x s = Inr t" using assms(1) by simp
  then show ?thesis by (cases rule: apply_session_ok) simp
qed (use assms in \<open>auto simp: applied apply_reorder_def apply_project_def Let_def\<close>)

lemma transcript_frame:
  assumes "wf_state s" "maps_wf t" "apply_effect e s = Inr t" "s' = recompute_derived t"
    and "\<not> touches s sid e" "bt_get (cs_sessions s) sid = Some x" "bt_get (cs_sessions s') sid = Some x'"
    and "build_projection s (Key_Transcript sid) = Inr p" "build_projection s' (Key_Transcript sid) = Inr q"
  shows "transcript s' sid = transcript s sid"
proof -
  have "turns_of s' sid = turns_of s sid \<and>
      (\<forall>u \<in> set (turns_of s sid). \<forall>i \<in> set (tu_item_ids u). bt_get (cs_items s') i = bt_get (cs_items s) i)"
  proof (cases "\<exists>i. e = ItemUpserted i")
    case True
    then obtain i where e: "e = ItemUpserted i" by blast
    have "bt_get (cs_items s') k = bt_get (cs_items s) k" if "k \<noteq> it_id i" for k
      using assms(2-4) that by (auto simp: e recompute_keeps elim: apply_item_ok)
    then show ?thesis
      using transcript_item_frame [OF assms(1,2) _ assms(4) _ assms(8,9), of i] assms(3,5) e
      by (simp only: apply_effect.simps) metis
  next
    case False
    have "cs_items t = cs_items s"
      using assms(3) False by (rule effect_items)
    moreover have "turns_of t sid = turns_of s sid"
    proof (cases e)
      case (TurnUpserted u)
      then have "apply_turn u s = Inr t" "tu_session_id u \<noteq> sid"
        using assms(3,5) by (simp_all add: touches_def)
      then show ?thesis
        by (cases rule: apply_turn_ok)
           (auto intro!: turns_of_insert split: option.splits dest: merge_turn_keeps)
    next
      case (SessionUpserted y)
      then have "apply_session y s = Inr t" using assms(3) by simp
      then show ?thesis by (cases rule: apply_session_ok) (simp add: turns_of_def)
    qed (use assms(3) False in \<open>auto simp: applied apply_reorder_def apply_project_def Let_def turns_of_def\<close>)
    ultimately show ?thesis
      using assms(2,4) by (simp add: turns_of_def recompute_keeps)
  qed
  then have "List.map_filter (bt_get (cs_items s')) (tu_item_ids u) = List.map_filter (bt_get (cs_items s)) (tu_item_ids u)"
      if "u \<in> set (turns_of s sid)" for u
    using that by (intro map_filter_cong) auto
  then show ?thesis
    using assms(6,7) \<open>_ \<and> _\<close> by (simp add: transcript_def require_session_def)
qed

lemma new_session_upserted:
  assumes "maps_wf t" "apply_effect e s = Inr t" "bt_get (cs_sessions s) sid = None"
    and "bt_get (cs_sessions (recompute_derived t)) sid = Some x"
  shows "\<exists>y. e = SessionUpserted y \<and> se_id y = sid"
proof -
  from assms(1,4) obtain y where y: "bt_get (cs_sessions t) sid = Some y"
    by (auto simp: recompute_session_get)
  show ?thesis
  proof (cases e)
    case (TurnUpserted u)
    then have "apply_turn u s = Inr t" using assms(2) by simp
    then show ?thesis using y assms(3) by (cases rule: apply_turn_ok) simp
  next
    case (ItemUpserted i)
    then have "apply_item i s = Inr t" using assms(2) by simp
    then show ?thesis using y assms(3) by (cases rule: apply_item_ok) simp
  next
    case (SessionUpserted z)
    then have "apply_session z s = Inr t" using assms(2) by simp
    then show ?thesis using y assms(3) SessionUpserted by (cases rule: apply_session_ok) (simp split: if_splits)
  qed (use assms y in \<open>auto simp: applied apply_reorder_def apply_project_def Let_def\<close>)
qed

lemma built_session:
  assumes "build_projection s k = Inr p" "k \<in> session_keys sid"
  obtains x where "bt_get (cs_sessions s) sid = Some x"
  using assms
  by (auto simp: session_keys_def build_projection_def transcript_def live_activity_def input_queue_def
      require_session_def check_simps)

lemma untouched_views:
  assumes "wf_state s" "apply_effect e s = Inr t" "s' = recompute_derived t" "\<not> touches s sid e" "\<And>p. e \<noteq> ProjectUpserted p"
    and k: "k \<in> session_keys sid" "build_projection s k = Inr p" "build_projection s' k = Inr q"
  shows "p = q"
proof -
  have maps: "maps_wf s" "maps_wf t"
    using assms(1,2) apply_effect_maps by (auto simp: wf_state_def)
  obtain x x' where x: "bt_get (cs_sessions s) sid = Some x" "bt_get (cs_sessions s') sid = Some x'"
    using built_session k by metis
  have frame: "session_frame sid s t"
    using untouched_frame [OF maps(1) assms(2,4,5)] .
  have "build_view s' k = build_view s k"
    using k views_frame [OF assms(1) maps(2) frame assms(3) x(1)]
      transcript_frame [OF assms(1) maps(2) assms(2,3,4) x]
    by (auto simp: session_keys_def)
  then show ?thesis
    using k by (simp add: build_projection_def)
qed

section \<open>Sample transitions\<close>

definition state_after :: "state_effect list \<Rightarrow> canonical_state" where
  "state_after es = (case replay_effects es of Inr s \<Rightarrow> s | Inl _ \<Rightarrow> state_default)"

lemma state_after_ok: "is_ok (replay_effects es) \<Longrightarrow> replay_effects es = Inr (state_after es)"
  by (auto simp: state_after_def)

definition sample_base :: "state_effect list" where
  "sample_base = [HostUpserted sample_host, RuntimeUpserted sample_runtime, ProjectUpserted sample_project,
     SessionUpserted sample_session]"

definition sample_input :: state_effect where
  "sample_input = QueueEntryUpserted (sample_entry ''q1'' 0 Queue_Pending)"

text \<open>A second runtime that can steer, and a project that moves its binding to it.\<close>

definition steering_runtime :: provider_runtime where
  "steering_runtime = sample_runtime\<lparr>rt_id := ''rt_2'', rt_capabilities := \<lparr>rc_runtime_id = ''rt_2'',
     rc_negotiated_at_ms = 1, rc_entries =
       [\<lparr>cap_capability = TurnSteer, cap_state = Supported, cap_evidence = sample_evidence\<rparr>]\<rparr>\<rparr>"

definition unbound_session :: session where
  "unbound_session = sample_session\<lparr>se_history_source := \<lparr>hs_kind = BrokerLog, hs_runtime_id = None,
     hs_evidence = sample_evidence\<rparr>\<rparr>"

definition rebound_project :: project where
  "rebound_project = sample_project\<lparr>pj_bindings :=
     [\<lparr>pb_id = ''pb_1'', pb_project_id = ''prj_1'', pb_runtime_id = ''rt_2'', pb_root_ref = sample_ref\<rparr>]\<rparr>"

definition rebind_base :: "state_effect list" where
  "rebind_base = [HostUpserted sample_host, RuntimeUpserted sample_runtime, RuntimeUpserted steering_runtime,
     ProjectUpserted sample_project, SessionUpserted unbound_session]"

section \<open>Properties\<close>

text \<open>
  C28: The fan-out matrix is complete for the views of a session. Take any state reached by replaying
  effects and any further accepted effect other than an upsert of a project. If the transcript, the
  live activity or the input queue of a session can be built afterwards and it is new or differs from
  what was built before, then \<open>affected_keys\<close> lists its key, so the journal records it.
\<close>

theorem session_fanout_complete:
  assumes "replay_effects es = Inr s" "apply_state e s = Inr s'" "\<And>p. e \<noteq> ProjectUpserted p"
    and "k \<in> {Key_Transcript sid, Key_LiveActivity sid, Key_InputQueue sid}"
    and "build_projection s' k = Inr q"
    and "bt_get (cs_sessions s) sid = None \<or> (\<exists>p. build_projection s k = Inr p \<and> p \<noteq> q)"
  shows "k \<in> set (affected_keys s s' e)"
proof -
  have wf: "wf_state s" using assms(1) by (rule replay_wf)
  obtain t where t: "apply_effect e s = Inr t" "s' = recompute_derived t"
    using assms(2) by (rule apply_state_split)
  have maps: "maps_wf s" "maps_wf t" "maps_wf s'"
    using wf t apply_effect_maps by (auto simp: wf_state_def intro: recompute_maps)
  have k: "k \<in> session_keys sid" using assms(4) by (simp add: session_keys_def)
  obtain x' where x': "bt_get (cs_sessions s') sid = Some x'"
    using built_session assms(5) k by metis
  show ?thesis
  proof (cases "bt_get (cs_sessions s) sid")
    case None
    then obtain y where "e = SessionUpserted y" "se_id y = sid"
      using new_session_upserted [OF maps(2) t(1)] x' t(2) by blast
    then show ?thesis
      using push_known_keys [OF maps(3) x'] k by auto
  next
    case (Some x)
    then obtain p where p: "build_projection s k = Inr p" "p \<noteq> q"
      using assms(6) by auto
    then have "touches s sid e"
      using untouched_views [OF wf t _ assms(3) k p(1) assms(5)] by blast
    then show ?thesis
      using touched_keys [OF maps(1,2) t] Some x' k by blast
  qed
qed

theorem session_fanout_complete_witness:
  "Key_InputQueue ''ses_1'' \<in>
     set (affected_keys (state_after sample_base) (state_after (sample_base @ [sample_input])) sample_input)"
proof (rule session_fanout_complete [where sid = "''ses_1''"])
  have base: "is_ok (replay_effects sample_base)" "is_ok (replay_effects (sample_base @ [sample_input]))"
    unfolding is_ok_def by code_simp+
  show "replay_effects sample_base = Inr (state_after sample_base)"
    using base(1) by (rule state_after_ok)
  then show "apply_state sample_input (state_after sample_base) = Inr (state_after (sample_base @ [sample_input]))"
    using state_after_ok [OF base(2)] by (simp add: replay_effects_def try_fold_append and_then_ok)
  have "is_ok (build_projection (state_after (sample_base @ [sample_input])) (Key_InputQueue ''ses_1''))"
    "is_ok (build_projection (state_after sample_base) (Key_InputQueue ''ses_1''))"
    "build_projection (state_after (sample_base @ [sample_input])) (Key_InputQueue ''ses_1'')
       \<noteq> build_projection (state_after sample_base) (Key_InputQueue ''ses_1'')"
    unfolding is_ok_def by code_simp+
  then show "build_projection (state_after (sample_base @ [sample_input])) (Key_InputQueue ''ses_1'')
      = Inr (projr (build_projection (state_after (sample_base @ [sample_input])) (Key_InputQueue ''ses_1'')))"
    "bt_get (cs_sessions (state_after sample_base)) ''ses_1'' = None \<or>
      (\<exists>p. build_projection (state_after sample_base) (Key_InputQueue ''ses_1'') = Inr p
         \<and> p \<noteq> projr (build_projection (state_after (sample_base @ [sample_input])) (Key_InputQueue ''ses_1'')))"
    by auto
qed (simp_all add: sample_input_def)

text \<open>
  C29: An upsert of a project is not covered. A session without a runtime of its own reads its runtime
  through the project's binding; moving that binding to a runtime that can steer changes whether the
  session's input queue offers steering, and the matrix does not list the input queue, so a subscriber
  keeps the stale view.
\<close>

theorem project_upsert_misses_input_queue:
  "\<exists>es e s s' v w. replay_effects es = Inr s \<and> apply_state e s = Inr s'
     \<and> input_queue s ''ses_1'' = Inr v \<and> input_queue s' ''ses_1'' = Inr w
     \<and> \<not> iqv_steer_supported v \<and> iqv_steer_supported w
     \<and> Key_InputQueue ''ses_1'' \<notin> set (affected_keys s s' e)"
proof -
  let ?e = "ProjectUpserted rebound_project"
  let ?s = "state_after rebind_base" and ?t = "state_after (rebind_base @ [?e])"
  have ok: "is_ok (replay_effects rebind_base)" "is_ok (replay_effects (rebind_base @ [?e]))"
    unfolding is_ok_def by code_simp+
  have s: "replay_effects rebind_base = Inr ?s"
    using ok(1) by (rule state_after_ok)
  moreover have "apply_state ?e ?s = Inr ?t"
    using s state_after_ok [OF ok(2)] by (simp add: replay_effects_def try_fold_append and_then_ok)
  moreover have "case (input_queue ?s ''ses_1'', input_queue ?t ''ses_1'') of
      (Inr v, Inr w) \<Rightarrow> \<not> iqv_steer_supported v \<and> iqv_steer_supported w | _ \<Rightarrow> False"
    by code_simp
  then obtain v w where "input_queue ?s ''ses_1'' = Inr v" "input_queue ?t ''ses_1'' = Inr w"
    "\<not> iqv_steer_supported v" "iqv_steer_supported w"
    by (auto split: sum.splits)
  moreover have "Key_InputQueue ''ses_1'' \<notin> set (affected_keys ?s ?t ?e)"
    by code_simp
  ultimately show ?thesis
    by blast
qed

end
