(* ===== verification/Durable.thy ===== *)
theory Durable
  imports Canonical_State
begin

text \<open>
  Append-only text files. Four components keep one JSON record per line and rebuild their memory by
  reading the lines back: the stream log, the projection journal, the command outbox and the
  idempotency table. A file is a list of lines of an arbitrary type; \<open>serde_json\<close> and the test for
  a blank line are a \<open>codec\<close> the definitions take as an argument, and \<open>codec_ok\<close> is what its
  documentation promises. A write takes the set of paths the operating system refuses to write to.

  Locale \<open>line_reader\<close> is the contract of a reading loop whose verdict on a record does not depend on
  its line number; its lemmas say that reading back a file is replaying the appended records.
\<close>

section \<open>Files\<close>

type_synonym 'l disk = "(string, 'l list) btree_map"

record ('a, 'l) codec =
  cd_encode :: "'a \<Rightarrow> 'l"
  cd_decode :: "'l \<Rightarrow> 'a option"
  cd_blank :: "'l \<Rightarrow> bool"

definition codec_ok :: "('a, 'l) codec \<Rightarrow> bool" where
  "codec_ok c \<longleftrightarrow> (\<forall>x. cd_decode c (cd_encode c x) = Some x \<and> \<not> cd_blank c (cd_encode c x))"

definition file_lines :: "'l disk \<Rightarrow> string \<Rightarrow> 'l list" where
  "file_lines d path = (case bt_get d path of None \<Rightarrow> [] | Some ls \<Rightarrow> ls)"

text \<open>Open for append, write the encoded record and a newline, flush and sync.\<close>

definition append_record ::
  "(string \<Rightarrow> bool) \<Rightarrow> ('a, 'l) codec \<Rightarrow> string \<Rightarrow> 'a \<Rightarrow> 'l disk \<Rightarrow> 'l disk state_result" where
  "append_record refuses c path r d =
     (if refuses path then Inl (State_Io path)
      else Inr (bt_insert path (file_lines d path @ [cd_encode c r]) d))"

text \<open>The loop over \<open>lines().enumerate()\<close>: blank lines are skipped, line numbers start at one.\<close>

fun for_lines ::
  "('a, 'l) codec \<Rightarrow> string \<Rightarrow> (nat \<Rightarrow> 'a \<Rightarrow> 's \<Rightarrow> 's state_result) \<Rightarrow> nat \<Rightarrow> 'l list \<Rightarrow> 's \<Rightarrow> 's state_result" where
  "for_lines c path step n [] s = Inr s"
| "for_lines c path step n (l # ls) s =
     (if cd_blank c l then for_lines c path step (Suc n) ls s
      else (case cd_decode c l of
          None \<Rightarrow> Inl (MalformedRecord path n)
        | Some r \<Rightarrow> and_then (step n r s) (for_lines c path step (Suc n) ls)))"

text \<open>\<open>Path::extension\<close> is \<open>jsonl\<close>.\<close>

definition has_jsonl_extension :: "string \<Rightarrow> bool" where
  "has_jsonl_extension name \<longleftrightarrow> length name > 6 \<and> drop (length name - 6) name = ''.jsonl''"

lemma file_lines_insert [simp]: "file_lines (bt_insert p ls d) q = (if q = p then ls else file_lines d q)"
  by (simp add: file_lines_def)

lemma append_record_ok:
  "append_record refuses c path r d = Inr d' \<longleftrightarrow>
     \<not> refuses path \<and> d' = bt_insert path (file_lines d path @ [cd_encode c r]) d"
  by (auto simp: append_record_def)

lemma bt_insert_last:
  assumes "sorted_wrt (<) (map fst m @ [k])"
  shows "bt_insert k v m = m @ [(k, v)]"
  using assms by (induction m) (auto simp: sorted_wrt_append)

lemma codec_simps:
  assumes "codec_ok c"
  shows "cd_decode c (cd_encode c x) = Some x" "\<not> cd_blank c (cd_encode c x)"
  using assms by (simp_all add: codec_ok_def)

lemma for_lines_append:
  "for_lines c path step n (ls @ ms) s =
     and_then (for_lines c path step n ls s) (for_lines c path step (n + length ls) ms)"
proof (induction ls arbitrary: n s)
  case (Cons l ls)
  then show ?case
    by (auto simp: and_then_def split: option.split sum.split)
qed simp

section \<open>Operations with an effect\<close>

text \<open>
  An operation on a component's state that may fail. What it changed before it failed stays changed,
  so the state is part of the result in both cases.
\<close>

type_synonym ('w, 'a) io = "'w \<Rightarrow> 'a state_result \<times> 'w"

definition io_return :: "'a \<Rightarrow> ('w, 'a) io" where "io_return a w = (Inr a, w)"
definition io_lift :: "'a state_result \<Rightarrow> ('w, 'a) io" where "io_lift r w = (r, w)"
definition io_get :: "('w \<Rightarrow> 'a) \<Rightarrow> ('w, 'a) io" where "io_get f w = (Inr (f w), w)"
definition io_modify :: "('w \<Rightarrow> 'w) \<Rightarrow> ('w, unit) io" where "io_modify f w = (Inr (), f w)"

definition io_bind :: "('w, 'a) io \<Rightarrow> ('a \<Rightarrow> ('w, 'b) io) \<Rightarrow> ('w, 'b) io" where
  "io_bind m f w = (case m w of (Inl e, w') \<Rightarrow> (Inl e, w') | (Inr a, w') \<Rightarrow> f a w')"

text \<open>\<open>if let Err(..)\<close> with a handler whose own result is ignored.\<close>

definition io_on_error :: "('w, 'a) io \<Rightarrow> ('w, 'b) io \<Rightarrow> ('w, 'a) io" where
  "io_on_error m h w = (case m w of (Inl e, w') \<Rightarrow> (Inl e, snd (h w')) | (Inr a, w') \<Rightarrow> (Inr a, w'))"

fun io_each :: "('a \<Rightarrow> ('w, unit) io) \<Rightarrow> 'a list \<Rightarrow> ('w, unit) io" where
  "io_each f [] = io_return ()"
| "io_each f (x # xs) = io_bind (f x) (\<lambda>_. io_each f xs)"

lemmas io_defs = io_return_def io_lift_def io_get_def io_modify_def

lemma io_bind_ok: "io_bind m f w = (Inr b, w'') \<longleftrightarrow> (\<exists>a w'. m w = (Inr a, w') \<and> f a w' = (Inr b, w''))"
  by (auto simp: io_bind_def split: prod.splits sum.splits)

lemma io_bind_Inr: "m w = (Inr a, w') \<Longrightarrow> io_bind m f w = f a w'"
  by (simp add: io_bind_def)

lemma io_bind_Inl: "m w = (Inl e, w') \<Longrightarrow> io_bind m f w = (Inl e, w')"
  by (simp add: io_bind_def)

lemma io_simps [simp]:
  "io_return a w = (Inr a, w)" "io_lift r w = (r, w)" "io_get g w = (Inr (g w), w)" "io_modify h w = (Inr (), h w)"
  by (simp_all add: io_defs)

lemma io_bind_simps [simp]:
  "io_bind (io_return a) f w = f a w" "io_bind (io_lift (Inr a)) f w = f a w"
  "io_bind (io_lift (Inl e)) f w = (Inl e, w)" "io_bind (io_get g) f w = f (g w) w"
  "io_bind (io_modify h) k w = k () (h w)"
  by (simp_all add: io_bind_def)

lemma io_on_error_ok: "io_on_error m h w = (Inr x, w') \<longleftrightarrow> m w = (Inr x, w')"
  by (cases "m w"; cases "fst (m w)") (auto simp: io_on_error_def)

text \<open>Reasoning about both outcomes of a sequence.\<close>

lemma io_bind_post:
  assumes "\<And>e w'. m w = (Inl e, w') \<Longrightarrow> Q (Inl e) w'"
    and "\<And>a w'. m w = (Inr a, w') \<Longrightarrow> Q (fst (f a w')) (snd (f a w'))"
  shows "Q (fst (io_bind m f w)) (snd (io_bind m f w))"
  using assms by (auto simp: io_bind_def split: prod.split sum.split)

text \<open>A property of the state that every step keeps, whether it fails or not.\<close>

definition io_keeps :: "('w \<Rightarrow> bool) \<Rightarrow> ('w, 'a) io \<Rightarrow> bool" where
  "io_keeps P m \<longleftrightarrow> (\<forall>w. P w \<longrightarrow> P (snd (m w)))"

lemma io_keepsD: "io_keeps P m \<Longrightarrow> P w \<Longrightarrow> m w = (r, w') \<Longrightarrow> P w'"
  unfolding io_keeps_def by (metis snd_conv)

lemma io_keeps_bind: "io_keeps P m \<Longrightarrow> (\<And>a. io_keeps P (f a)) \<Longrightarrow> io_keeps P (io_bind m f)"
  by (auto simp: io_keeps_def io_bind_def split: prod.split sum.split)

lemma io_keeps_basic [simp]: "io_keeps P (io_return a)" "io_keeps P (io_lift r)" "io_keeps P (io_get g)"
  by (simp_all add: io_keeps_def)

lemma io_keeps_each: "(\<And>x. x \<in> set xs \<Longrightarrow> io_keeps P (f x)) \<Longrightarrow> io_keeps P (io_each f xs)"
  by (induction xs) (auto intro: io_keeps_bind)

lemma io_keeps_on_error: "io_keeps P m \<Longrightarrow> io_keeps P h \<Longrightarrow> io_keeps P (io_on_error m h)"
  by (auto simp: io_keeps_def io_on_error_def split: prod.split sum.split)

section \<open>Reading loops\<close>

locale line_reader =
  fixes step :: "nat \<Rightarrow> 'a \<Rightarrow> 's \<Rightarrow> 's state_result"
  assumes step_line: "step n r s = Inr s' \<Longrightarrow> step m r s = Inr s'"
begin

lemma read_encoded:
  assumes "codec_ok c"
  shows "for_lines c path step n (map (cd_encode c) rs) s = Inr s' \<longleftrightarrow> try_fold (step 0) rs s = Inr s'"
proof (induction rs arbitrary: n s)
  case (Cons r rs)
  have "step n r s = Inr t \<longleftrightarrow> step 0 r s = Inr t" for t
    using step_line by blast
  then show ?case
    using Cons by (auto simp: codec_simps [OF assms] and_then_ok)
qed simp

lemma read_prefix:
  assumes "codec_ok c" "for_lines c path step n (map (cd_encode c) (rs @ qs)) s = Inr s'"
  shows "\<exists>t. for_lines c path step n (map (cd_encode c) rs) s = Inr t"
  using assms(2) unfolding read_encoded [OF assms(1)] by (auto simp: try_fold_append and_then_ok)

lemma read_snoc:
  assumes "codec_ok c" "for_lines c path step n (map (cd_encode c) rs) s = Inr t" "step m r t = Inr u"
  shows "for_lines c path step n (map (cd_encode c) (rs @ [r])) s = Inr u"
proof -
  have "step 0 r t = Inr u" using assms(3) by (rule step_line)
  then show ?thesis
    using assms(2) unfolding read_encoded [OF assms(1)] by (simp add: try_fold_append)
qed

end

text \<open>A line that already is the record, for evaluating the definitions.\<close>

definition plain_codec :: "('a, 'a option) codec" where
  "plain_codec = \<lparr>cd_encode = Some, cd_decode = id, cd_blank = (\<lambda>_. False)\<rparr>"

lemma plain_codec_ok [simp]: "codec_ok plain_codec"
  by (simp add: codec_ok_def plain_codec_def)

section \<open>Digests\<close>

text \<open>
  What the program takes from \<open>serde_json::to_vec\<close> (of a projection key, and of the lifetime and body
  of a request) and from the hexadecimal SHA-256 of bytes, whose output is 64 lower-case digits.
\<close>

record digests =
  dg_key_json :: "projection_key \<Rightarrow> string"
  dg_request_json :: "u64 option \<times> command \<Rightarrow> string"
  dg_hex_digest :: "string \<Rightarrow> string"

definition digests_ok :: "digests \<Rightarrow> bool" where
  "digests_ok dg \<longleftrightarrow> (\<forall>bytes. is_lower_hex64 (dg_hex_digest dg bytes))"

text \<open>\<open>(bytes.len() as u64).to_be_bytes()\<close>\<close>

definition to_be_bytes :: "nat \<Rightarrow> string" where
  "to_be_bytes n = map (\<lambda>i. char_of (n div 256 ^ (7 - i) mod 256)) [0..<8]"

text \<open>Short fields, for evaluation: the seven high bytes are zero.\<close>

lemma to_be_bytes_code [code]:
  "to_be_bytes n = (if int n < 256 then replicate 7 (CHR 0x00) @ [char_of (int n)]
     else map (\<lambda>i. char_of (n div 256 ^ (7 - i) mod 256)) [0..<8])"
proof -
  have high: "n div 256 ^ m = 0" if "n < 256" "0 < m" for m
    using that power_increasing [of 1 m "256 :: nat"] by simp
  have "[0..<8] = [0..<7] @ [7]"
    using upt_Suc [of 0 7] by simp
  moreover have "map (\<lambda>i. char_of (n div 256 ^ (7 - i) mod 256) :: char) [0..<7] = replicate 7 (CHR 0x00)" if "n < 256"
    using high [OF that] by (intro replicate_eqI) (auto simp: char_of_def)
  moreover have "char_of (int n) = (char_of n :: char)"
    by (simp add: char_of_def bit_of_nat_iff)
  ultimately show ?thesis
    by (simp add: to_be_bytes_def)
qed

text \<open>An executable stand-in for the digest: the bytes in hexadecimal, cut or padded to 64 digits.\<close>

fun hex_digit :: "bool \<Rightarrow> bool \<Rightarrow> bool \<Rightarrow> bool \<Rightarrow> char" where
  "hex_digit False a b c = (if a then if b then if c then CHR ''7'' else CHR ''6'' else if c then CHR ''5'' else CHR ''4''
     else if b then if c then CHR ''3'' else CHR ''2'' else if c then CHR ''1'' else CHR ''0'')"
| "hex_digit True a b c = (if a then if b then if c then CHR ''f'' else CHR ''e'' else if c then CHR ''d'' else CHR ''c''
     else if b then if c then CHR ''b'' else CHR ''a'' else if c then CHR ''9'' else CHR ''8'')"

fun hex_byte :: "char \<Rightarrow> string" where
  "hex_byte (Char b0 b1 b2 b3 b4 b5 b6 b7) = [hex_digit b7 b6 b5 b4, hex_digit b3 b2 b1 b0]"

definition sample_hex :: "string \<Rightarrow> string" where
  "sample_hex bytes = take 64 (concat (map hex_byte bytes) @ replicate 64 (CHR ''0''))"

fun sample_key_json :: "projection_key \<Rightarrow> string" where
  "sample_key_json (Key_ProjectIndex hid) = CHR ''p'' # hid"
| "sample_key_json (Key_SessionIndex pid) = CHR ''s'' # pid"
| "sample_key_json (Key_Transcript sid) = CHR ''t'' # sid"
| "sample_key_json (Key_LiveActivity sid) = CHR ''l'' # sid"
| "sample_key_json (Key_InputQueue sid) = CHR ''q'' # sid"
| "sample_key_json (Key_AttentionInbox hid) = CHR ''a'' # hid"
| "sample_key_json (Key_WorkflowBoard wid) = CHR ''w'' # wid"
| "sample_key_json (Key_RuntimeCapability hid rid) = CHR ''r'' # show_nat (length hid) @ CHR '':'' # hid @ rid"

definition sample_digests :: digests where
  "sample_digests = \<lparr>dg_key_json = sample_key_json, dg_request_json = (\<lambda>_. ''request''),
     dg_hex_digest = sample_hex\<rparr>"

lemma hex_digit_ok: "is_ascii_hexdigit (hex_digit a b c d) \<and> \<not> is_ascii_uppercase (hex_digit a b c d)"
  by (cases a; cases b; cases c; cases d) (simp_all add: is_ascii_hexdigit_code is_ascii_uppercase_code)

lemma sample_hex_ok: "is_lower_hex64 (sample_hex bytes)"
proof -
  define good where "good c \<longleftrightarrow> is_ascii_hexdigit c \<and> \<not> is_ascii_uppercase c" for c
  have "good (CHR ''0'')"
    unfolding good_def by code_simp
  moreover have "\<forall>c \<in> set (hex_byte b). good c" for b
    by (cases b) (simp add: good_def hex_digit_ok)
  ultimately have "\<forall>c \<in> set (sample_hex bytes). good c"
    by (auto simp: sample_hex_def dest!: in_set_takeD)
  then show ?thesis
    by (simp add: is_lower_hex64_def list_all_iff good_def) (simp add: sample_hex_def)
qed

lemma sample_digests_ok: "digests_ok sample_digests"
  by (simp add: digests_ok_def sample_digests_def sample_hex_ok)

end
