(* ===== verification/Projection_Journal.thy ===== *)
theory Projection_Journal
  imports Durable Projection_Contract
begin

text \<open>
  The durable history of every read model (\<open>kaleido-state/src/projection_journal.rs\<close>): one file per
  projection key, the whole view appended whenever it changes. \<open>journal_ok\<close> is the invariant of a
  history; the lemmas show that every operation keeps it, that a subscriber who applies a replay
  arrives at the current view, and that reading the files back rebuilds the journal.
\<close>

section \<open>State\<close>

definition DEFAULT_RETENTION_ENTRIES :: nat where "DEFAULT_RETENTION_ENTRIES = 256"

record projection_replay =
  rp_ack :: projection_subscribe_ack
  rp_envelopes :: "projection_envelope list"

text \<open>
  \<open>jr_root\<close> is whether the journal has a directory; the hash map is an association list whose order
  stands for the unspecified iteration order.
\<close>

record projection_journal =
  jr_root :: bool
  jr_retention_entries :: nat
  jr_entries :: "(projection_key \<times> projection_envelope list) list"

type_synonym 'l envelope_codec = "(projection_envelope, 'l) codec"

definition jr_get :: "projection_journal \<Rightarrow> projection_key \<Rightarrow> projection_envelope list option" where
  "jr_get j key = map_of (jr_entries j) key"

text \<open>\<open>entries.entry(key).or_default().push(envelope)\<close>\<close>

fun push_entry ::
  "projection_key \<Rightarrow> projection_envelope \<Rightarrow> (projection_key \<times> projection_envelope list) list \<Rightarrow>
     (projection_key \<times> projection_envelope list) list" where
  "push_entry key e [] = [(key, [e])]"
| "push_entry key e ((k, es) # m) = (if k = key then (k, es @ [e]) # m else (k, es) # push_entry key e m)"

section \<open>Operations\<close>

definition memory :: "nat \<Rightarrow> projection_journal state_result" where
  "memory retention =
     (if retention = 0 then Inl InvalidProjectionRetention
      else Inr \<lparr>jr_root = False, jr_retention_entries = retention, jr_entries = []\<rparr>)"

definition current :: "projection_journal \<Rightarrow> projection_key \<Rightarrow> projection_envelope option" where
  "current j key = Option.bind (jr_get j key) (\<lambda>es. if es = [] then None else Some (last es))"

definition head :: "projection_journal \<Rightarrow> projection_key \<Rightarrow> cursor option" where
  "head j key = map_option px_cursor (current j key)"

definition journal_floor :: "projection_journal \<Rightarrow> projection_key \<Rightarrow> cursor option" where
  "journal_floor j key = Option.bind (jr_get j key) (\<lambda>es.
     let retained_from = length es - jr_retention_entries j
     in if retained_from < length es then Some (px_cursor (es ! retained_from)) else None)"

definition path_for :: "digests \<Rightarrow> projection_key \<Rightarrow> string" where
  "path_for dg key = dg_hex_digest dg (dg_key_json dg key) @ ''.jsonl''"

definition append_file ::
  "(string \<Rightarrow> bool) \<Rightarrow> digests \<Rightarrow> 'l envelope_codec \<Rightarrow> projection_journal \<Rightarrow> projection_envelope \<Rightarrow> 'l disk
     \<Rightarrow> 'l disk state_result" where
  "append_file refuses dg c j e d =
     (if jr_root j then append_record refuses c (path_for dg (px_key e)) e d else Inr d)"

definition record_view ::
  "(string \<Rightarrow> bool) \<Rightarrow> digests \<Rightarrow> 'l envelope_codec \<Rightarrow> projection_key \<Rightarrow> projection_payload
     \<Rightarrow> projection_journal \<Rightarrow> 'l disk \<Rightarrow> (projection_envelope option \<times> projection_journal \<times> 'l disk) state_result" where
  "record_view refuses dg c key payload j d =
     and_then (map_err State_Contract (payload_validate_for_key key payload)) (\<lambda>_.
     if is_some_and (\<lambda>e. px_payload e = payload) (current j key) then Inr (None, j, d)
     else and_then (case head j key of
         Some previous \<Rightarrow> map_err State_Contract (cursor_next previous)
       | None \<Rightarrow> Inr START) (\<lambda>cursor.
     let envelope = \<lparr>px_version = PROJECTION_VERSION, px_key = key, px_cursor = cursor, px_payload = payload\<rparr>
     in and_then (map_err State_Contract (validate_for_transport envelope)) (\<lambda>_.
        and_then (append_file refuses dg c j envelope d) (\<lambda>d'.
          Inr (Some envelope, j\<lparr>jr_entries := push_entry key envelope (jr_entries j)\<rparr>, d')))))"

text \<open>Persisted entries must be a prefix of the expected ones; only the missing tail is appended.\<close>

definition diverged_check ::
  "projection_journal \<Rightarrow> projection_key \<times> projection_envelope list \<Rightarrow> state_error check" where
  "diverged_check expected = (\<lambda>(key, actual).
     case jr_get expected key of
       None \<Rightarrow> Inl (ProjectionJournalDiverged key)
     | Some es \<Rightarrow> reject_if (length es < length actual \<or> list_ex (\<lambda>(a, e). a \<noteq> e) (zip actual es))
         (ProjectionJournalDiverged key))"

definition restore_entry ::
  "(string \<Rightarrow> bool) \<Rightarrow> digests \<Rightarrow> 'l envelope_codec \<Rightarrow> projection_key \<Rightarrow> projection_envelope
     \<Rightarrow> projection_journal \<times> 'l disk \<Rightarrow> (projection_journal \<times> 'l disk) state_result" where
  "restore_entry refuses dg c key e = (\<lambda>(j, d).
     and_then (append_file refuses dg c j e d) (\<lambda>d'.
       Inr (j\<lparr>jr_entries := push_entry key e (jr_entries j)\<rparr>, d')))"

definition restore_key ::
  "(string \<Rightarrow> bool) \<Rightarrow> digests \<Rightarrow> 'l envelope_codec \<Rightarrow> projection_key \<times> projection_envelope list
     \<Rightarrow> projection_journal \<times> 'l disk \<Rightarrow> (projection_journal \<times> 'l disk) state_result" where
  "restore_key refuses dg c = (\<lambda>(key, expected_entries) (j, d).
     let present = (case jr_get j key of None \<Rightarrow> 0 | Some es \<Rightarrow> length es)
     in try_fold (restore_entry refuses dg c key) (drop present expected_entries) (j, d))"

definition reconcile ::
  "(string \<Rightarrow> bool) \<Rightarrow> digests \<Rightarrow> 'l envelope_codec \<Rightarrow> projection_journal \<Rightarrow> projection_journal \<Rightarrow> 'l disk
     \<Rightarrow> (projection_journal \<times> 'l disk) state_result" where
  "reconcile refuses dg c expected j d =
     and_then (for_each (diverged_check expected) (jr_entries j)) (\<lambda>_.
       try_fold (restore_key refuses dg c) (jr_entries expected) (j, d))"

definition rejected :: "projection_subscribe \<Rightarrow> error_code \<Rightarrow> bool \<Rightarrow> i64 \<Rightarrow> projection_replay" where
  "rejected request code retriable at_ms =
     \<lparr>rp_ack = \<lparr>sak_key = sub_key request, sak_outcome = Subscribe_Rejected
        \<lparr>ce_code = code, ce_retriable = retriable, ce_detail_ref = None, ce_at_ms = at_ms\<rparr>\<rparr>,
      rp_envelopes = []\<rparr>"

definition replay_views :: "projection_journal \<Rightarrow> projection_subscribe \<Rightarrow> i64 \<Rightarrow> projection_replay state_result" where
  "replay_views j request at_ms =
     and_then (map_err State_Contract (projection_key_validate (sub_key request))) (\<lambda>_.
     case head j (sub_key request) of
       None \<Rightarrow> Inr (rejected request Err_NotFound False at_ms)
     | Some hd_c \<Rightarrow>
         and_then (ok_or (journal_floor j (sub_key request)) (ProjectionJournalDiverged (sub_key request))) (\<lambda>fl.
         and_then (map_err State_Contract (decide_projection_subscription request fl hd_c at_ms)) (\<lambda>ack.
         and_then (ok_or (jr_get j (sub_key request)) (ProjectionJournalDiverged (sub_key request))) (\<lambda>es.
           Inr \<lparr>rp_ack = ack, rp_envelopes = (case sak_outcome ack of
               CurrentFollows c \<Rightarrow> opt_list (find (\<lambda>e. px_cursor e = c) es)
             | Resumed c \<Rightarrow> filter (\<lambda>e. px_cursor e \<ge> c) es
             | Subscribe_Rejected _ \<Rightarrow> [])\<rparr>))))"

definition checkpoint :: "projection_journal \<Rightarrow> (projection_key \<times> nat) list" where
  "checkpoint j = map (\<lambda>(k, es). (k, length es)) (jr_entries j)"

definition changes_since ::
  "digests \<Rightarrow> (projection_key \<times> nat) list \<Rightarrow> projection_journal \<Rightarrow> projection_envelope list" where
  "changes_since dg ck j = sort_key (\<lambda>e. dg_key_json dg (px_key e))
     (concat (map (\<lambda>(k, es). drop (case map_of ck k of None \<Rightarrow> 0 | Some n \<Rightarrow> n) es) (jr_entries j)))"

section \<open>Reading the files\<close>

definition entry_step ::
  "nat \<Rightarrow> projection_envelope \<Rightarrow> projection_envelope list \<Rightarrow> projection_envelope list state_result" where
  "entry_step _ e es = map_err State_Contract
     (and_then (run_checks
        [validate_for_transport e,
         (if es = [] then reject_if (px_cursor e \<noteq> START) (CursorGap (cur_seq START) (cur_seq (px_cursor e)))
          else run_checks
            [reject_if (px_key e \<noteq> px_key (last es)) MixedProjectionKeys,
             reject_if (px_cursor e = px_cursor (last es)) (CursorRepeated (cur_seq (px_cursor e))),
             and_then (cursor_next (px_cursor (last es))) (\<lambda>expected.
               reject_if (px_cursor e \<noteq> expected) (CursorGap (cur_seq expected) (cur_seq (px_cursor e))))])])
       (\<lambda>_. Inr (es @ [e])))"

definition read_file :: "'l envelope_codec \<Rightarrow> string \<Rightarrow> 'l list \<Rightarrow> projection_envelope list state_result" where
  "read_file c path ls = for_lines c path entry_step 1 ls []"

definition read_path ::
  "digests \<Rightarrow> 'l envelope_codec \<Rightarrow> 'l disk \<Rightarrow> string \<Rightarrow> projection_journal \<Rightarrow> projection_journal state_result" where
  "read_path dg c d path j =
     and_then (read_file c path (file_lines d path)) (\<lambda>es.
     case es of
       [] \<Rightarrow> Inr j
     | first # _ \<Rightarrow>
         (let key = px_key first
          in if path_for dg key \<noteq> path \<or> jr_get j key \<noteq> None then Inl (ProjectionJournalDiverged key)
             else Inr (j\<lparr>jr_entries := jr_entries j @ [(key, es)]\<rparr>)))"

definition read_all_views ::
  "digests \<Rightarrow> 'l envelope_codec \<Rightarrow> 'l disk \<Rightarrow> projection_journal \<Rightarrow> projection_journal state_result" where
  "read_all_views dg c d j =
     (if jr_root j then try_fold (read_path dg c d) (filter has_jsonl_extension (bt_keys d)) j else Inr j)"

definition open_with_retention ::
  "digests \<Rightarrow> 'l envelope_codec \<Rightarrow> nat \<Rightarrow> 'l disk \<Rightarrow> projection_journal state_result" where
  "open_with_retention dg c retention d =
     (if retention = 0 then Inl InvalidProjectionRetention
      else read_all_views dg c d \<lparr>jr_root = True, jr_retention_entries = retention, jr_entries = []\<rparr>)"

definition open_journal :: "digests \<Rightarrow> 'l envelope_codec \<Rightarrow> 'l disk \<Rightarrow> projection_journal state_result" where
  "open_journal dg c d = open_with_retention dg c DEFAULT_RETENTION_ENTRIES d"

section \<open>Histories\<close>

definition history_ok :: "projection_key \<Rightarrow> projection_envelope list \<Rightarrow> bool" where
  "history_ok key es \<longleftrightarrow> es \<noteq> [] \<and> (\<forall>i < length es. validate_for_transport (es ! i) = ok
     \<and> px_key (es ! i) = key \<and> unat (cur_seq (px_cursor (es ! i))) = i)"

definition journal_ok :: "projection_journal \<Rightarrow> bool" where
  "journal_ok j \<longleftrightarrow> 0 < jr_retention_entries j \<and> distinct (map fst (jr_entries j))
     \<and> (\<forall>key es. jr_get j key = Some es \<longrightarrow> history_ok key es)"

definition entries_of :: "projection_journal \<Rightarrow> projection_key \<Rightarrow> projection_envelope list" where
  "entries_of j key = (case jr_get j key of None \<Rightarrow> [] | Some es \<Rightarrow> es)"

lemma map_of_push_entry:
  "map_of (push_entry key e m) k =
     (if k = key then Some ((case map_of m key of None \<Rightarrow> [] | Some es \<Rightarrow> es) @ [e]) else map_of m k)"
  by (induction m) auto

lemma jr_get_push [simp]:
  "jr_get (j\<lparr>jr_entries := push_entry key e (jr_entries j)\<rparr>) k =
     (if k = key then Some (entries_of j key @ [e]) else jr_get j k)"
  by (simp add: jr_get_def entries_of_def map_of_push_entry)

lemma push_entry_keys:
  "map fst (push_entry key e m) = (if key \<in> set (map fst m) then map fst m else map fst m @ [key])"
  by (induction m) (auto simp: rev_image_eqI)

lemma distinct_push_entry: "distinct (map fst m) \<Longrightarrow> distinct (map fst (push_entry key e m))"
  by (simp add: push_entry_keys)

lemma history_ok_single: "history_ok key [e] \<longleftrightarrow> validate_for_transport e = ok \<and> px_key e = key \<and> px_cursor e = START"
  by (cases "px_cursor e") (auto simp: history_ok_def START_def unat_eq_0)

lemma history_ok_snoc:
  assumes "es \<noteq> []"
  shows "history_ok key (es @ [e]) \<longleftrightarrow> history_ok key es \<and> validate_for_transport e = ok \<and> px_key e = key
    \<and> cursor_next (px_cursor (last es)) = Inr (px_cursor e)"
proof -
  have snoc: "(\<forall>i < length (es @ [e]). P i ((es @ [e]) ! i)) \<longleftrightarrow> (\<forall>i < length es. P i (es ! i)) \<and> P (length es) e" for P
    by (auto simp: nth_append less_Suc_eq)
  have last: "Suc (unat (cur_seq (px_cursor (last es)))) = length es" if "history_ok key es"
    using that assms by (simp add: history_ok_def last_conv_nth)
  have "history_ok key (es @ [e]) \<longleftrightarrow> history_ok key es \<and> validate_for_transport e = ok \<and> px_key e = key
      \<and> unat (cur_seq (px_cursor e)) = length es"
    using assms snoc [of "\<lambda>i e. validate_for_transport e = ok \<and> px_key e = key \<and> unat (cur_seq (px_cursor e)) = i"]
    by (simp add: history_ok_def conj_ac)
  then show ?thesis
    using last by (auto simp: cursor_next_ok)
qed

lemma history_ok_last:
  assumes "history_ok key es"
  shows "unat (cur_seq (px_cursor (last es))) = length es - 1"
  using assms by (simp add: history_ok_def last_conv_nth)

lemma history_ok_key: "history_ok key es \<Longrightarrow> px_key (last es) = key \<and> px_key (hd es) = key"
  by (simp add: history_ok_def last_conv_nth hd_conv_nth)

lemma entry_step_ok:
  "entry_step n e es = Inr es' \<longleftrightarrow> es' = es @ [e] \<and> validate_for_transport e = ok
     \<and> (if es = [] then px_cursor e = START
        else px_key e = px_key (last es) \<and> cursor_next (px_cursor (last es)) = Inr (px_cursor e))"
proof -
  have "px_cursor e \<noteq> px_cursor (last es)" if "cursor_next (px_cursor (last es)) = Inr (px_cursor e)"
    using that by (auto simp: cursor_next_ok)
  then show ?thesis
    by (auto simp: entry_step_def check_simps)
qed

interpretation entries: line_reader entry_step
  by unfold_locales (simp add: entry_step_ok)

lemma read_entries:
  "try_fold (entry_step 0) es [] = Inr es' \<longleftrightarrow> es' = es \<and> (es = [] \<or> history_ok (px_key (hd es)) es)"
proof (induction es arbitrary: es' rule: rev_induct)
  case Nil
  then show ?case by auto
next
  case (snoc e es)
  show ?case
  proof (cases "es = []")
    case True
    then show ?thesis
      by (auto simp: entry_step_ok history_ok_single and_then_ok)
  next
    case False
    then have hd: "hd (es @ [e]) = hd es" by simp
    have key: "px_key (last es) = px_key (hd es)" if "history_ok (px_key (hd es)) es"
      using that False by (simp add: history_ok_def last_conv_nth)
    have "try_fold (entry_step 0) (es @ [e]) [] = Inr es' \<longleftrightarrow>
        history_ok (px_key (hd es)) es \<and> entry_step 0 e es = Inr es'"
      using False by (auto simp: try_fold_append and_then_ok snoc.IH)
    then show ?thesis
      using False key by (auto simp: entry_step_ok history_ok_snoc hd)
  qed
qed

lemma read_file_encoded:
  assumes "codec_ok c"
  shows "read_file c path (map (cd_encode c) es) = Inr es' \<longleftrightarrow> es' = es \<and> (es = [] \<or> history_ok (px_key (hd es)) es)"
  by (simp add: read_file_def entries.read_encoded [OF assms] read_entries)

section \<open>Recording a view\<close>

lemma append_file_ok:
  "append_file refuses dg c j e d = Inr d' \<longleftrightarrow>
     (if jr_root j then \<not> refuses (path_for dg (px_key e))
        \<and> d' = bt_insert (path_for dg (px_key e)) (file_lines d (path_for dg (px_key e)) @ [cd_encode c e]) d
      else d' = d)"
  by (auto simp: append_file_def append_record_ok)

lemma record_view_cases:
  assumes "record_view refuses dg c key payload j d = Inr (r, j', d')"
  obtains (unchanged) e where "r = None" "j' = j" "d' = d" "current j key = Some e" "px_payload e = payload"
  | (appended) e where "r = Some e" "px_key e = key" "px_payload e = payload" "px_version e = PROJECTION_VERSION"
      "j' = j\<lparr>jr_entries := push_entry key e (jr_entries j)\<rparr>"
      "append_file refuses dg c j e d = Inr d'" "validate_for_transport e = ok"
      "case head j key of None \<Rightarrow> px_cursor e = START | Some h \<Rightarrow> cursor_next h = Inr (px_cursor e)"
      "\<not> is_some_and (\<lambda>e. px_payload e = payload) (current j key)"
proof (cases "is_some_and (\<lambda>e. px_payload e = payload) (current j key)")
  case True
  with assms show ?thesis
    by (auto simp: record_view_def is_some_and_iff check_simps intro: unchanged)
next
  case False
  with assms obtain cursor where cursor: "(case head j key of Some previous \<Rightarrow> map_err State_Contract (cursor_next previous)
       | None \<Rightarrow> Inr START) = Inr cursor"
    and "validate_for_transport \<lparr>px_version = PROJECTION_VERSION, px_key = key, px_cursor = cursor, px_payload = payload\<rparr> = ok"
      "append_file refuses dg c j \<lparr>px_version = PROJECTION_VERSION, px_key = key, px_cursor = cursor, px_payload = payload\<rparr> d = Inr d'"
      "r = Some \<lparr>px_version = PROJECTION_VERSION, px_key = key, px_cursor = cursor, px_payload = payload\<rparr>"
      "j' = j\<lparr>jr_entries := push_entry key \<lparr>px_version = PROJECTION_VERSION, px_key = key, px_cursor = cursor, px_payload = payload\<rparr> (jr_entries j)\<rparr>"
    by (auto simp: record_view_def Let_def check_simps)
  with False show ?thesis
    by (intro appended) (auto simp: map_err_ok split: option.splits)
qed

lemma head_entries:
  assumes "journal_ok j"
  shows "head j key = (if entries_of j key = [] then None else Some (px_cursor (last (entries_of j key))))"
proof (cases "jr_get j key")
  case None
  then show ?thesis by (simp add: head_def current_def entries_of_def)
next
  case (Some es)
  then have "es \<noteq> []" using assms by (auto simp: journal_ok_def history_ok_def)
  with Some show ?thesis by (simp add: head_def current_def entries_of_def)
qed

lemma push_journal_ok:
  assumes "journal_ok j" "validate_for_transport e = ok" "px_key e = key"
    and "case head j key of None \<Rightarrow> px_cursor e = START | Some h \<Rightarrow> cursor_next h = Inr (px_cursor e)"
  shows "journal_ok (j\<lparr>jr_entries := push_entry key e (jr_entries j)\<rparr>)"
proof -
  have "history_ok key (entries_of j key @ [e])"
  proof (cases "entries_of j key = []")
    case True
    then show ?thesis
      using assms by (simp add: head_entries history_ok_single)
  next
    case False
    then have "history_ok key (entries_of j key)"
      using assms(1) by (auto simp: journal_ok_def entries_of_def split: option.splits)
    with False assms show ?thesis
      by (simp add: head_entries history_ok_snoc)
  qed
  then show ?thesis
    using assms(1) by (auto simp: journal_ok_def distinct_push_entry split: if_splits)
qed

lemma record_view_keeps:
  assumes "journal_ok j" "record_view refuses dg c key payload j d = Inr (r, j', d')"
  shows "journal_ok j'"
  using assms(2)
proof (cases rule: record_view_cases)
  case unchanged
  with assms(1) show ?thesis by simp
next
  case (appended e)
  with assms(1) show ?thesis by (simp add: push_journal_ok)
qed

section \<open>Opening a journal\<close>

lemma read_file_snoc:
  assumes "codec_ok c" "read_file c path ls = Inr es"
  shows "read_file c path (ls @ [cd_encode c e]) = entry_step (Suc (length ls)) e es"
  using assms by (simp add: read_file_def for_lines_append codec_simps and_then_def split: sum.split)

lemma read_lines_history:
  "for_lines c path entry_step n ls es = Inr es' \<Longrightarrow> es = [] \<or> history_ok (px_key (hd es)) es \<Longrightarrow>
     es' = [] \<or> history_ok (px_key (hd es')) es'"
proof (induction ls arbitrary: n es)
  case (Cons l ls)
  show ?case
  proof (cases "cd_blank c l")
    case True
    with Cons.prems Cons.IH show ?thesis by simp
  next
    case False
    with Cons.prems(1) obtain e t where t: "entry_step n e es = Inr t" "for_lines c path entry_step (Suc n) ls t = Inr es'"
      by (auto simp: and_then_ok split: option.splits)
    have "history_ok (px_key (hd t)) t"
      using t(1) Cons.prems(2)
      by (cases "es = []") (auto simp: entry_step_ok history_ok_single history_ok_snoc dest: history_ok_key)
    then show ?thesis
      using Cons.IH [OF t(2)] by blast
  qed
qed simp

lemma read_file_history: "read_file c path ls = Inr es \<Longrightarrow> es = [] \<or> history_ok (px_key (hd es)) es"
  unfolding read_file_def by (erule read_lines_history) simp

lemma read_path_ok:
  "read_path dg c d path j = Inr j' \<longleftrightarrow> (\<exists>es. read_file c path (file_lines d path) = Inr es
     \<and> (if es = [] then j' = j
        else path_for dg (px_key (hd es)) = path \<and> jr_get j (px_key (hd es)) = None
          \<and> j' = j\<lparr>jr_entries := jr_entries j @ [(px_key (hd es), es)]\<rparr>))"
proof (cases "read_file c path (file_lines d path)")
  case (Inr es)
  then show ?thesis by (cases es) (auto simp: read_path_def Let_def)
qed (simp add: read_path_def)

lemma read_path_keeps:
  assumes "journal_ok j" "read_path dg c d path j = Inr j'"
  shows "journal_ok j'"
proof -
  from assms(2) obtain es where es: "read_file c path (file_lines d path) = Inr es"
    and j': "if es = [] then j' = j else jr_get j (px_key (hd es)) = None
      \<and> j' = j\<lparr>jr_entries := jr_entries j @ [(px_key (hd es), es)]\<rparr>"
    by (auto simp: read_path_ok split: if_splits)
  have "history_ok (px_key (hd es)) es" if "es \<noteq> []"
    using read_file_history [OF es] that by blast
  with j' assms(1) show ?thesis
    by (cases "es = []")
       (auto simp: journal_ok_def jr_get_def map_of_eq_None_iff map_add_def split: option.splits if_splits)
qed

lemma open_journal_ok:
  assumes "open_with_retention dg c n d = Inr j"
  shows "journal_ok j"
proof -
  let ?j = "\<lparr>jr_root = True, jr_retention_entries = n, jr_entries = []\<rparr>"
  have "0 < n" "try_fold (read_path dg c d) (filter has_jsonl_extension (bt_keys d)) ?j = Inr j"
    using assms by (auto simp: open_with_retention_def read_all_views_def split: if_splits)
  moreover from this(1) have "journal_ok ?j"
    by (simp add: journal_ok_def jr_get_def)
  ultimately show ?thesis
    using try_fold_inv [of _ journal_ok] read_path_keeps by metis
qed

section \<open>Any run of the journal\<close>

definition record_step ::
  "(string \<Rightarrow> bool) \<Rightarrow> digests \<Rightarrow> 'l envelope_codec \<Rightarrow> projection_key \<times> projection_payload
     \<Rightarrow> projection_journal \<times> 'l disk \<Rightarrow> (projection_journal \<times> 'l disk) state_result" where
  "record_step refuses dg c = (\<lambda>(key, payload) (j, d).
     and_then (record_view refuses dg c key payload j d) (\<lambda>(_, j', d'). Inr (j', d')))"

definition record_all ::
  "(string \<Rightarrow> bool) \<Rightarrow> digests \<Rightarrow> 'l envelope_codec \<Rightarrow> (projection_key \<times> projection_payload) list
     \<Rightarrow> projection_journal \<times> 'l disk \<Rightarrow> (projection_journal \<times> 'l disk) state_result" where
  "record_all refuses dg c views = try_fold (record_step refuses dg c) views"

lemma record_step_ok:
  "record_step refuses dg c v s = Inr s' \<longleftrightarrow>
     (\<exists>r. record_view refuses dg c (fst v) (snd v) (fst s) (snd s) = Inr (r, s'))"
  by (cases v; cases s; cases s') (auto simp: record_step_def and_then_ok)

lemma record_all_ok:
  assumes "journal_ok (fst s)" "record_all refuses dg c views s = Inr s'"
  shows "journal_ok (fst s')"
proof (rule try_fold_inv [of views "\<lambda>s. journal_ok (fst s)" "record_step refuses dg c" s s'])
  show "try_fold (record_step refuses dg c) views s = Inr s'"
    using assms(2) by (simp add: record_all_def)
  show "journal_ok (fst s)" by (rule assms(1))
  fix v t t'
  assume "journal_ok (fst t)" "record_step refuses dg c v t = Inr t'"
  then show "journal_ok (fst t')"
    using record_view_keeps by (cases t') (auto simp: record_step_ok)
qed

section \<open>Replay\<close>

lemma history_filter:
  assumes "history_ok key es"
  shows "filter (\<lambda>e. px_cursor e \<ge> c) es = drop (unat (cur_seq c)) es"
proof -
  have "filter (\<lambda>e. px_cursor e \<ge> c) (drop n es) = drop (max n (unat (cur_seq c))) es" if "n \<le> length es" for n
    using that
  proof (induction "length es - n" arbitrary: n)
    case 0
    then show ?case by simp
  next
    case (Suc m)
    then have n: "n < length es" by simp
    then have "unat (cur_seq (px_cursor (es ! n))) = n"
      using assms by (simp add: history_ok_def)
    then have "px_cursor (es ! n) \<ge> c \<longleftrightarrow> unat (cur_seq c) \<le> n"
      by (simp add: less_eq_cursor_def word_le_nat_alt)
    moreover have "drop n es = es ! n # drop (Suc n) es"
      using n by (simp add: Cons_nth_drop_Suc)
    moreover have "filter (\<lambda>e. px_cursor e \<ge> c) (drop (Suc n) es) = drop (max (Suc n) (unat (cur_seq c))) es"
      using Suc n by (intro Suc.hyps(1)) simp_all
    ultimately show ?case
      using n by (auto simp: max_def)
  qed
  from this [of 0] show ?thesis by simp
qed

lemma history_find_last:
  assumes "history_ok key es"
  shows "find (\<lambda>e. px_cursor e = px_cursor (last es)) es = Some (last es)"
proof -
  have len: "es \<noteq> []" using assms by (simp add: history_ok_def)
  have "px_cursor (es ! i) \<noteq> px_cursor (last es)" if "i < length es - 1" for i
  proof -
    have "unat (cur_seq (px_cursor (es ! i))) = i"
      using assms that by (simp add: history_ok_def)
    then show ?thesis
      using that history_ok_last [OF assms] by (metis less_irrefl)
  qed
  then show ?thesis
    unfolding find_Some_iff using len by (intro exI [of _ "length es - 1"]) (auto simp: last_conv_nth)
qed

lemma history_sequence:
  assumes "history_ok key es" "projection_key_validate key = ok" "unat (cur_seq since) + 1 = n"
  shows "validate_projection_sequence key since (drop n es) = ok"
proof -
  have "validate_for_transport (drop n es ! i) = ok \<and> px_key (drop n es ! i) = key
      \<and> unat (cur_seq (px_cursor (drop n es ! i))) = unat (cur_seq since) + Suc i" if "i < length (drop n es)" for i
    using assms that by (auto simp: history_ok_def)
  then show ?thesis
    using assms(2) by (simp add: validate_projection_sequence_def sequence_from_ok)
qed

lemma journal_window:
  assumes "journal_ok j" "jr_get j key = Some es"
  shows "head j key = Some (px_cursor (last es))"
    and "\<exists>f. journal_floor j key = Some f \<and> unat (cur_seq f) = length es - jr_retention_entries j
      \<and> unat (cur_seq f) \<le> unat (cur_seq (px_cursor (last es)))"
proof -
  have es: "history_ok key es" "es \<noteq> []" "0 < jr_retention_entries j"
    using assms by (auto simp: journal_ok_def history_ok_def)
  show "head j key = Some (px_cursor (last es))"
    using es(2) assms(2) by (simp add: head_def current_def)
  have "length es - jr_retention_entries j < length es"
    using es(2,3) by simp
  then show "\<exists>f. journal_floor j key = Some f \<and> unat (cur_seq f) = length es - jr_retention_entries j
      \<and> unat (cur_seq f) \<le> unat (cur_seq (px_cursor (last es)))"
    using es assms(2) history_ok_last [OF es(1)] by (auto simp: journal_floor_def Let_def history_ok_def)
qed

section \<open>Reading back what was written\<close>

text \<open>
  Every history is what its file reads back as, and every file that holds a history belongs to the
  journal.
\<close>

definition synced :: "digests \<Rightarrow> 'l envelope_codec \<Rightarrow> projection_journal \<Rightarrow> 'l disk \<Rightarrow> bool" where
  "synced dg c j d \<longleftrightarrow> bt_wf d
     \<and> (\<forall>path ls. bt_get d path = Some ls \<and> has_jsonl_extension path \<longrightarrow>
          (\<exists>es. read_file c path ls = Inr es \<and> (es = [] \<or> path = path_for dg (px_key (hd es)) \<and> jr_get j (px_key (hd es)) = Some es)))
     \<and> (\<forall>key es. jr_get j key = Some es \<longrightarrow> read_file c (path_for dg key) (file_lines d (path_for dg key)) = Inr es)"

lemma path_for_extension: "dg_hex_digest dg (dg_key_json dg key) \<noteq> [] \<Longrightarrow> has_jsonl_extension (path_for dg key)"
  by (simp add: has_jsonl_extension_def path_for_def)

lemma read_file_nil [simp]: "read_file c path [] = Inr []"
  by (simp add: read_file_def)

lemma synced_push:
  assumes "codec_ok c" "journal_ok j" "synced dg c j d" "jr_root j"
    and e: "px_key e = key" "validate_for_transport e = ok"
      "case head j key of None \<Rightarrow> px_cursor e = START | Some h \<Rightarrow> cursor_next h = Inr (px_cursor e)"
    and inj: "\<And>k. jr_get j k \<noteq> None \<Longrightarrow> path_for dg k = path_for dg key \<Longrightarrow> k = key"
    and fresh: "jr_get j key = None \<Longrightarrow> read_file c (path_for dg key) (file_lines d (path_for dg key)) = Inr []"
  shows "synced dg c (j\<lparr>jr_entries := push_entry key e (jr_entries j)\<rparr>)
    (bt_insert (path_for dg key) (file_lines d (path_for dg key) @ [cd_encode c e]) d)"
proof -
  let ?p = "path_for dg key" and ?es = "entries_of j key"
  have old: "read_file c ?p (file_lines d ?p) = Inr ?es"
    using assms(3) fresh by (auto simp: synced_def entries_of_def split: option.split)
  have hist: "history_ok key es" if "jr_get j key = Some es" for es
    using that assms(2) by (simp add: journal_ok_def)
  have "entry_step n e ?es = Inr (?es @ [e])" for n
    using e head_entries [OF assms(2), of key] hist
    by (cases "jr_get j key") (auto simp: entry_step_ok entries_of_def history_ok_key)
  then have new: "read_file c ?p (file_lines d ?p @ [cd_encode c e]) = Inr (?es @ [e])"
    using read_file_snoc [OF assms(1) old] by simp
  have hd: "px_key (hd (?es @ [e])) = key"
    using e(1) hist by (cases "jr_get j key") (auto simp: entries_of_def hd_append history_ok_key)
  show ?thesis
    unfolding synced_def
  proof (intro conjI allI impI)
    show "bt_wf (bt_insert ?p (file_lines d ?p @ [cd_encode c e]) d)"
      using assms(3) by (simp add: synced_def)
  next
    fix path ls
    assume "bt_get (bt_insert ?p (file_lines d ?p @ [cd_encode c e]) d) path = Some ls \<and> has_jsonl_extension path"
    then show "\<exists>es. read_file c path ls = Inr es \<and> (es = [] \<or> path = path_for dg (px_key (hd es))
        \<and> jr_get (j\<lparr>jr_entries := push_entry key e (jr_entries j)\<rparr>) (px_key (hd es)) = Some es)"
      using assms(3) new hd by (cases "path = ?p") (auto simp: synced_def)
  next
    fix k es
    assume "jr_get (j\<lparr>jr_entries := push_entry key e (jr_entries j)\<rparr>) k = Some es"
    then show "read_file c (path_for dg k)
        (file_lines (bt_insert ?p (file_lines d ?p @ [cd_encode c e]) d) (path_for dg k)) = Inr es"
      using assms(3) new inj [of k] by (auto simp: synced_def split: if_splits)
  qed
qed

lemma digest_extension [simp]: "digests_ok dg \<Longrightarrow> has_jsonl_extension (path_for dg key)"
  by (rule path_for_extension) (metis digests_ok_def is_lower_hex64_def list.size(3) zero_neq_numeral)

lemma synced_fresh:
  assumes "digests_ok dg" "synced dg c j d" "jr_get j key = None"
    and "\<And>k. jr_get j k \<noteq> None \<Longrightarrow> path_for dg k = path_for dg key \<Longrightarrow> k = key"
  shows "read_file c (path_for dg key) (file_lines d (path_for dg key)) = Inr []"
proof (cases "bt_get d (path_for dg key)")
  case None
  then show ?thesis by (simp add: file_lines_def)
next
  case (Some ls)
  then obtain es where "read_file c (path_for dg key) ls = Inr es"
    "es = [] \<or> path_for dg key = path_for dg (px_key (hd es)) \<and> jr_get j (px_key (hd es)) = Some es"
    using assms(1,2) digest_extension unfolding synced_def by blast
  moreover from this have "es = []"
    using assms(3) assms(4) [of "px_key (hd es)"] by auto
  ultimately show ?thesis
    using Some by (simp add: file_lines_def)
qed

lemma read_paths:
  assumes "try_fold (read_path dg c d) paths j = Inr j'"
  shows "(\<forall>k es. jr_get j k = Some es \<longrightarrow> jr_get j' k = Some es)
    \<and> (\<forall>path \<in> set paths. \<exists>es. read_file c path (file_lines d path) = Inr es
        \<and> (es = [] \<or> path = path_for dg (px_key (hd es)) \<and> jr_get j' (px_key (hd es)) = Some es))
    \<and> (\<forall>k es. jr_get j' k = Some es \<longrightarrow> jr_get j k = Some es
        \<or> read_file c (path_for dg k) (file_lines d (path_for dg k)) = Inr es \<and> path_for dg k \<in> set paths)"
  using assms
proof (induction paths arbitrary: j)
  case (Cons path paths)
  then obtain t where t: "read_path dg c d path j = Inr t" "try_fold (read_path dg c d) paths t = Inr j'"
    by (auto simp: and_then_ok)
  note IH = Cons.IH [OF t(2)]
  from t(1) obtain es where es: "read_file c path (file_lines d path) = Inr es"
    "if es = [] then t = j else path_for dg (px_key (hd es)) = path \<and> jr_get j (px_key (hd es)) = None
       \<and> t = j\<lparr>jr_entries := jr_entries j @ [(px_key (hd es), es)]\<rparr>"
    by (auto simp: read_path_ok)
  then have get: "jr_get t k = (if es \<noteq> [] \<and> k = px_key (hd es) then Some es else jr_get j k)" for k
    by (auto simp: jr_get_def map_add_def split: if_splits option.splits)
  have keep: "jr_get t k = Some fs" if "jr_get j k = Some fs" for k fs
    using that es(2) by (auto simp: get split: if_splits)
  have own: "es = [] \<or> path = path_for dg (px_key (hd es)) \<and> jr_get t (px_key (hd es)) = Some es"
    using es(2) by (auto simp: get split: if_splits)
  show ?case
  proof (intro conjI allI ballI impI)
    show "jr_get j' k = Some fs" if "jr_get j k = Some fs" for k fs
      using keep [OF that] IH by blast
  next
    fix q assume "q \<in> set (path # paths)"
    then show "\<exists>es. read_file c q (file_lines d q) = Inr es
        \<and> (es = [] \<or> q = path_for dg (px_key (hd es)) \<and> jr_get j' (px_key (hd es)) = Some es)"
      using es(1) own IH by auto
  next
    fix k fs assume "jr_get j' k = Some fs"
    then consider "jr_get t k = Some fs"
      | "read_file c (path_for dg k) (file_lines d (path_for dg k)) = Inr fs" "path_for dg k \<in> set paths"
      using IH by blast
    then show "jr_get j k = Some fs
        \<or> read_file c (path_for dg k) (file_lines d (path_for dg k)) = Inr fs \<and> path_for dg k \<in> set (path # paths)"
    proof cases
      case 1
      then show ?thesis using es own by (auto simp: get split: if_splits)
    qed simp
  qed
qed simp

lemma read_paths_total:
  assumes "\<And>path. path \<in> set paths \<Longrightarrow> \<exists>es. read_file c path (file_lines d path) = Inr es
      \<and> (es = [] \<or> path_for dg (px_key (hd es)) = path)"
    and "distinct paths" "\<And>k. jr_get j k \<noteq> None \<Longrightarrow> path_for dg k \<notin> set paths"
  shows "\<exists>j'. try_fold (read_path dg c d) paths j = Inr j'"
  using assms
proof (induction paths arbitrary: j)
  case (Cons path paths)
  obtain es where es: "read_file c path (file_lines d path) = Inr es" "es = [] \<or> path_for dg (px_key (hd es)) = path"
    using Cons.prems(1) [of path] by auto
  define t where "t = (if es = [] then j else j\<lparr>jr_entries := jr_entries j @ [(px_key (hd es), es)]\<rparr>)"
  have "jr_get j (px_key (hd es)) = None" if "es \<noteq> []"
    using Cons.prems(3) [of "px_key (hd es)"] es(2) that by (cases "jr_get j (px_key (hd es))") auto
  then have t: "read_path dg c d path j = Inr t"
    using es by (auto simp: read_path_ok t_def)
  have "path_for dg k \<notin> set paths" if "jr_get t k \<noteq> None" for k
  proof -
    have "jr_get j k \<noteq> None \<or> es \<noteq> [] \<and> k = px_key (hd es)"
      using that by (auto simp: t_def jr_get_def map_add_def split: if_splits option.splits)
    then show ?thesis
      using Cons.prems(2,3) es(2) by auto
  qed
  then have "\<exists>j'. try_fold (read_path dg c d) paths t = Inr j'"
    using Cons.prems(1,2) by (intro Cons.IH) auto
  with t show ?case by simp
qed simp

lemma open_paths:
  "open_with_retention dg c n d = Inr j \<longleftrightarrow> 0 < n \<and> try_fold (read_path dg c d) (filter has_jsonl_extension (bt_keys d))
     \<lparr>jr_root = True, jr_retention_entries = n, jr_entries = []\<rparr> = Inr j"
  by (auto simp: open_with_retention_def read_all_views_def)

lemma open_synced:
  assumes "open_with_retention dg c n d = Inr j" "bt_wf d"
  shows "synced dg c j d"
proof -
  let ?paths = "filter has_jsonl_extension (bt_keys d)"
  let ?j = "\<lparr>jr_root = True, jr_retention_entries = n, jr_entries = []\<rparr>"
  have "try_fold (read_path dg c d) ?paths ?j = Inr j"
    using assms(1) by (simp add: open_paths)
  note r = read_paths [OF this]
  have none: "jr_get ?j k = None" for k by (simp add: jr_get_def)
  show ?thesis
    unfolding synced_def
  proof (intro conjI allI impI)
    fix path ls
    assume a: "bt_get d path = Some ls \<and> has_jsonl_extension path"
    then have "path \<in> set ?paths" "file_lines d path = ls"
      by (simp_all add: bt_keys_iff file_lines_def)
    then show "\<exists>es. read_file c path ls = Inr es \<and> (es = [] \<or> path = path_for dg (px_key (hd es)) \<and> jr_get j (px_key (hd es)) = Some es)"
      using r by metis
  next
    fix key es assume "jr_get j key = Some es"
    then show "read_file c (path_for dg key) (file_lines d (path_for dg key)) = Inr es"
      using r none by fastforce
  qed (rule assms(2))
qed

lemma synced_open:
  assumes "digests_ok dg" "0 < n" "journal_ok j" "synced dg c j d"
  shows "\<exists>j'. open_with_retention dg c n d = Inr j' \<and> (\<forall>k. jr_get j' k = jr_get j k)"
proof -
  let ?paths = "filter has_jsonl_extension (bt_keys d)"
  let ?j = "\<lparr>jr_root = True, jr_retention_entries = n, jr_entries = []\<rparr>"
  have none: "jr_get ?j k = None" for k by (simp add: jr_get_def)
  have on_disk: "\<exists>es. read_file c path (file_lines d path) = Inr es
      \<and> (es = [] \<or> path = path_for dg (px_key (hd es)) \<and> jr_get j (px_key (hd es)) = Some es)"
    if "path \<in> set ?paths" for path
    using that assms(4) by (auto simp: synced_def bt_keys_iff file_lines_def)
  have "distinct ?paths"
    using assms(4) bt_keys_distinct [of d] by (simp add: synced_def)
  then obtain j' where j': "try_fold (read_path dg c d) ?paths ?j = Inr j'"
    using read_paths_total [of ?paths c d dg ?j] on_disk none by metis
  note r = read_paths [OF j']
  have "jr_get j' k = Some es \<longleftrightarrow> jr_get j k = Some es" for k es
  proof
    assume "jr_get j' k = Some es"
    then have a: "read_file c (path_for dg k) (file_lines d (path_for dg k)) = Inr es" "path_for dg k \<in> set ?paths"
      using r none [of k] by (metis option.distinct(1))+
    have "journal_ok j'" using open_journal_ok [of dg c n d j'] j' assms(2) by (simp add: open_paths)
    then have "history_ok k es" using \<open>jr_get j' k = Some es\<close> by (simp add: journal_ok_def)
    then have "es \<noteq> []" "px_key (hd es) = k" by (simp_all add: history_ok_key) (simp add: history_ok_def)
    then show "jr_get j k = Some es"
      using on_disk [OF a(2)] a(1) by auto
  next
    assume k: "jr_get j k = Some es"
    then have h: "history_ok k es" and a: "read_file c (path_for dg k) (file_lines d (path_for dg k)) = Inr es"
      using assms(3,4) by (simp_all add: journal_ok_def synced_def)
    then have "bt_get d (path_for dg k) \<noteq> None"
      by (cases "bt_get d (path_for dg k)") (auto simp: file_lines_def history_ok_def)
    then have "path_for dg k \<in> set ?paths"
      using assms(1) by (simp add: bt_keys_iff)
    then obtain fs where "read_file c (path_for dg k) (file_lines d (path_for dg k)) = Inr fs"
      "fs = [] \<or> jr_get j' (px_key (hd fs)) = Some fs"
      using r by blast
    moreover have "es \<noteq> []" "px_key (hd es) = k"
      using h history_ok_key [OF h] by (simp_all add: history_ok_def)
    ultimately show "jr_get j' k = Some es"
      using a by simp
  qed
  then have "jr_get j' k = jr_get j k" for k
    by (metis not_Some_eq)
  then show ?thesis
    using j' assms(2) by (auto simp: open_paths)
qed

lemma record_view_synced:
  assumes "codec_ok c" "digests_ok dg" "journal_ok j" "synced dg c j d" "jr_root j"
    and "record_view refuses dg c key payload j d = Inr (r, j', d')"
    and "inj_on (path_for dg) {k. jr_get j' k \<noteq> None}"
  shows "synced dg c j' d' \<and> jr_root j' \<and> {k. jr_get j k \<noteq> None} \<subseteq> {k. jr_get j' k \<noteq> None}"
  using assms(6)
proof (cases rule: record_view_cases)
  case unchanged
  with assms(4,5) show ?thesis by simp
next
  case (appended e)
  have inj: "k = key" if "jr_get j k \<noteq> None" "path_for dg k = path_for dg key" for k
    using assms(7) that by (auto simp: inj_on_def appended(5) split: if_splits)
  have d': "d' = bt_insert (path_for dg key) (file_lines d (path_for dg key) @ [cd_encode c e]) d"
    using appended(2,6) assms(5) by (simp add: append_file_ok)
  show ?thesis
    unfolding appended(5) d'
    using synced_push [OF assms(1,3,4,5) appended(2,7,8)] synced_fresh [OF assms(2,4)] inj assms(5) by auto
qed

lemma open_root:
  assumes "open_with_retention dg c n d = Inr j"
  shows "jr_root j" "0 < n"
proof -
  have "jr_root t'" if "jr_root t" "read_path dg c d path t = Inr t'" for path t t'
    using that by (auto simp: read_path_ok split: if_splits)
  moreover have run: "0 < n" "try_fold (read_path dg c d) (filter has_jsonl_extension (bt_keys d))
      \<lparr>jr_root = True, jr_retention_entries = n, jr_entries = []\<rparr> = Inr j"
    using assms by (simp_all add: open_paths)
  ultimately show "jr_root j"
    by (intro try_fold_inv [of _ jr_root, OF _ run(2)]) simp_all
  show "0 < n" by (rule run(1))
qed

lemma record_all_synced:
  assumes "codec_ok c" "digests_ok dg" "journal_ok j0" "synced dg c j0 d" "jr_root j0"
    and "record_all refuses dg c views (j0, d) = Inr (j, d')"
    and "inj_on (path_for dg) {k. jr_get j k \<noteq> None}"
  shows "journal_ok j \<and> synced dg c j d' \<and> jr_root j \<and> {k. jr_get j0 k \<noteq> None} \<subseteq> {k. jr_get j k \<noteq> None}"
  using assms(6,7)
proof (induction views arbitrary: j d' rule: rev_induct)
  case Nil
  with assms show ?case by (simp add: record_all_def)
next
  case (snoc v views)
  obtain t d1 where t: "record_all refuses dg c views (j0, d) = Inr (t, d1)"
    "record_step refuses dg c v (t, d1) = Inr (j, d')"
    using snoc.prems(1) by (auto simp: record_all_def try_fold_append and_then_ok)
  then obtain r where r: "record_view refuses dg c (fst v) (snd v) t d1 = Inr (r, j, d')"
    by (auto simp: record_step_ok)
  have "{k. jr_get t k \<noteq> None} \<subseteq> {k. jr_get j k \<noteq> None}"
    using r by (cases rule: record_view_cases) auto
  then have "inj_on (path_for dg) {k. jr_get t k \<noteq> None}"
    using snoc.prems(2) inj_on_subset by blast
  note IH = snoc.IH [OF t(1) this]
  show ?case
    using record_view_synced [OF assms(1,2) _ _ _ r snoc.prems(2)] record_view_keeps [OF _ r] IH by blast
qed

section \<open>Reconciliation\<close>

lemma prefix_zip: "prefix xs ys \<longleftrightarrow> \<not> (length ys < length xs \<or> list_ex (\<lambda>(a, b). a \<noteq> b) (zip xs ys))"
proof (induction xs arbitrary: ys)
  case (Cons x xs)
  then show ?case by (cases ys) auto
qed simp

lemma diverged_check_ok:
  "diverged_check expected (key, actual) = ok \<longleftrightarrow> (\<exists>es. jr_get expected key = Some es \<and> prefix actual es)"
  by (auto simp: diverged_check_def prefix_zip split: option.split)

lemma jr_get_mem: "distinct (map fst (jr_entries j)) \<Longrightarrow> jr_get j k = Some es \<longleftrightarrow> (k, es) \<in> set (jr_entries j)"
  by (simp add: jr_get_def)

lemma diverged_all_ok:
  assumes "journal_ok j"
  shows "for_each (diverged_check expected) (jr_entries j) = ok \<longleftrightarrow>
    (\<forall>key es. jr_get j key = Some es \<longrightarrow> (\<exists>fs. jr_get expected key = Some fs \<and> prefix es fs))"
proof -
  have "distinct (map fst (jr_entries j))" using assms by (simp add: journal_ok_def)
  then show ?thesis
    by (simp add: for_each_ok jr_get_mem) (auto simp: diverged_check_ok)
qed

lemma restore_entry_apply:
  "restore_entry refuses dg c key e (j, d) = and_then (append_file refuses dg c j e d) (\<lambda>d'.
     Inr (j\<lparr>jr_entries := push_entry key e (jr_entries j)\<rparr>, d'))"
  by (simp add: restore_entry_def)

lemma restore_entries:
  assumes "try_fold (restore_entry refuses dg c key) es (j, d) = Inr (j', d')"
  shows "jr_get j' k = (if k = key \<and> es \<noteq> [] then Some (entries_of j key @ es) else jr_get j k)"
  using assms
proof (induction es arbitrary: j d)
  case (Cons e es)
  then obtain d1 where "try_fold (restore_entry refuses dg c key) es (j\<lparr>jr_entries := push_entry key e (jr_entries j)\<rparr>, d1) = Inr (j', d')"
    by (auto simp: restore_entry_apply and_then_ok)
  from Cons.IH [OF this] show ?case
    by (auto simp: entries_of_def)
qed simp

lemma restore_key_get:
  assumes "restore_key refuses dg c (key, fs) (j, d) = Inr (j', d')" "prefix (entries_of j key) fs" "fs \<noteq> []"
  shows "jr_get j' k = (if k = key then Some fs else jr_get j k)"
proof -
  let ?n = "length (entries_of j key)"
  have "(case jr_get j key of None \<Rightarrow> 0 | Some es \<Rightarrow> length es) = ?n"
    by (simp add: entries_of_def split: option.split)
  then have "try_fold (restore_entry refuses dg c key) (drop ?n fs) (j, d) = Inr (j', d')"
    using assms(1) by (simp add: restore_key_def Let_def)
  from restore_entries [OF this, of k] assms(2,3) show ?thesis
    by (auto simp: prefix_def entries_of_def split: option.splits)
qed

lemma restore_all:
  assumes "try_fold (restore_key refuses dg c) xs (j, d) = Inr (j', d')" "distinct (map fst xs)"
    and "\<And>key fs. (key, fs) \<in> set xs \<Longrightarrow> prefix (entries_of j key) fs \<and> fs \<noteq> []"
  shows "jr_get j' k = (case map_of xs k of Some fs \<Rightarrow> Some fs | None \<Rightarrow> jr_get j k)"
  using assms
proof (induction xs arbitrary: j d)
  case (Cons x xs)
  obtain key fs where x: "x = (key, fs)" by (cases x)
  from Cons.prems(1) obtain t d1 where t: "restore_key refuses dg c (key, fs) (j, d) = Inr (t, d1)"
    "try_fold (restore_key refuses dg c) xs (t, d1) = Inr (j', d')"
    by (auto simp: x and_then_ok)
  have get: "jr_get t k = (if k = key then Some fs else jr_get j k)" for k
    using restore_key_get [OF t(1)] Cons.prems(3) [of key fs] x by simp
  have "prefix (entries_of t i) gs \<and> gs \<noteq> []" if "(i, gs) \<in> set xs" for i gs
  proof -
    have "i \<noteq> key" using that Cons.prems(2) by (auto simp: x image_iff)
    then have "entries_of t i = entries_of j i" by (simp add: entries_of_def get)
    then show ?thesis using that Cons.prems(3) [of i gs] by simp
  qed
  then have "jr_get j' k = (case map_of xs k of Some fs \<Rightarrow> Some fs | None \<Rightarrow> jr_get t k)"
    using Cons.prems(2) by (intro Cons.IH [OF t(2)]) simp_all
  moreover have "map_of xs key = None"
    using Cons.prems(2) by (simp add: x map_of_eq_None_iff)
  ultimately show ?case
    by (cases "k = key") (simp_all add: x get split: option.split)
qed simp

lemma append_file_total: "\<exists>d'. append_file (\<lambda>_. False) dg c j e d = Inr d'"
  by (simp add: append_file_def append_record_def)

lemma restore_entries_total: "\<exists>s'. try_fold (restore_entry (\<lambda>_. False) dg c key) es s = Inr s'"
proof (induction es arbitrary: s)
  case (Cons e es)
  obtain j d where s: "s = (j, d)" by (cases s)
  obtain d' where "append_file (\<lambda>_. False) dg c j e d = Inr d'"
    using append_file_total by blast
  then show ?case using Cons.IH by (simp add: s restore_entry_def)
qed simp

lemma restore_all_total: "\<exists>s'. try_fold (restore_key (\<lambda>_. False) dg c) xs s = Inr s'"
proof (induction xs arbitrary: s)
  case (Cons x xs)
  obtain t where "restore_key (\<lambda>_. False) dg c x s = Inr t"
    using restore_entries_total by (cases x; cases s) (fastforce simp: restore_key_def Let_def)
  then show ?case using Cons.IH by simp
qed simp

lemma reconcile_get:
  assumes "journal_ok j" "journal_ok expected" "reconcile refuses dg c expected j d = Inr (j', d')"
  shows "jr_get j' k = jr_get expected k"
proof -
  have pre: "for_each (diverged_check expected) (jr_entries j) = ok"
    and run: "try_fold (restore_key refuses dg c) (jr_entries expected) (j, d) = Inr (j', d')"
    using assms(3) by (auto simp: reconcile_def and_then_ok)
  have dist: "distinct (map fst (jr_entries expected))"
    using assms(2) by (simp add: journal_ok_def)
  have known: "\<exists>fs. jr_get expected key = Some fs \<and> prefix es fs" if "jr_get j key = Some es" for key es
    using pre that diverged_all_ok [OF assms(1)] by blast
  have "prefix (entries_of j key) fs \<and> fs \<noteq> []" if "(key, fs) \<in> set (jr_entries expected)" for key fs
  proof -
    have fs: "jr_get expected key = Some fs" using that dist by (simp add: jr_get_mem)
    then have "fs \<noteq> []" using assms(2) by (auto simp: journal_ok_def history_ok_def)
    with fs known show ?thesis by (fastforce simp: entries_of_def split: option.split)
  qed
  note get = restore_all [OF run dist this, of k]
  show ?thesis
  proof (cases "jr_get expected k")
    case None
    then have "jr_get j k = None" using known [of k] by (cases "jr_get j k") auto
    with get None show ?thesis by (simp add: jr_get_def)
  next
    case (Some fs)
    then show ?thesis using get by (simp add: jr_get_def)
  qed
qed

section \<open>Properties\<close>

definition sample_views :: "(projection_key \<times> projection_payload) list" where
  "sample_views = map (\<lambda>reach. (Key_ProjectIndex ''host_1'', px_payload (sample_index reach 0)))
     [Reach_Offline, LanDirect, LanDirect, Relayed]"

definition empty_journal :: "nat \<Rightarrow> projection_journal" where
  "empty_journal n = \<lparr>jr_root = True, jr_retention_entries = n, jr_entries = []\<rparr>"

definition sample_journal :: "projection_journal \<times> projection_envelope option disk" where
  "sample_journal = (case record_all (\<lambda>_. False) sample_digests plain_codec sample_views (empty_journal 2, []) of
     Inr s \<Rightarrow> s | Inl _ \<Rightarrow> (empty_journal 2, []))"

lemma sample_opens: "open_with_retention sample_digests plain_codec 2 [] = Inr (empty_journal 2)"
  by (simp add: open_paths bt_keys_def empty_journal_def)

lemma sample_records:
  "record_all (\<lambda>_. False) sample_digests plain_codec sample_views (empty_journal 2, []) = Inr sample_journal"
proof -
  have "is_ok (record_all (\<lambda>_. False) sample_digests plain_codec sample_views (empty_journal 2, []))"
    unfolding is_ok_def by code_simp
  then show ?thesis by (auto simp: sample_journal_def)
qed

lemma sample_history:
  "jr_get (fst sample_journal) (Key_ProjectIndex ''host_1'') =
     Some [sample_index Reach_Offline 0, sample_index LanDirect 1, sample_index Relayed 2]"
  by code_simp

text \<open>
  C26: A replay brings the subscriber up to date. Open a journal on any files, record any views, and
  ask for the history of a key that has one: the answer passes the client's own check; a resumed
  subscriber gets exactly the views after its cursor, accepted by \<open>validate_projection_sequence\<close> and
  ending at the head; any other subscriber gets the current view alone, or a refusal when its cursor
  lies ahead.
\<close>

theorem journal_replay_catches_up:
  assumes "open_with_retention dg c n d = Inr j0" "record_all refuses dg c views (j0, d) = Inr (j, d')"
    and "jr_get j (sub_key request) = Some es" "projection_key_validate (sub_key request) = ok"
  shows "\<exists>r. replay_views j request at_ms = Inr r \<and> ack_validate_for request (rp_ack r) = ok
    \<and> (case sak_outcome (rp_ack r) of
         Resumed _ \<Rightarrow> \<exists>since. sub_since request = Some since
           \<and> rp_envelopes r = drop (unat (cur_seq since) + 1) es
           \<and> validate_projection_sequence (sub_key request) since (rp_envelopes r) = ok
           \<and> unat (cur_seq since) + length (rp_envelopes r) = unat (cur_seq (px_cursor (last es)))
       | CurrentFollows c \<Rightarrow> c = px_cursor (last es) \<and> rp_envelopes r = [last es]
       | Subscribe_Rejected _ \<Rightarrow> rp_envelopes r = [] \<and> (\<exists>since. sub_since request = Some since
           \<and> (px_cursor (last es) < since \<or> unat (cur_seq since) = 2 ^ 64 - 1)))"
proof -
  let ?h = "px_cursor (last es)"
  have ok: "journal_ok j"
    using record_all_ok [of "(j0, d)"] open_journal_ok assms(1,2) by fastforce
  then have h: "history_ok (sub_key request) es"
    using assms(3) by (simp add: journal_ok_def)
  have len: "unat (cur_seq ?h) + 1 = length es"
    using history_ok_last [OF h] h by (cases es) (auto simp: history_ok_def)
  obtain f where f: "journal_floor j (sub_key request) = Some f" "unat (cur_seq f) \<le> unat (cur_seq ?h)"
    using journal_window(2) [OF ok assms(3)] by blast
  obtain ack where ack: "decide_projection_subscription request f ?h at_ms = Inr ack" "ack_validate_for request ack = ok"
    and sak: "sak_outcome ack = (case sub_since request of
        None \<Rightarrow> CurrentFollows ?h
      | Some c \<Rightarrow>
          if unat (cur_seq ?h) < unat (cur_seq c) \<or> unat (cur_seq c) = 2 ^ 64 - 1
          then Subscribe_Rejected (cursor_gap_error at_ms)
          else if unat (cur_seq c) + 1 < unat (cur_seq f) then CurrentFollows ?h
          else Resumed (Cursor (cur_seq c + 1)))"
    using decided_subscription [OF assms(4) f(2)] by blast
  define r where "r = \<lparr>rp_ack = ack, rp_envelopes = (case sak_outcome ack of
      CurrentFollows c \<Rightarrow> opt_list (find (\<lambda>e. px_cursor e = c) es)
    | Resumed c \<Rightarrow> filter (\<lambda>e. px_cursor e \<ge> c) es
    | Subscribe_Rejected _ \<Rightarrow> [])\<rparr>"
  have "replay_views j request at_ms = Inr r"
    using assms(3,4) f(1) ack(1) journal_window(1) [OF ok assms(3)] by (simp add: replay_views_def r_def)
  moreover have "rp_envelopes r = drop (unat (cur_seq since) + 1) es"
    if "sub_since request = Some since" "sak_outcome ack = Resumed c" for since c
    using that sak cursor_succ [of since] by (auto simp: r_def history_filter [OF h] split: if_splits)
  moreover have "rp_envelopes r = [last es]" if "sak_outcome ack = CurrentFollows ?h"
    using that by (simp add: r_def history_find_last [OF h])
  moreover have "validate_projection_sequence (sub_key request) since (drop (unat (cur_seq since) + 1) es) = ok" for since
    by (rule history_sequence [OF h assms(4)]) simp
  ultimately show ?thesis
    using ack(2) sak len
    by (cases "sub_since request")
       (auto simp: r_def less_cursor_def word_less_nat_alt not_less split: if_splits)
qed

theorem journal_replay_catches_up_witness:
  "\<exists>r. replay_views (fst sample_journal) \<lparr>sub_key = Key_ProjectIndex ''host_1'', sub_since = Some (Cursor 0)\<rparr> 7 = Inr r
     \<and> ack_validate_for \<lparr>sub_key = Key_ProjectIndex ''host_1'', sub_since = Some (Cursor 0)\<rparr> (rp_ack r) = ok"
proof -
  have "record_all (\<lambda>_. False) sample_digests plain_codec sample_views (empty_journal 2, [])
      = Inr (fst sample_journal, snd sample_journal)"
    by (simp add: sample_records)
  from journal_replay_catches_up [OF sample_opens this, of
      "\<lparr>sub_key = Key_ProjectIndex ''host_1'', sub_since = Some (Cursor 0)\<rparr>"] sample_history
  show ?thesis by auto
qed

text \<open>
  C25: What the journal wrote is what it reads back. Open a journal, record any views, and open the
  directory again: if no two of the keys collide on a file name, the new journal has exactly the same
  histories. \<open>serde_json\<close> and the digest enter through \<open>codec_ok\<close> and \<open>digests_ok\<close>.
\<close>

theorem journal_reopens:
  assumes "codec_ok c" "digests_ok dg" "bt_wf d"
    and "open_with_retention dg c n d = Inr j0" "record_all refuses dg c views (j0, d) = Inr (j, d')"
    and "inj_on (path_for dg) {k. jr_get j k \<noteq> None}"
  shows "\<exists>j'. open_with_retention dg c n d' = Inr j' \<and> (\<forall>k. jr_get j' k = jr_get j k)"
proof -
  have start: "journal_ok j0" "synced dg c j0 d" "jr_root j0" "0 < n"
    using assms(3,4) open_journal_ok open_synced open_root by blast+
  have "journal_ok j \<and> synced dg c j d'"
    using record_all_synced [OF assms(1,2) start(1-3) assms(5,6)] by blast
  with assms(2) start(4) show ?thesis
    by (intro synced_open) simp_all
qed

theorem journal_reopens_witness:
  "\<exists>j'. open_with_retention sample_digests plain_codec 2 (snd sample_journal) = Inr j'
     \<and> (\<forall>k. jr_get j' k = jr_get (fst sample_journal) k)"
proof (rule journal_reopens [OF plain_codec_ok sample_digests_ok _ sample_opens])
  show "record_all (\<lambda>_. False) sample_digests plain_codec sample_views (empty_journal 2, [])
      = Inr (fst sample_journal, snd sample_journal)"
    by (simp add: sample_records)
  have "map fst (jr_entries (fst sample_journal)) = [Key_ProjectIndex ''host_1'']"
    by code_simp
  then show "inj_on (path_for sample_digests) {k. jr_get (fst sample_journal) k \<noteq> None}"
    by (cases "jr_entries (fst sample_journal)") (auto simp: jr_get_def inj_on_def split: if_splits)
qed simp



end
