(* ===== verification/Command_Outbox.thy ===== *)
theory Command_Outbox
  imports Durable State_Invariant
begin

text \<open>
  The durable outbox of device commands (\<open>kaleido-state/src/command_outbox.rs\<close>): a command is
  recorded before it is admitted, claimed before it is handed to a runtime, and completed when its
  result is recorded. The lemmas show the at-most-once discipline over any sequence of operations
  and any number of restarts, and that reading the file back rebuilds the table.
\<close>

section \<open>Tickets and records\<close>

definition OUTBOX_FILE :: string where "OUTBOX_FILE = ''device-command-outbox.jsonl''"
definition OUTBOX_FORMAT_VERSION :: u32 where "OUTBOX_FORMAT_VERSION = 1"

record dispatch_ticket =
  tk_command_id :: command_id
  tk_token_digest :: string

record pending_dispatch =
  pd_ticket :: dispatch_ticket
  pd_envelope :: command_envelope

record admission_recovery =
  rec_ticket :: dispatch_ticket
  rec_envelope :: command_envelope
  rec_admission_ack :: command_ack
  rec_complete_after_recovery :: bool

datatype outbox_status = Outbox_Ready | Outbox_Claimed | Outbox_Completed

record outbox_record =
  ob_format_version :: u32
  ob_key_digest :: string
  ob_request_digest :: string
  ob_envelope :: command_envelope
  ob_admission_ack :: command_ack
  ob_status :: outbox_status

type_synonym outbox = "(string, outbox_record) btree_map"
type_synonym 'l outbox_codec = "(outbox_record, 'l) codec"

definition extend_field :: "string \<Rightarrow> string \<Rightarrow> string" where
  "extend_field target bytes = target @ to_be_bytes (length bytes) @ bytes"

definition device_command_key_digest :: "digests \<Rightarrow> device_id \<Rightarrow> string \<Rightarrow> string" where
  "device_command_key_digest dg device_id idempotency_key =
     dg_hex_digest dg (extend_field (extend_field (extend_field [] ''human'') device_id) idempotency_key)"

definition device_request_digest :: "digests \<Rightarrow> device_command_request \<Rightarrow> string" where
  "device_request_digest dg request =
     dg_hex_digest dg (extend_field (extend_field [] ''device-request-v1'')
       (dg_request_json dg (dc_ttl_ms request, dc_body request)))"

definition ticket_for :: "digests \<Rightarrow> string \<Rightarrow> string \<Rightarrow> command_id \<Rightarrow> dispatch_ticket" where
  "ticket_for dg key_digest request_digest cid =
     \<lparr>tk_command_id = cid, tk_token_digest =
        dg_hex_digest dg (extend_field (extend_field (extend_field [] key_digest) request_digest) cid)\<rparr>"

definition record_ticket :: "digests \<Rightarrow> outbox_record \<Rightarrow> dispatch_ticket" where
  "record_ticket dg r = ticket_for dg (ob_key_digest r) (ob_request_digest r) (ce_command_id (ob_envelope r))"

section \<open>Operations\<close>

definition existing :: "outbox \<Rightarrow> string \<Rightarrow> (string \<times> command_ack) option" where
  "existing box key_digest = map_option (\<lambda>r. (ob_request_digest r, ob_admission_ack r)) (bt_get box key_digest)"

definition append_outbox ::
  "(string \<Rightarrow> bool) \<Rightarrow> 'l outbox_codec \<Rightarrow> outbox_record \<Rightarrow> 'l disk \<Rightarrow> 'l disk state_result" where
  "append_outbox refuses c r d = append_record refuses c OUTBOX_FILE r d"

definition insert_initial ::
  "(string \<Rightarrow> bool) \<Rightarrow> 'l outbox_codec \<Rightarrow> outbox_record \<Rightarrow> outbox \<Rightarrow> 'l disk \<Rightarrow> (outbox \<times> 'l disk) state_result" where
  "insert_initial refuses c r box d =
     (if bt_contains box (ob_key_digest r)
         \<or> list_ex (\<lambda>x. ce_command_id (ob_envelope x) = ce_command_id (ob_envelope r)) (bt_values box)
      then Inl CommandOutboxDiverged
      else and_then (append_outbox refuses c r d) (\<lambda>d'. Inr (bt_insert (ob_key_digest r) r box, d')))"

definition new_record ::
  "string \<Rightarrow> string \<Rightarrow> command_envelope \<Rightarrow> command_ack \<Rightarrow> outbox_status \<Rightarrow> outbox_record" where
  "new_record key_digest request_digest envelope ack status =
     \<lparr>ob_format_version = OUTBOX_FORMAT_VERSION, ob_key_digest = key_digest, ob_request_digest = request_digest,
      ob_envelope = envelope, ob_admission_ack = ack, ob_status = status\<rparr>"

definition insert_ready ::
  "(string \<Rightarrow> bool) \<Rightarrow> digests \<Rightarrow> 'l outbox_codec \<Rightarrow> string \<Rightarrow> string \<Rightarrow> command_envelope \<Rightarrow> command_ack
     \<Rightarrow> outbox \<Rightarrow> 'l disk \<Rightarrow> (dispatch_ticket \<times> outbox \<times> 'l disk) state_result" where
  "insert_ready refuses dg c key_digest request_digest envelope ack box d =
     (let ticket = ticket_for dg key_digest request_digest (ce_command_id envelope)
      in and_then (insert_initial refuses c (new_record key_digest request_digest envelope ack Outbox_Ready) box d)
           (\<lambda>(box', d'). Inr (ticket, box', d')))"

definition insert_claimed ::
  "(string \<Rightarrow> bool) \<Rightarrow> digests \<Rightarrow> 'l outbox_codec \<Rightarrow> string \<Rightarrow> string \<Rightarrow> command_envelope \<Rightarrow> command_ack
     \<Rightarrow> outbox \<Rightarrow> 'l disk \<Rightarrow> (dispatch_ticket \<times> outbox \<times> 'l disk) state_result" where
  "insert_claimed refuses dg c key_digest request_digest envelope ack box d =
     (let ticket = ticket_for dg key_digest request_digest (ce_command_id envelope)
      in and_then (insert_initial refuses c (new_record key_digest request_digest envelope ack Outbox_Claimed) box d)
           (\<lambda>(box', d'). Inr (ticket, box', d')))"

definition find_ticket :: "digests \<Rightarrow> dispatch_ticket \<Rightarrow> outbox \<Rightarrow> (string \<times> outbox_record) option" where
  "find_ticket dg ticket box = find (\<lambda>(_, r). ce_command_id (ob_envelope r) = tk_command_id ticket
     \<and> record_ticket dg r = ticket) box"

definition advance_status ::
  "(string \<Rightarrow> bool) \<Rightarrow> digests \<Rightarrow> 'l outbox_codec \<Rightarrow> outbox_status \<Rightarrow> outbox_status \<Rightarrow> dispatch_ticket
     \<Rightarrow> outbox \<Rightarrow> 'l disk \<Rightarrow> (outbox_record \<times> outbox \<times> 'l disk) state_result" where
  "advance_status refuses dg c from to ticket box d =
     and_then (ok_or (find_ticket dg ticket box) (DispatchNotAvailable (tk_command_id ticket))) (\<lambda>(key, r).
     if ob_status r \<noteq> from then Inl (DispatchNotAvailable (tk_command_id ticket))
     else let r' = r\<lparr>ob_status := to\<rparr>
          in and_then (append_outbox refuses c r' d) (\<lambda>d'. Inr (r', bt_insert key r' box, d')))"

definition claim ::
  "(string \<Rightarrow> bool) \<Rightarrow> digests \<Rightarrow> 'l outbox_codec \<Rightarrow> dispatch_ticket \<Rightarrow> outbox \<Rightarrow> 'l disk
     \<Rightarrow> (command_envelope \<times> outbox \<times> 'l disk) state_result" where
  "claim refuses dg c ticket box d =
     and_then (advance_status refuses dg c Outbox_Ready Outbox_Claimed ticket box d)
       (\<lambda>(r, box', d'). Inr (ob_envelope r, box', d'))"

definition complete ::
  "(string \<Rightarrow> bool) \<Rightarrow> digests \<Rightarrow> 'l outbox_codec \<Rightarrow> dispatch_ticket \<Rightarrow> outbox \<Rightarrow> 'l disk
     \<Rightarrow> (outbox \<times> 'l disk) state_result" where
  "complete refuses dg c ticket box d =
     and_then (advance_status refuses dg c Outbox_Claimed Outbox_Completed ticket box d)
       (\<lambda>(_, box', d'). Inr (box', d'))"

definition ensure_claimed :: "digests \<Rightarrow> dispatch_ticket \<Rightarrow> outbox \<Rightarrow> command_envelope state_result" where
  "ensure_claimed dg ticket box =
     ok_or (map_option ob_envelope (find (\<lambda>r. ob_status r = Outbox_Claimed
         \<and> ce_command_id (ob_envelope r) = tk_command_id ticket \<and> record_ticket dg r = ticket) (bt_values box)))
       (DispatchNotAvailable (tk_command_id ticket))"

definition pending :: "digests \<Rightarrow> outbox \<Rightarrow> pending_dispatch list" where
  "pending dg box = map (\<lambda>r. \<lparr>pd_ticket = record_ticket dg r, pd_envelope = ob_envelope r\<rparr>)
     (filter (\<lambda>r. ob_status r = Outbox_Ready) (bt_values box))"

definition uncertain :: "outbox \<Rightarrow> command_id list" where
  "uncertain box = map (\<lambda>r. ce_command_id (ob_envelope r))
     (filter (\<lambda>r. ob_status r = Outbox_Claimed \<and> is_accepted_locally (ack_outcome (ob_admission_ack r))) (bt_values box))"

definition has_unfinished_attention :: "attention_id \<Rightarrow> outbox \<Rightarrow> bool" where
  "has_unfinished_attention aid box = list_ex (\<lambda>r. ob_status r \<noteq> Outbox_Completed
     \<and> (case ce_body (ob_envelope r) of RespondAttention response \<Rightarrow> re_attention_id response = aid | _ \<Rightarrow> False))
     (bt_values box)"

fun command_content_ids :: "command \<Rightarrow> content_id list" where
  "command_content_ids (SubmitPrompt _ body) = [cr_content_id body]"
| "command_content_ids (EnqueueInput _ body _) = [cr_content_id body]"
| "command_content_ids (EditQueueEntry _ body) = [cr_content_id body]"
| "command_content_ids (RespondAttention response) = map cr_content_id (opt_list (re_free_form_ref response))"
| "command_content_ids (ReworkStep _ reason_ref) = map cr_content_id (opt_list reason_ref)"
| "command_content_ids (SkipStep _ reason_ref) = map cr_content_id (opt_list reason_ref)"
| "command_content_ids _ = []"

text \<open>A \<open>BTreeSet\<close> is an ordered map to the unit value.\<close>

definition referenced_content_ids :: "outbox \<Rightarrow> (content_id, unit) btree_map" where
  "referenced_content_ids box = fold (\<lambda>i. bt_insert i ())
     (concat (map (\<lambda>r. command_content_ids (ce_body (ob_envelope r)))
       (filter (\<lambda>r. ob_status r \<noteq> Outbox_Completed) (bt_values box)))) []"

definition admission_recoveries :: "digests \<Rightarrow> outbox \<Rightarrow> admission_recovery list" where
  "admission_recoveries dg box =
     map (\<lambda>r. \<lparr>rec_ticket = record_ticket dg r, rec_envelope = ob_envelope r, rec_admission_ack = ob_admission_ack r,
         rec_complete_after_recovery = (\<not> is_accepted_locally (ack_outcome (ob_admission_ack r)))\<rparr>)
       (filter (\<lambda>r. ob_status r \<noteq> Outbox_Completed) (bt_values box))"

section \<open>Reading the file\<close>

definition valid_record :: "outbox_record \<Rightarrow> bool" where
  "valid_record r \<longleftrightarrow> ob_format_version r = OUTBOX_FORMAT_VERSION \<and> is_lower_hex64 (ob_key_digest r)
     \<and> is_lower_hex64 (ob_request_digest r)"

definition valid_transition :: "outbox_status \<Rightarrow> outbox_status \<Rightarrow> bool" where
  "valid_transition previous nxt \<longleftrightarrow> (previous, nxt) \<in>
     {(Outbox_Ready, Outbox_Claimed), (Outbox_Claimed, Outbox_Completed)}"

definition request_from_envelope :: "command_envelope \<Rightarrow> device_command_request option" where
  "request_from_envelope e =
     (case ce_expires_at_ms e of
        None \<Rightarrow> Some \<lparr>dc_idempotency_key = ce_idempotency_key e, dc_ttl_ms = None, dc_body = ce_body e\<rparr>
      | Some expires_at_ms \<Rightarrow>
          Option.bind (i64_checked_sub expires_at_ms (ce_issued_at_ms e)) (\<lambda>relative.
            if relative < 0 then None
            else Some \<lparr>dc_idempotency_key = ce_idempotency_key e, dc_ttl_ms = Some (word_of_int relative),
              dc_body = ce_body e\<rparr>))"

definition digests_match :: "digests \<Rightarrow> device_id \<Rightarrow> device_command_request \<Rightarrow> outbox_record \<Rightarrow> bool" where
  "digests_match dg device_id request r \<longleftrightarrow>
     device_command_key_digest dg device_id (dc_idempotency_key request) = ob_key_digest r
     \<and> device_request_digest dg request = ob_request_digest r"

definition record_check :: "digests \<Rightarrow> nat \<Rightarrow> outbox_record \<Rightarrow> state_error check" where
  "record_check dg n r =
     (let malformed = MalformedRecord OUTBOX_FILE n
      in run_checks
        [reject_if (\<not> valid_record r) malformed,
         map_err State_Contract (envelope_validate (ob_envelope r)),
         map_err State_Contract (command_ack_validate (ob_admission_ack r)),
         (case request_from_envelope (ob_envelope r) of
            None \<Rightarrow> Inl malformed
          | Some request \<Rightarrow>
              (case ce_actor (ob_envelope r) of
                 Human device_id \<Rightarrow> reject_if
                   (ack_command_id (ob_admission_ack r) \<noteq> ce_command_id (ob_envelope r)
                     \<or> ack_acked_at_ms (ob_admission_ack r) \<noteq> ce_issued_at_ms (ob_envelope r)
                     \<or> device_command_validate request \<noteq> ok
                     \<or> \<not> digests_match dg device_id request r) malformed
               | _ \<Rightarrow> Inl malformed))])"

definition record_step_check ::
  "nat \<Rightarrow> outbox_record \<Rightarrow> outbox \<Rightarrow> command_id list \<Rightarrow> (state_error, command_id list) result" where
  "record_step_check n r box command_ids =
     (case bt_get box (ob_key_digest r) of
        None \<Rightarrow>
          (if ce_command_id (ob_envelope r) \<in> set command_ids then Inl (MalformedRecord OUTBOX_FILE n)
           else Inr (ce_command_id (ob_envelope r) # command_ids))
      | Some previous \<Rightarrow>
          (if ob_request_digest previous \<noteq> ob_request_digest r \<or> ob_envelope previous \<noteq> ob_envelope r
               \<or> ob_admission_ack previous \<noteq> ob_admission_ack r
               \<or> \<not> valid_transition (ob_status previous) (ob_status r)
           then Inl (MalformedRecord OUTBOX_FILE n)
           else Inr command_ids))"

definition outbox_step ::
  "digests \<Rightarrow> nat \<Rightarrow> outbox_record \<Rightarrow> outbox \<times> command_id list \<Rightarrow> (outbox \<times> command_id list) state_result" where
  "outbox_step dg n r = (\<lambda>(box, command_ids).
     and_then (record_check dg n r) (\<lambda>_.
     and_then (record_step_check n r box command_ids) (\<lambda>command_ids'.
       Inr (bt_insert (ob_key_digest r) r box, command_ids'))))"

definition read_records :: "digests \<Rightarrow> 'l outbox_codec \<Rightarrow> 'l disk \<Rightarrow> outbox state_result" where
  "read_records dg c d = and_then (for_lines c OUTBOX_FILE (outbox_step dg) 1 (file_lines d OUTBOX_FILE) ([], []))
     (\<lambda>(box, _). Inr box)"

definition open_outbox :: "digests \<Rightarrow> 'l outbox_codec \<Rightarrow> 'l disk \<Rightarrow> outbox state_result" where
  "open_outbox dg c d = read_records dg c d"

section \<open>The table\<close>

definition command_of :: "outbox_record \<Rightarrow> command_id" where
  "command_of r = ce_command_id (ob_envelope r)"

definition outbox_ok :: "outbox \<Rightarrow> bool" where
  "outbox_ok box \<longleftrightarrow> keyed ob_key_digest box
     \<and> (\<forall>k l r s. bt_get box k = Some r \<and> bt_get box l = Some s \<and> command_of r = command_of s \<longrightarrow> k = l)"

definition outbox_commands :: "outbox \<Rightarrow> command_id set" where
  "outbox_commands box = {command_of r | k r. bt_get box k = Some r}"

fun status_rank :: "outbox_status \<Rightarrow> nat" where
  "status_rank Outbox_Ready = 0"
| "status_rank Outbox_Claimed = 1"
| "status_rank Outbox_Completed = 2"

text \<open>A record never disappears, never changes its command, and its status only moves forward.\<close>

definition outbox_extends :: "outbox \<Rightarrow> outbox \<Rightarrow> bool" where
  "outbox_extends box box' \<longleftrightarrow> (\<forall>k r. bt_get box k = Some r \<longrightarrow>
     (\<exists>st. bt_get box' k = Some (r\<lparr>ob_status := st\<rparr>) \<and> status_rank (ob_status r) \<le> status_rank st))"

lemma outbox_extends_refl: "outbox_extends box box"
  unfolding outbox_extends_def by (metis (no_types) order_refl outbox_record.surjective outbox_record.update_convs(6))

lemma outbox_extends_trans:
  assumes "outbox_extends a b" "outbox_extends b c"
  shows "outbox_extends a c"
  unfolding outbox_extends_def
proof (intro allI impI)
  fix k r assume "bt_get a k = Some r"
  then obtain st where st: "bt_get b k = Some (r\<lparr>ob_status := st\<rparr>)" "status_rank (ob_status r) \<le> status_rank st"
    using assms(1) unfolding outbox_extends_def by blast
  then obtain su where "bt_get c k = Some (r\<lparr>ob_status := st\<rparr>\<lparr>ob_status := su\<rparr>)" "status_rank st \<le> status_rank su"
    using assms(2) unfolding outbox_extends_def by fastforce
  with st show "\<exists>st. bt_get c k = Some (r\<lparr>ob_status := st\<rparr>) \<and> status_rank (ob_status r) \<le> status_rank st"
    by (intro exI [of _ su]) simp
qed

lemma outbox_commands_iff: "cid \<in> outbox_commands box \<longleftrightarrow> (\<exists>k r. bt_get box k = Some r \<and> command_of r = cid)"
  unfolding outbox_commands_def by blast

lemma values_commands:
  assumes "keyed ob_key_digest box"
  shows "list_ex (\<lambda>x. command_of x = cid) (bt_values box) \<longleftrightarrow> cid \<in> outbox_commands box"
  unfolding list_ex_iff Bex_def bt_values_iff [OF keyed_wf [OF assms]] outbox_commands_iff by blast

lemma outbox_insert_new:
  assumes "outbox_ok box" "bt_get box (ob_key_digest r) = None" "command_of r \<notin> outbox_commands box"
  shows "outbox_ok (bt_insert (ob_key_digest r) r box)"
    and "outbox_commands (bt_insert (ob_key_digest r) r box) = insert (command_of r) (outbox_commands box)"
    and "outbox_extends box (bt_insert (ob_key_digest r) r box)"
proof -
  have no: "bt_get box k = Some x \<Longrightarrow> command_of x \<noteq> command_of r" for k x
    using assms(3) by (auto simp: outbox_commands_def)
  show "outbox_ok (bt_insert (ob_key_digest r) r box)"
    using assms(1) no by (auto simp: outbox_ok_def split: if_splits) metis+
  show "outbox_commands (bt_insert (ob_key_digest r) r box) = insert (command_of r) (outbox_commands box)"
  proof (rule set_eqI)
    fix cid
    have "(\<exists>k x. bt_get (bt_insert (ob_key_digest r) r box) k = Some x \<and> command_of x = cid) \<longleftrightarrow>
        cid = command_of r \<or> (\<exists>k x. bt_get box k = Some x \<and> command_of x = cid)"
      using assms(2) by (simp, metis option.distinct(1))
    then show "cid \<in> outbox_commands (bt_insert (ob_key_digest r) r box) \<longleftrightarrow> cid \<in> insert (command_of r) (outbox_commands box)"
      by (simp add: outbox_commands_iff)
  qed
  have "k \<noteq> ob_key_digest r" if "bt_get box k = Some x" for k x
    using that assms(2) by auto
  then show "outbox_extends box (bt_insert (ob_key_digest r) r box)"
    using outbox_extends_refl [of box] unfolding outbox_extends_def by (metis bt_get_insert)
qed

lemma outbox_insert_status:
  assumes "outbox_ok box" "bt_get box k = Some r" "status_rank (ob_status r) \<le> status_rank st"
  shows "outbox_ok (bt_insert k (r\<lparr>ob_status := st\<rparr>) box)"
    and "outbox_commands (bt_insert k (r\<lparr>ob_status := st\<rparr>) box) = outbox_commands box"
    and "outbox_extends box (bt_insert k (r\<lparr>ob_status := st\<rparr>) box)"
proof -
  let ?r = "r\<lparr>ob_status := st\<rparr>"
  have key: "k = ob_key_digest ?r"
    using assms(1,2) by (auto simp: outbox_ok_def dest: keyed_get)
  have cmd: "command_of ?r = command_of r"
    by (simp add: command_of_def)
  have "keyed ob_key_digest (bt_insert k ?r box)"
    using assms(1) key by (auto simp: outbox_ok_def intro: keyed_insert_key)
  then show "outbox_ok (bt_insert k ?r box)"
    using assms(1,2) cmd unfolding outbox_ok_def by (auto split: if_splits)
  show "outbox_commands (bt_insert k ?r box) = outbox_commands box"
  proof (rule set_eqI)
    fix cid
    show "cid \<in> outbox_commands (bt_insert k ?r box) \<longleftrightarrow> cid \<in> outbox_commands box"
      unfolding outbox_commands_iff using assms(2) cmd by (simp, metis option.inject)
  qed
  show "outbox_extends box (bt_insert k ?r box)"
    unfolding outbox_extends_def
  proof (intro allI impI)
    fix k' x assume x: "bt_get box k' = Some x"
    show "\<exists>su. bt_get (bt_insert k ?r box) k' = Some (x\<lparr>ob_status := su\<rparr>) \<and> status_rank (ob_status x) \<le> status_rank su"
    proof (cases "k' = k")
      case True
      with x assms(2,3) show ?thesis by auto
    next
      case False
      with x outbox_extends_refl [of box] show ?thesis by (auto simp: outbox_extends_def)
    qed
  qed
qed

section \<open>Reading back\<close>

lemma record_check_line: "record_check dg n r = ok \<Longrightarrow> record_check dg m r = ok"
  by (auto simp: record_check_def Let_def check_simps split: option.splits actor.splits)

lemma outbox_step_ok:
  "outbox_step dg n r (box, ids) = Inr (box', ids') \<longleftrightarrow> record_check dg 0 r = ok
     \<and> box' = bt_insert (ob_key_digest r) r box
     \<and> (case bt_get box (ob_key_digest r) of
          None \<Rightarrow> command_of r \<notin> set ids \<and> ids' = command_of r # ids
        | Some p \<Rightarrow> ids' = ids \<and> r = p\<lparr>ob_status := ob_status r, ob_format_version := ob_format_version r, ob_key_digest := ob_key_digest r\<rparr>
            \<and> valid_transition (ob_status p) (ob_status r))"
proof -
  have eq: "r = p\<lparr>ob_status := ob_status r, ob_format_version := ob_format_version r, ob_key_digest := ob_key_digest r\<rparr> \<longleftrightarrow>
      ob_request_digest p = ob_request_digest r \<and> ob_envelope p = ob_envelope r \<and> ob_admission_ack p = ob_admission_ack r" for p
    by (cases p; cases r) auto
  have line: "record_check dg n r = ok \<longleftrightarrow> record_check dg 0 r = ok"
    using record_check_line by blast
  show ?thesis
    using line by (auto simp: outbox_step_def and_then_ok record_step_check_def eq command_of_def split: option.splits)
qed

interpretation outbox_lines: line_reader "outbox_step dg" for dg
proof unfold_locales
  fix n m r and s s' :: "outbox \<times> command_id list"
  assume "outbox_step dg n r s = Inr s'"
  then show "outbox_step dg m r s = Inr s'"
    by (cases s; cases s') (simp add: outbox_step_ok)
qed

definition outbox_inv :: "digests \<Rightarrow> outbox \<Rightarrow> bool" where
  "outbox_inv dg box \<longleftrightarrow> outbox_ok box \<and> (\<forall>k r. bt_get box k = Some r \<longrightarrow> record_check dg 0 r = ok)"

lemma record_check_version: "record_check dg n r = ok \<Longrightarrow> ob_format_version r = OUTBOX_FORMAT_VERSION"
  by (simp add: record_check_def Let_def valid_record_def)

lemma record_check_status: "record_check dg n (r\<lparr>ob_status := st\<rparr>) = record_check dg n r"
  by (simp add: record_check_def Let_def valid_record_def digests_match_def cong: option.case_cong actor.case_cong)

lemma outbox_inv_insert_new:
  assumes "outbox_inv dg box" "bt_get box (ob_key_digest r) = None" "command_of r \<notin> outbox_commands box"
    and "record_check dg 0 r = ok"
  shows "outbox_inv dg (bt_insert (ob_key_digest r) r box)"
  using assms outbox_insert_new(1) by (simp add: outbox_inv_def)

lemma outbox_inv_insert_status:
  assumes "outbox_inv dg box" "bt_get box k = Some r" "status_rank (ob_status r) \<le> status_rank st"
  shows "outbox_inv dg (bt_insert k (r\<lparr>ob_status := st\<rparr>) box)"
  using assms outbox_insert_status(1) by (simp add: outbox_inv_def record_check_status)

lemma outbox_step_inv:
  assumes "outbox_inv dg box" "set ids = outbox_commands box" "outbox_step dg n r (box, ids) = Inr (box', ids')"
  shows "outbox_inv dg box' \<and> set ids' = outbox_commands box' \<and> outbox_extends box box'"
proof -
  have r: "record_check dg 0 r = ok" "box' = bt_insert (ob_key_digest r) r box"
    using assms(3) by (simp_all add: outbox_step_ok)
  show ?thesis
  proof (cases "bt_get box (ob_key_digest r)")
    case None
    then have new: "command_of r \<notin> outbox_commands box" "ids' = command_of r # ids"
      using assms(2,3) by (simp_all add: outbox_step_ok)
    have ok: "outbox_ok box" using assms(1) by (simp add: outbox_inv_def)
    show ?thesis
      using outbox_inv_insert_new [OF assms(1) None new(1) r(1)] outbox_insert_new(2,3) [OF ok None new(1)] assms(2) new(2) r(2)
      by simp
  next
    case (Some p)
    then have p: "ids' = ids" "valid_transition (ob_status p) (ob_status r)"
      "r = p\<lparr>ob_status := ob_status r, ob_format_version := ob_format_version r, ob_key_digest := ob_key_digest r\<rparr>"
      using assms(3) by (simp_all add: outbox_step_ok)
    have "keyed ob_key_digest box" "record_check dg 0 p = ok"
      using Some assms(1) by (auto simp: outbox_inv_def outbox_ok_def)
    then have "ob_key_digest p = ob_key_digest r" "ob_format_version p = ob_format_version r"
      using Some r(1) record_check_version [of dg 0 p] record_check_version [of dg 0 r] by (auto dest: keyed_get)
    then have eq: "r = p\<lparr>ob_status := ob_status r\<rparr>"
      using p(3) by (metis outbox_record.surjective outbox_record.update_convs)
    have rank: "status_rank (ob_status p) \<le> status_rank (ob_status r)"
      using p(2) by (auto simp: valid_transition_def)
    have ok: "outbox_ok box" using assms(1) by (simp add: outbox_inv_def)
    show ?thesis
      using outbox_inv_insert_status [OF assms(1) Some rank] outbox_insert_status(2,3) [OF ok Some rank] assms(2) p(1) r(2)
      unfolding eq [symmetric] by simp
  qed
qed

lemma read_outbox_inv:
  assumes "for_lines c path (outbox_step dg) n ls (box, ids) = Inr (box', ids')"
    and "outbox_inv dg box" "set ids = outbox_commands box"
  shows "outbox_inv dg box' \<and> set ids' = outbox_commands box'"
  using assms
proof (induction ls arbitrary: n box ids)
  case (Cons l ls)
  show ?case
  proof (cases "cd_blank c l")
    case True
    with Cons show ?thesis by simp
  next
    case False
    with Cons.prems(1) obtain r b i where s: "outbox_step dg n r (box, ids) = Inr (b, i)"
      "for_lines c path (outbox_step dg) (Suc n) ls (b, i) = Inr (box', ids')"
      by (auto simp: and_then_ok split: option.splits)
    show ?thesis
      using Cons.IH [OF s(2)] outbox_step_inv [OF Cons.prems(2,3) s(1)] by blast
  qed
qed simp

definition reads :: "digests \<Rightarrow> 'l outbox_codec \<Rightarrow> 'l disk \<Rightarrow> outbox \<Rightarrow> bool" where
  "reads dg c d box \<longleftrightarrow> (\<exists>ids. for_lines c OUTBOX_FILE (outbox_step dg) 1 (file_lines d OUTBOX_FILE) ([], []) = Inr (box, ids)
     \<and> set ids = outbox_commands box)"

lemma outbox_inv_empty: "outbox_inv dg []" "outbox_commands [] = {}"
  by (simp_all add: outbox_inv_def outbox_ok_def outbox_commands_def)

lemma open_outbox_reads:
  assumes "open_outbox dg c d = Inr box"
  shows "outbox_inv dg box" "reads dg c d box"
proof -
  obtain ids where ids: "for_lines c OUTBOX_FILE (outbox_step dg) 1 (file_lines d OUTBOX_FILE) ([], []) = Inr (box, ids)"
    using assms by (auto simp: open_outbox_def read_records_def and_then_ok)
  from read_outbox_inv [OF this] show "outbox_inv dg box" "reads dg c d box"
    using ids by (simp_all add: outbox_inv_empty reads_def)
qed

lemma reads_open: "reads dg c d box \<Longrightarrow> open_outbox dg c d = Inr box"
  by (auto simp: reads_def open_outbox_def read_records_def)

lemma reads_append:
  assumes "codec_ok c" "reads dg c d box" "append_outbox refuses c r d = Inr d'"
    and "\<And>ids. set ids = outbox_commands box \<Longrightarrow> \<exists>ids'. outbox_step dg 0 r (box, ids) = Inr (box', ids') \<and> set ids' = outbox_commands box'"
  shows "reads dg c d' box'"
proof -
  obtain ids where ids: "for_lines c OUTBOX_FILE (outbox_step dg) 1 (file_lines d OUTBOX_FILE) ([], []) = Inr (box, ids)"
    "set ids = outbox_commands box"
    using assms(2) by (auto simp: reads_def)
  from assms(4) [OF ids(2)] obtain ids' where "outbox_step dg 0 r (box, ids) = Inr (box', ids')" "set ids' = outbox_commands box'"
    by blast
  then have "outbox_step dg n r (box, ids) = Inr (box', ids')" for n
    using outbox_lines.step_line by blast
  moreover have "file_lines d' OUTBOX_FILE = file_lines d OUTBOX_FILE @ [cd_encode c r]"
    using assms(3) by (auto simp: append_outbox_def append_record_ok)
  ultimately show ?thesis
    using ids(1) \<open>set ids' = _\<close> by (auto simp: reads_def for_lines_append codec_simps [OF assms(1)])
qed

section \<open>Operations keep the table and the file together\<close>

lemma insert_initial_keeps:
  assumes "codec_ok c" "outbox_inv dg box" "reads dg c d box" "record_check dg 0 r = ok"
    and "insert_initial refuses c r box d = Inr (box', d')"
  shows "outbox_inv dg box' \<and> reads dg c d' box' \<and> outbox_extends box box'"
proof -
  have ok: "outbox_ok box" "keyed ob_key_digest box" using assms(2) by (simp_all add: outbox_inv_def outbox_ok_def)
  have new: "bt_get box (ob_key_digest r) = None" "command_of r \<notin> outbox_commands box"
    and app: "append_outbox refuses c r d = Inr d'" and box': "box' = bt_insert (ob_key_digest r) r box"
    using assms(5) values_commands [OF ok(2), of "command_of r"]
    by (auto simp: insert_initial_def and_then_ok bt_contains_def command_of_def split: if_splits)
  have "reads dg c d' box'"
    using assms(1,3) app
  proof (rule reads_append)
    fix ids assume "set ids = outbox_commands box"
    then have "outbox_step dg 0 r (box, ids) = Inr (box', command_of r # ids)" "set (command_of r # ids) = outbox_commands box'"
      using new assms(4) outbox_insert_new(2) [OF ok(1) new] by (simp_all add: outbox_step_ok box')
    then show "\<exists>ids'. outbox_step dg 0 r (box, ids) = Inr (box', ids') \<and> set ids' = outbox_commands box'"
      by blast
  qed
  then show ?thesis
    using outbox_inv_insert_new [OF assms(2) new assms(4)] outbox_insert_new(3) [OF ok(1) new] box' by simp
qed

lemma find_ticket_get:
  assumes "outbox_ok box" "find_ticket dg ticket box = Some (k, r)"
  shows "bt_get box k = Some r \<and> k = ob_key_digest r \<and> command_of r = tk_command_id ticket \<and> record_ticket dg r = ticket"
proof -
  have "(k, r) \<in> set box" "command_of r = tk_command_id ticket" "record_ticket dg r = ticket"
    using assms(2) by (auto simp: find_ticket_def find_Some_iff command_of_def) (metis nth_mem)
  moreover have "bt_get box k = Some r"
    using assms(1) \<open>(k, r) \<in> set box\<close> by (auto simp: outbox_ok_def keyed_def bt_get_mem)
  ultimately show ?thesis
    using assms(1) by (auto simp: outbox_ok_def dest: keyed_get)
qed

lemma advance_status_keeps:
  assumes "codec_ok c" "outbox_inv dg box" "reads dg c d box" "valid_transition from to"
    and "advance_status refuses dg c from to ticket box d = Inr (r', box', d')"
  shows "outbox_inv dg box' \<and> reads dg c d' box' \<and> outbox_extends box box'
    \<and> (\<exists>k r. bt_get box k = Some r \<and> ob_status r = from \<and> r' = r\<lparr>ob_status := to\<rparr> \<and> bt_get box' k = Some r'
         \<and> command_of r = tk_command_id ticket \<and> record_ticket dg r = ticket)"
proof -
  have ok: "outbox_ok box" using assms(2) by (simp add: outbox_inv_def)
  obtain k r where find: "find_ticket dg ticket box = Some (k, r)" and st: "ob_status r = from"
    and r': "r' = r\<lparr>ob_status := to\<rparr>" and app: "append_outbox refuses c r' d = Inr d'" and box': "box' = bt_insert k r' box"
    using assms(5) by (auto simp: advance_status_def and_then_ok ok_or_ok Let_def split: if_splits)
  note k = find_ticket_get [OF ok find]
  have get: "bt_get box k = Some r" using k by (rule conjunct1)
  have rank: "status_rank (ob_status r) \<le> status_rank to"
    using assms(4) st by (auto simp: valid_transition_def)
  have key: "ob_key_digest r' = k" using k r' by simp
  have "reads dg c d' box'"
    using assms(1,3) app
  proof (rule reads_append)
    fix ids assume "set ids = outbox_commands box"
    moreover have "record_check dg 0 r' = ok"
      using k assms(2) unfolding r' record_check_status outbox_inv_def by blast
    moreover have "r' = r\<lparr>ob_status := ob_status r', ob_format_version := ob_format_version r', ob_key_digest := ob_key_digest r'\<rparr>"
      by (simp add: r')
    moreover have "valid_transition (ob_status r) (ob_status r')"
      using assms(4) by (simp add: r' st)
    ultimately have "outbox_step dg 0 r' (box, ids) = Inr (box', ids)" "set ids = outbox_commands box'"
      using outbox_insert_status(2) [OF ok get rank] box' r' unfolding outbox_step_ok key get option.case by blast+
    then show "\<exists>ids'. outbox_step dg 0 r' (box, ids) = Inr (box', ids') \<and> set ids' = outbox_commands box'"
      by blast
  qed
  then show ?thesis
    using outbox_inv_insert_status [OF assms(2) get rank] outbox_insert_status(3) [OF ok get rank] k st r' box'
    by auto
qed

section \<open>Runs with restarts\<close>

text \<open>
  Every change of the outbox, and a restart that forgets the table and reads the file. An operation
  that fails leaves everything as it was; each operation has its own set of refused writes.
\<close>

datatype outbox_op =
  Do_InsertReady string string command_envelope command_ack
| Do_InsertClaimed string string command_envelope command_ack
| Do_Claim dispatch_ticket
| Do_Complete dispatch_ticket
| Do_Restart

fun outbox_do ::
  "digests \<Rightarrow> 'l outbox_codec \<Rightarrow> (string \<Rightarrow> bool) \<Rightarrow> outbox_op \<Rightarrow> outbox \<times> 'l disk \<Rightarrow> (outbox \<times> 'l disk) state_result" where
  "outbox_do dg c refuses (Do_InsertReady kd rd env ack) (box, d) =
     and_then (insert_ready refuses dg c kd rd env ack box d) (\<lambda>(_, s). Inr s)"
| "outbox_do dg c refuses (Do_InsertClaimed kd rd env ack) (box, d) =
     and_then (insert_claimed refuses dg c kd rd env ack box d) (\<lambda>(_, s). Inr s)"
| "outbox_do dg c refuses (Do_Claim ticket) (box, d) = and_then (claim refuses dg c ticket box d) (\<lambda>(_, s). Inr s)"
| "outbox_do dg c refuses (Do_Complete ticket) (box, d) = complete refuses dg c ticket box d"
| "outbox_do dg c refuses Do_Restart (box, d) = and_then (open_outbox dg c d) (\<lambda>box'. Inr (box', d))"

definition outbox_run ::
  "digests \<Rightarrow> 'l outbox_codec \<Rightarrow> ((string \<Rightarrow> bool) \<times> outbox_op) list \<Rightarrow> outbox \<times> 'l disk \<Rightarrow> outbox \<times> 'l disk" where
  "outbox_run dg c ops s = fold (\<lambda>(refuses, op) s. case outbox_do dg c refuses op s of Inr s' \<Rightarrow> s' | Inl _ \<Rightarrow> s) ops s"

text \<open>What the admission path establishes before it records a command.\<close>

fun op_admissible :: "digests \<Rightarrow> outbox_op \<Rightarrow> bool" where
  "op_admissible dg (Do_InsertReady kd rd env ack) \<longleftrightarrow> record_check dg 0 (new_record kd rd env ack Outbox_Ready) = ok"
| "op_admissible dg (Do_InsertClaimed kd rd env ack) \<longleftrightarrow> record_check dg 0 (new_record kd rd env ack Outbox_Claimed) = ok"
| "op_admissible dg _ \<longleftrightarrow> True"

lemma transitions: "valid_transition Outbox_Ready Outbox_Claimed" "valid_transition Outbox_Claimed Outbox_Completed"
  by (simp_all add: valid_transition_def)

lemma outbox_do_keeps:
  assumes "codec_ok c" "outbox_inv dg box" "reads dg c d box" "op_admissible dg op"
    and "outbox_do dg c refuses op (box, d) = Inr (box', d')"
  shows "outbox_inv dg box' \<and> reads dg c d' box' \<and> outbox_extends box box'"
proof (cases op)
  case (Do_Claim ticket)
  then obtain r where "advance_status refuses dg c Outbox_Ready Outbox_Claimed ticket box d = Inr (r, box', d')"
    using assms(5) by (auto simp: claim_def and_then_ok)
  then show ?thesis
    using advance_status_keeps [OF assms(1-3) transitions(1)] by blast
next
  case (Do_Complete ticket)
  then obtain r where "advance_status refuses dg c Outbox_Claimed Outbox_Completed ticket box d = Inr (r, box', d')"
    using assms(5) by (auto simp: complete_def and_then_ok)
  then show ?thesis
    using advance_status_keeps [OF assms(1-3) transitions(2)] by blast
next
  case Do_Restart
  then have "box' = box" "d' = d"
    using assms(3,5) reads_open [OF assms(3)] by auto
  then show ?thesis
    using assms(2,3) outbox_extends_refl by simp
qed (use assms insert_initial_keeps [OF assms(1-3)] in
    \<open>auto simp: insert_ready_def insert_claimed_def Let_def and_then_ok\<close>)

lemma outbox_run_keeps:
  assumes "codec_ok c" "outbox_inv dg (fst s)" "reads dg c (snd s) (fst s)" "\<forall>(_, op) \<in> set ops. op_admissible dg op"
  shows "outbox_inv dg (fst (outbox_run dg c ops s)) \<and> reads dg c (snd (outbox_run dg c ops s)) (fst (outbox_run dg c ops s))
    \<and> outbox_extends (fst s) (fst (outbox_run dg c ops s))"
  using assms(2-4)
proof (induction ops arbitrary: s)
  case Nil
  then show ?case by (simp add: outbox_run_def outbox_extends_refl)
next
  case (Cons x ops)
  obtain refuses op box d where x: "x = (refuses, op)" and s: "s = (box, d)" by (cases x; cases s)
  define t where "t = (case outbox_do dg c refuses op s of Inr s' \<Rightarrow> s' | Inl _ \<Rightarrow> s)"
  have run: "outbox_run dg c (x # ops) s = outbox_run dg c ops t"
    by (simp add: outbox_run_def t_def x)
  have t: "outbox_inv dg (fst t)" "reads dg c (snd t) (fst t)" "outbox_extends (fst s) (fst t)"
    using Cons.prems outbox_do_keeps [OF assms(1), of dg box d op refuses] outbox_extends_refl
    by (auto simp: t_def s x split: sum.split)
  show ?case
    using Cons.IH [OF t(1,2)] Cons.prems(3) t(3) outbox_extends_trans unfolding run by auto
qed

lemma record_ticket_status [simp]: "record_ticket dg (r\<lparr>ob_status := st\<rparr>) = record_ticket dg r"
  by (simp add: record_ticket_def)

lemma claimed_not_available:
  assumes "outbox_ok box" "bt_get box k = Some r" "record_ticket dg r = ticket" "command_of r = tk_command_id ticket"
    and "ob_status r \<noteq> from"
  shows "advance_status refuses dg c from to ticket box d = Inl (DispatchNotAvailable (tk_command_id ticket))"
proof (cases "find_ticket dg ticket box")
  case None
  then show ?thesis by (simp add: advance_status_def)
next
  case (Some e)
  obtain k' r' where e: "e = (k', r')" by (cases e)
  have "bt_get box k' = Some r'" "command_of r' = tk_command_id ticket"
    using find_ticket_get [OF assms(1)] Some e by auto
  then have "r' = r"
    using assms(1,2,4) unfolding outbox_ok_def by (metis option.inject)
  with Some e assms(5) show ?thesis
    by (simp add: advance_status_def)
qed

end
