(* ===== verification/Outbox_Ledger.thy ===== *)
theory Outbox_Ledger
  imports Command_Outbox
begin

text \<open>
  What the command outbox promises: an abstract ledger of tickets and the proof that the table and its
  file implement it, at-most-once dispatch across restarts, and the injectivity of the byte framing
  under its digests.
\<close>

section \<open>The ledger of tickets\<close>

text \<open>
  What the outbox promises, without records, digests or files: a ticket is admitted once, claimed
  once and completed once. \<open>ledger\<close> reads this off the table.
\<close>

type_synonym ledger = "dispatch_ticket \<rightharpoonup> outbox_status"

inductive ledger_step :: "ledger \<Rightarrow> ledger \<Rightarrow> bool" where
  Admit: "L t = None \<Longrightarrow> st \<noteq> Outbox_Completed \<Longrightarrow> ledger_step L (L(t \<mapsto> st))"
| Claim: "L t = Some Outbox_Ready \<Longrightarrow> ledger_step L (L(t \<mapsto> Outbox_Claimed))"
| Complete: "L t = Some Outbox_Claimed \<Longrightarrow> ledger_step L (L(t \<mapsto> Outbox_Completed))"
| Stay: "ledger_step L L"

definition ledger :: "digests \<Rightarrow> outbox \<Rightarrow> ledger" where
  "ledger dg box = (\<lambda>t. map_option (\<lambda>(_, r). ob_status r) (find_ticket dg t box))"

lemma ledger_Some:
  assumes "outbox_ok box"
  shows "ledger dg box t = Some st \<longleftrightarrow> (\<exists>k r. bt_get box k = Some r \<and> record_ticket dg r = t \<and> ob_status r = st)"
proof
  assume "ledger dg box t = Some st"
  then obtain k r where "find_ticket dg t box = Some (k, r)" "ob_status r = st" by (auto simp: ledger_def)
  with find_ticket_get [OF assms this(1)] show "\<exists>k r. bt_get box k = Some r \<and> record_ticket dg r = t \<and> ob_status r = st"
    by blast
next
  assume "\<exists>k r. bt_get box k = Some r \<and> record_ticket dg r = t \<and> ob_status r = st"
  then obtain k r where r: "bt_get box k = Some r" "record_ticket dg r = t" "ob_status r = st" by blast
  have cmd: "command_of r = tk_command_id t"
    unfolding r(2) [symmetric] by (simp add: record_ticket_def ticket_for_def command_of_def)
  have "bt_wf box" using assms keyed_wf unfolding outbox_ok_def by blast
  then have "(k, r) \<in> set box" using r(1) by (simp only: bt_get_mem)
  moreover have "(\<lambda>(_, r). ce_command_id (ob_envelope r) = tk_command_id t \<and> record_ticket dg r = t) (k, r)"
    using r(2) cmd by (simp add: command_of_def)
  ultimately have "find_ticket dg t box \<noteq> None"
    unfolding find_ticket_def find_None_iff by blast
  then obtain k' r' where f: "find_ticket dg t box = Some (k', r')" by (cases "find_ticket dg t box") auto
  have "bt_get box k' = Some r'" "command_of r' = tk_command_id t"
    using find_ticket_get [OF assms f] by blast+
  then have "k' = k"
    using assms r(1) cmd unfolding outbox_ok_def by metis
  with \<open>bt_get box k' = Some r'\<close> r(1) have "r' = r" by simp
  with f r(3) show "ledger dg box t = Some st" by (simp add: ledger_def)
qed

lemma ledger_at:
  assumes "outbox_ok box" "outbox_ok (bt_insert k r box)" "\<And>x. bt_get box k = Some x \<Longrightarrow> record_ticket dg x = record_ticket dg r"
  shows "ledger dg (bt_insert k r box) = (ledger dg box)(record_ticket dg r \<mapsto> ob_status r)"
proof
  fix t
  show "ledger dg (bt_insert k r box) t = ((ledger dg box)(record_ticket dg r \<mapsto> ob_status r)) t"
  proof (cases "t = record_ticket dg r")
    case True
    have "ledger dg (bt_insert k r box) t = Some (ob_status r)"
      unfolding ledger_Some [OF assms(2)] using True by (intro exI [of _ k] exI [of _ r]) simp
    with True show ?thesis by simp
  next
    case False
    have "ledger dg (bt_insert k r box) t = Some st \<longleftrightarrow> ledger dg box t = Some st" for st
      unfolding ledger_Some [OF assms(1)] ledger_Some [OF assms(2)] bt_get_insert
      using False assms(3) by (metis option.inject)
    with False show ?thesis by (metis fun_upd_other not_None_eq)
  qed
qed

lemma ledger_new:
  assumes "outbox_ok box" "bt_get box (ob_key_digest r) = None" "command_of r \<notin> outbox_commands box"
  shows "ledger dg box (record_ticket dg r) = None"
    and "ledger dg (bt_insert (ob_key_digest r) r box) = (ledger dg box)(record_ticket dg r \<mapsto> ob_status r)"
proof -
  have fresh: "record_ticket dg x \<noteq> record_ticket dg r" if "bt_get box k = Some x" for k x
    using that assms(3) by (auto simp: record_ticket_def ticket_for_def outbox_commands_iff command_of_def)
  show "ledger dg box (record_ticket dg r) = None"
    using fresh ledger_Some [OF assms(1), of dg "record_ticket dg r"] by (metis not_None_eq)
  show "ledger dg (bt_insert (ob_key_digest r) r box) = (ledger dg box)(record_ticket dg r \<mapsto> ob_status r)"
    using ledger_at [OF assms(1) outbox_insert_new(1) [OF assms]] assms(2) by simp
qed

lemma ledger_status:
  assumes "outbox_ok box" "bt_get box k = Some r" "status_rank (ob_status r) \<le> status_rank st"
  shows "ledger dg (bt_insert k (r\<lparr>ob_status := st\<rparr>) box) = (ledger dg box)(record_ticket dg r \<mapsto> st)"
  using ledger_at [OF assms(1) outbox_insert_status(1) [OF assms], of dg] assms(2) by simp

lemma ledger_advance:
  assumes "outbox_ok box" "status_rank from \<le> status_rank to"
    and "advance_status refuses dg c from to ticket box d = Inr (r', box', d')"
  shows "ledger dg box ticket = Some from \<and> ledger dg box' = (ledger dg box)(ticket \<mapsto> to)"
proof -
  obtain k r where find: "find_ticket dg ticket box = Some (k, r)" and st: "ob_status r = from"
    and box': "box' = bt_insert k (r\<lparr>ob_status := to\<rparr>) box"
    using assms(3) by (auto simp: advance_status_def and_then_ok ok_or_ok Let_def split: if_splits)
  have get: "bt_get box k = Some r" and tk: "record_ticket dg r = ticket"
    using find_ticket_get [OF assms(1) find] by blast+
  show ?thesis
    using ledger_status [OF assms(1) get, of to dg] assms(2) find st tk unfolding box' by (simp add: ledger_def)
qed

lemma ledger_insert:
  assumes "outbox_ok box" "insert_initial refuses c r box d = Inr (box', d')"
  shows "ledger dg box (record_ticket dg r) = None \<and> ledger dg box' = (ledger dg box)(record_ticket dg r \<mapsto> ob_status r)"
proof -
  have "keyed ob_key_digest box" using assms(1) by (simp add: outbox_ok_def)
  then have new: "bt_get box (ob_key_digest r) = None" "command_of r \<notin> outbox_commands box"
    and "box' = bt_insert (ob_key_digest r) r box"
    using assms(2) values_commands [of box "command_of r"]
    by (auto simp: insert_initial_def and_then_ok bt_contains_def command_of_def split: if_splits)
  with ledger_new [OF assms(1) new] show ?thesis by simp
qed

section \<open>Framing\<close>

fun from_be_bytes :: "nat \<Rightarrow> string \<Rightarrow> nat" where
  "from_be_bytes n [] = n"
| "from_be_bytes n (c # cs) = from_be_bytes (256 * n + byte_of c) cs"

lemma from_be_bytes_snoc: "from_be_bytes n (cs @ [c]) = 256 * from_be_bytes n cs + byte_of c"
  by (induction cs arbitrary: n) simp_all

lemma from_to_digits:
  "from_be_bytes 0 (map (\<lambda>i. char_of (n div 256 ^ (k - i) mod 256)) [0..<Suc k]) = n mod 256 ^ Suc k"
proof (induction k arbitrary: n)
  case (Suc k)
  have "map (\<lambda>i. char_of (n div 256 ^ (Suc k - i) mod 256)) [0..<Suc (Suc k)] =
      map (\<lambda>i. char_of (n div 256 div 256 ^ (k - i) mod 256)) [0..<Suc k] @ [char_of (n mod 256)]"
    by (simp add: Suc_diff_le div_mult2_eq)
  then have "from_be_bytes 0 (map (\<lambda>i. char_of (n div 256 ^ (Suc k - i) mod 256)) [0..<Suc (Suc k)])
      = 256 * (n div 256 mod 256 ^ Suc k) + n mod 256"
    by (simp only: from_be_bytes_snoc Suc.IH) (simp add: byte_of_def)
  also have "\<dots> = n mod 256 ^ Suc (Suc k)"
    by (simp only: mod_mult2_eq [of n 256 "256 ^ Suc k", symmetric] power_Suc [of 256 "Suc k"])
  finally show ?case .
qed (simp add: byte_of_def)

lemma to_be_bytes_inject:
  assumes "to_be_bytes m = to_be_bytes n" "m < 2 ^ 64" "n < 2 ^ 64"
  shows "m = n"
proof -
  have "from_be_bytes 0 (to_be_bytes k) = k mod 256 ^ 8" for k
    using from_to_digits [of k 7] by (simp add: to_be_bytes_def)
  then have "m mod 256 ^ 8 = n mod 256 ^ 8"
    using assms(1) by metis
  moreover have "(256 :: nat) ^ 8 = 2 ^ 64" by simp
  ultimately show ?thesis
    using assms(2,3) by simp
qed

lemma length_to_be_bytes [simp]: "length (to_be_bytes n) = 8"
  by (simp add: to_be_bytes_def)

lemma field_inject:
  assumes "to_be_bytes (length a) @ a @ s = to_be_bytes (length b) @ b @ t" "length a < 2 ^ 64" "length b < 2 ^ 64"
  shows "a = b \<and> s = t"
proof -
  have "to_be_bytes (length a) = to_be_bytes (length b)" "a @ s = b @ t"
    using assms(1) by simp_all
  then have "length a = length b"
    using to_be_bytes_inject assms(2,3) by blast
  with \<open>a @ s = b @ t\<close> show ?thesis by simp
qed

lemma fields_inject:
  assumes "extend_field (extend_field (extend_field [] a) b) c = extend_field (extend_field (extend_field [] a') b') c'"
    and "length a < 2 ^ 64" "length b < 2 ^ 64" "length c < 2 ^ 64" "length a' < 2 ^ 64" "length b' < 2 ^ 64" "length c' < 2 ^ 64"
  shows "a = a' \<and> b = b' \<and> c = c'"
proof -
  have "to_be_bytes (length a) @ a @ to_be_bytes (length b) @ b @ to_be_bytes (length c) @ c @ []
      = to_be_bytes (length a') @ a' @ to_be_bytes (length b') @ b' @ to_be_bytes (length c') @ c' @ []"
    using assms(1) by (simp add: extend_field_def)
  from field_inject [OF this assms(2,5)] have "a = a'"
    and "to_be_bytes (length b) @ b @ to_be_bytes (length c) @ c @ []
      = to_be_bytes (length b') @ b' @ to_be_bytes (length c') @ c' @ []" by auto
  with field_inject [OF this(2) assms(3,6)] field_inject [OF _ assms(4,7), of "[]" "[]"]
  show ?thesis by auto
qed

section \<open>Properties\<close>

definition sample_envelope :: command_envelope where
  "sample_envelope = \<lparr>ce_command_id = ''cmd_1'', ce_idempotency_key = ''k1'', ce_actor = Human ''dev_1'',
     ce_issued_at_ms = 10, ce_expires_at_ms = Some 20, ce_body = SubmitPrompt ''ses_1'' sample_ref\<rparr>"

definition sample_key_digest :: string where
  "sample_key_digest = device_command_key_digest sample_digests ''dev_1'' ''k1''"

definition sample_request_digest :: string where
  "sample_request_digest = device_request_digest sample_digests
     \<lparr>dc_idempotency_key = ''k1'', dc_ttl_ms = Some 10, dc_body = SubmitPrompt ''ses_1'' sample_ref\<rparr>"

definition sample_ticket :: dispatch_ticket where
  "sample_ticket = ticket_for sample_digests sample_key_digest sample_request_digest ''cmd_1''"

definition sample_admission :: outbox_op where
  "sample_admission = Do_InsertReady sample_key_digest sample_request_digest sample_envelope
     \<lparr>ack_command_id = ''cmd_1'', ack_outcome = AcceptedLocally None, ack_acked_at_ms = 10\<rparr>"

definition sample_outbox :: "outbox \<times> outbox_record option disk" where
  "sample_outbox = outbox_run sample_digests plain_codec [(\<lambda>_. False, sample_admission)] ([], [])"

definition sample_claimed :: "outbox \<times> outbox_record option disk" where
  "sample_claimed = (case claim (\<lambda>_. False) sample_digests plain_codec sample_ticket (fst sample_outbox) (snd sample_outbox) of
     Inr (_, s) \<Rightarrow> s | Inl _ \<Rightarrow> ([], []))"

text \<open>
  C17: A command is handed to a runtime at most once. Open the outbox on any file, run any operations
  the admission path allows, in any order and with any write failures, and claim a ticket. Whatever
  happens afterwards, restarts included, the same ticket can never be claimed again.
\<close>

theorem dispatch_at_most_once:
  assumes "codec_ok c" "open_outbox dg c d0 = Inr b0"
    and "\<forall>(_, op) \<in> set (before @ after). op_admissible dg op"
    and "outbox_run dg c before (b0, d0) = (b1, d1)"
    and "claim r1 dg c ticket b1 d1 = Inr (env, b2, d2)"
    and "outbox_run dg c after (b2, d2) = (b3, d3)"
  shows "claim r2 dg c ticket b3 d3 = Inl (DispatchNotAvailable (tk_command_id ticket))"
proof -
  have s1: "outbox_inv dg b1" "reads dg c d1 b1"
    using outbox_run_keeps [OF assms(1), of dg "(b0, d0)" before] open_outbox_reads [OF assms(2)] assms(3,4) by auto
  obtain r where "advance_status r1 dg c Outbox_Ready Outbox_Claimed ticket b1 d1 = Inr (r, b2, d2)"
    using assms(5) by (auto simp: claim_def and_then_ok)
  from advance_status_keeps [OF assms(1) s1 transitions(1) this]
  obtain k q where s2: "outbox_inv dg b2" "reads dg c d2 b2" and q: "bt_get b2 k = Some (q\<lparr>ob_status := Outbox_Claimed\<rparr>)"
    "command_of q = tk_command_id ticket" "record_ticket dg q = ticket"
    by auto
  have "outbox_inv dg b3" "outbox_extends b2 b3"
    using outbox_run_keeps [OF assms(1), of dg "(b2, d2)" after] s2 assms(3,6) by auto
  then obtain st where st: "bt_get b3 k = Some (q\<lparr>ob_status := st\<rparr>)" "status_rank Outbox_Claimed \<le> status_rank st"
    using q(1) unfolding outbox_extends_def by fastforce
  have "st \<noteq> Outbox_Ready" using st(2) by auto
  then show ?thesis
    using claimed_not_available [OF _ st(1), of dg ticket Outbox_Ready r2 c Outbox_Claimed d3] q(2,3) \<open>outbox_inv dg b3\<close>
    by (simp add: claim_def outbox_inv_def command_of_def)
qed

theorem dispatch_at_most_once_witness:
  "claim (\<lambda>_. False) sample_digests plain_codec sample_ticket
     (fst (outbox_run sample_digests plain_codec [(\<lambda>_. False, Do_Restart)] sample_claimed))
     (snd (outbox_run sample_digests plain_codec [(\<lambda>_. False, Do_Restart)] sample_claimed))
   = Inl (DispatchNotAvailable ''cmd_1'')"
proof -
  have "is_ok (claim (\<lambda>_. False) sample_digests plain_codec sample_ticket (fst sample_outbox) (snd sample_outbox))"
    unfolding is_ok_def by code_simp
  then obtain env where "claim (\<lambda>_. False) sample_digests plain_codec sample_ticket (fst sample_outbox) (snd sample_outbox)
      = Inr (env, fst sample_claimed, snd sample_claimed)"
    by (auto simp: sample_claimed_def)
  moreover have "open_outbox sample_digests plain_codec [] = Inr []"
    by (simp add: open_outbox_def read_records_def file_lines_def)
  moreover have "\<forall>(_, op) \<in> set ([(\<lambda>_. False, sample_admission)] @ [(\<lambda>_. False, Do_Restart)]). op_admissible sample_digests op"
    by code_simp
  moreover have "tk_command_id sample_ticket = ''cmd_1''"
    by (simp add: sample_ticket_def ticket_for_def)
  ultimately show ?thesis
    using dispatch_at_most_once [of plain_codec sample_digests "[]" "[]" "[(\<lambda>_. False, sample_admission)]" "[(\<lambda>_. False, Do_Restart)]"
        "fst sample_outbox" "snd sample_outbox" "\<lambda>_. False" sample_ticket env "fst sample_claimed" "snd sample_claimed"
        "fst (outbox_run sample_digests plain_codec [(\<lambda>_. False, Do_Restart)] sample_claimed)"
        "snd (outbox_run sample_digests plain_codec [(\<lambda>_. False, Do_Restart)] sample_claimed)" "\<lambda>_. False"]
    by (simp add: sample_outbox_def)
qed





text \<open>
  C32: The bytes a ticket or a key digest is taken of determine their three fields: no two different
  triples of fields shorter than two to the sixty-four bytes frame to the same bytes.
\<close>

theorem framing_injective:
  assumes "length a < 2 ^ 64" "length b < 2 ^ 64" "length c < 2 ^ 64" "length a' < 2 ^ 64" "length b' < 2 ^ 64" "length c' < 2 ^ 64"
  shows "extend_field (extend_field (extend_field [] a) b) c = extend_field (extend_field (extend_field [] a') b') c'
    \<longleftrightarrow> a = a' \<and> b = b' \<and> c = c'"
  using fields_inject [OF _ assms] by blast

theorem framing_injective_witness:
  "extend_field (extend_field (extend_field [] ''human'') ''dev_1'') ''k1''
    \<noteq> extend_field (extend_field (extend_field [] ''human'') ''dev_'') ''1k1''"
  using framing_injective [of "''human''" "''dev_1''" "''k1''" "''human''" "''dev_''" "''1k1''"] by simp

end
