(* ===== verification/Stream_Log.thy ===== *)
theory Stream_Log
  imports Durable State_Invariant "HOL-Library.Product_Lexorder" "HOL-Library.Multiset"
begin

text \<open>
  The append-only log of state transitions (\<open>kaleido-state/src/log.rs\<close>): one file per stream, one
  record per line. Reading verifies every file and merges them into one order by timestamp, file name
  and cursor. The main lemma says that this order is the order of the appends.
\<close>

section \<open>Operations\<close>

type_synonym 'l log_codec = "(log_record, 'l) codec"

text \<open>
  Every character outside \<open>[A-Za-z0-9._-]\<close> becomes an underscore. The identifier is a list of UTF-8
  bytes, so a character is one byte that is not a continuation byte.
\<close>

fun sanitised :: "string \<Rightarrow> string" where
  "sanitised [] = []"
| "sanitised (c # s) =
     (if is_continuation_byte c then sanitised s
      else (if is_ascii_alphanumeric c \<or> c \<in> {CHR ''.'', CHR ''_'', CHR ''-''} then c else CHR ''_'') # sanitised s)"

fun stream_file_name :: "stream_key \<Rightarrow> string" where
  "stream_file_name (Stream_Host i) = ''host-'' @ sanitised i @ ''.jsonl''"
| "stream_file_name (Stream_Project i) = ''project-'' @ sanitised i @ ''.jsonl''"
| "stream_file_name (Stream_Session i) = ''session-'' @ sanitised i @ ''.jsonl''"
| "stream_file_name (Stream_Workflow i) = ''workflow-'' @ sanitised i @ ''.jsonl''"

definition append_log :: "(string \<Rightarrow> bool) \<Rightarrow> 'l log_codec \<Rightarrow> log_record \<Rightarrow> 'l disk \<Rightarrow> 'l disk state_result" where
  "append_log refuses c r d = append_record refuses c (stream_file_name (lr_stream r)) r d"

definition log_step :: "nat \<Rightarrow> log_record \<Rightarrow> log_record list \<Rightarrow> log_record list state_result" where
  "log_step _ r rs = Inr (rs @ [r])"

definition read_stream_file :: "'l log_codec \<Rightarrow> string \<Rightarrow> 'l list \<Rightarrow> log_record list state_result" where
  "read_stream_file c path ls = for_lines c path log_step 1 ls []"

definition read_stream ::
  "'l log_codec \<Rightarrow> 'l disk \<Rightarrow> string \<Rightarrow> (string, log_record list) btree_map
     \<Rightarrow> (string, log_record list) btree_map state_result" where
  "read_stream c d path streams =
     and_then (read_stream_file c path (file_lines d path)) (\<lambda>records.
     and_then (map_err State_Contract (verify_contiguous records)) (\<lambda>_.
       Inr (bt_insert path records streams)))"

definition read_streams :: "'l log_codec \<Rightarrow> 'l disk \<Rightarrow> (string, log_record list) btree_map state_result" where
  "read_streams c d = try_fold (read_stream c d) (filter has_jsonl_extension (bt_keys d)) []"

definition record_order :: "log_record \<Rightarrow> i64 \<times> string \<times> cursor" where
  "record_order r = (lr_appended_at_ms r, stream_file_name (lr_stream r), lr_cursor r)"

definition read_log :: "'l log_codec \<Rightarrow> 'l disk \<Rightarrow> log_record list state_result" where
  "read_log c d = and_then (read_streams c d) (\<lambda>per_stream.
     Inr (sort_key record_order (concat (bt_values per_stream))))"

definition stream_heads :: "'l log_codec \<Rightarrow> 'l disk \<Rightarrow> (stream_key \<times> cursor) list state_result" where
  "stream_heads c d = and_then (read_streams c d) (\<lambda>per_stream.
     Inr (map (\<lambda>rs. (lr_stream (last rs), lr_cursor (last rs))) (filter (\<lambda>rs. rs \<noteq> []) (bt_values per_stream))))"

section \<open>Reading back\<close>

interpretation log_lines: line_reader log_step
  by unfold_locales (simp add: log_step_def)

lemma try_fold_log_step: "try_fold (log_step 0) rs acc = Inr (acc @ rs)"
  by (induction rs arbitrary: acc) (simp_all add: log_step_def)

lemma read_stream_file_encoded:
  assumes "codec_ok c"
  shows "read_stream_file c path (map (cd_encode c) rs) = Inr rs"
  unfolding read_stream_file_def log_lines.read_encoded [OF assms] try_fold_log_step by simp

lemma stream_file_jsonl: "has_jsonl_extension (stream_file_name k)"
  by (cases k) (simp_all add: has_jsonl_extension_def)

text \<open>The records a file holds, and the directory that holds a list of records.\<close>

definition records_in :: "string \<Rightarrow> log_record list \<Rightarrow> log_record list" where
  "records_in name rs = filter (\<lambda>r. stream_file_name (lr_stream r) = name) rs"

definition holds_log :: "'l log_codec \<Rightarrow> log_record list \<Rightarrow> 'l disk \<Rightarrow> bool" where
  "holds_log c rs d \<longleftrightarrow> bt_wf d \<and> set (bt_keys d) = (\<lambda>r. stream_file_name (lr_stream r)) ` set rs
     \<and> (\<forall>name. file_lines d name = map (cd_encode c) (records_in name rs))"

lemma holds_log_empty: "holds_log c [] []"
  by (simp add: holds_log_def records_in_def file_lines_def bt_keys_def)

lemma holds_log_append:
  assumes "holds_log c rs d" "append_log refuses c r d = Inr d'"
  shows "holds_log c (rs @ [r]) d'"
  using assms by (auto simp: holds_log_def append_log_def append_record_ok set_bt_keys_insert records_in_def)

text \<open>What a log must satisfy to be readable: every file is one contiguous run of one stream.\<close>

definition files_contiguous :: "log_record list \<Rightarrow> bool" where
  "files_contiguous rs \<longleftrightarrow> (\<forall>name. verify_contiguous (records_in name rs) = ok)"

lemma read_streams_fold:
  assumes "codec_ok c" "\<And>name. file_lines d name = map (cd_encode c) (records_in name rs)" "files_contiguous rs"
    and "sorted_wrt (<) (map fst acc @ names)"
  shows "try_fold (read_stream c d) names acc = Inr (acc @ map (\<lambda>n. (n, records_in n rs)) names)"
  using assms(4)
proof (induction names arbitrary: acc)
  case (Cons n names)
  have "bt_insert n v acc = acc @ [(n, v)]" for v
    using Cons.prems by (intro bt_insert_last) (simp add: sorted_wrt_append)
  then have step: "read_stream c d n acc = Inr (acc @ [(n, records_in n rs)])"
    using assms(3) by (simp add: read_stream_def assms(2) read_stream_file_encoded [OF assms(1)] files_contiguous_def)
  have "sorted_wrt (<) (map fst (acc @ [(n, records_in n rs)]) @ names)"
    using Cons.prems by simp
  from Cons.IH [OF this] show ?case by (simp add: step)
qed simp

lemma read_streams_holds:
  assumes "codec_ok c" "holds_log c rs d" "files_contiguous rs"
  shows "read_streams c d = Inr (map (\<lambda>n. (n, records_in n rs)) (bt_keys d))"
proof -
  have keys: "set (bt_keys d) = (\<lambda>r. stream_file_name (lr_stream r)) ` set rs" and "bt_wf d"
    using assms(2) by (auto simp: holds_log_def)
  have "filter has_jsonl_extension (bt_keys d) = bt_keys d"
    unfolding filter_id_conv keys using stream_file_jsonl by blast
  moreover have "sorted_wrt (<) (map fst [] @ bt_keys d)"
    using \<open>bt_wf d\<close> by (simp add: bt_wf_def bt_keys_def)
  ultimately show ?thesis
    using read_streams_fold [OF assms(1) _ assms(3), of d "[]" "bt_keys d"] assms(2)
    by (simp add: read_streams_def holds_log_def)
qed

lemma mset_records_in:
  assumes "distinct names" "(\<lambda>r. stream_file_name (lr_stream r)) ` set rs \<subseteq> set names"
  shows "mset (concat (map (\<lambda>n. records_in n rs) names)) = mset rs"
  using assms(2)
proof (induction rs)
  case Nil
  then show ?case by (induction names) (simp_all add: records_in_def)
next
  case (Cons r rs)
  let ?n = "stream_file_name (lr_stream r)"
  have "mset (concat (map (\<lambda>n. records_in n (r # rs)) ns)) =
      (if ?n \<in> set ns then {#r#} else {#}) + mset (concat (map (\<lambda>n. records_in n rs) ns))" if "distinct ns" for ns
    using that by (induction ns) (auto simp: records_in_def)
  with assms(1) Cons show ?case by simp
qed

text \<open>Appends of one store carry strictly increasing timestamps.\<close>

definition stamped :: "log_record list \<Rightarrow> bool" where
  "stamped rs \<longleftrightarrow> sorted_wrt (\<lambda>a b. lr_appended_at_ms a < lr_appended_at_ms b) rs"

lemma sort_stamped:
  assumes "mset xs = mset rs" "stamped rs"
  shows "sort_key record_order xs = rs"
proof (rule sort_key_inj_key_eq [OF assms(1)])
  have time: "sorted_wrt (<) (map lr_appended_at_ms rs)"
    using assms(2) by (simp add: stamped_def sorted_wrt_map)
  then have "inj_on lr_appended_at_ms (set rs)"
    by (simp add: strict_sorted_iff distinct_map)
  then show "inj_on record_order (set xs)"
    using mset_eq_setD [OF assms(1)] by (auto simp: inj_on_def record_order_def)
  have "sorted_wrt (\<lambda>a b. record_order a \<le> record_order b) rs"
    using assms(2) unfolding stamped_def
    by (rule sorted_wrt_mono_rel [rotated]) (simp add: record_order_def)
  then show "sorted (map record_order rs)"
    by (simp add: sorted_wrt_map)
qed

lemma read_log_holds:
  assumes "codec_ok c" "holds_log c rs d" "files_contiguous rs" "stamped rs"
  shows "read_log c d = Inr rs"
proof -
  have "mset (concat (map (\<lambda>n. records_in n rs) (bt_keys d))) = mset rs"
    using mset_records_in [of "bt_keys d" rs] bt_keys_distinct assms(2) by (auto simp: holds_log_def)
  then show ?thesis
    using sort_stamped [OF _ assms(4)]
    by (simp add: read_log_def read_streams_holds [OF assms(1-3)] bt_values_def comp_def)
qed

text \<open>
  Streams whose names do not collide: then a file is contiguous when its stream is, and cursors
  that continue their stream keep the log readable.
\<close>

definition names_apart :: "log_record list \<Rightarrow> bool" where
  "names_apart rs \<longleftrightarrow> inj_on stream_file_name (lr_stream ` set rs)"

definition of_stream :: "stream_key \<Rightarrow> log_record list \<Rightarrow> log_record list" where
  "of_stream k rs = filter (\<lambda>r. lr_stream r = k) rs"

lemma records_in_stream:
  assumes "names_apart rs" "r \<in> set rs"
  shows "records_in (stream_file_name (lr_stream r)) rs = of_stream (lr_stream r) rs"
  using assms by (auto simp: records_in_def of_stream_def names_apart_def inj_on_def intro!: filter_cong)

lemma files_contiguous_streams:
  assumes "names_apart rs" "\<And>k. verify_contiguous (of_stream k rs) = ok"
  shows "files_contiguous rs"
  unfolding files_contiguous_def
proof
  fix name
  show "verify_contiguous (records_in name rs) = ok"
  proof (cases "\<exists>r \<in> set rs. stream_file_name (lr_stream r) = name")
    case True
    then show ?thesis using records_in_stream [OF assms(1)] assms(2) by metis
  next
    case False
    then have "records_in name rs = []" by (auto simp: records_in_def filter_empty_conv)
    then show ?thesis by (simp add: verify_contiguous_def)
  qed
qed

section \<open>Properties\<close>

definition append_all :: "'l log_codec \<Rightarrow> log_record list \<Rightarrow> 'l disk \<Rightarrow> 'l disk state_result" where
  "append_all c rs d = try_fold (append_log (\<lambda>_. False) c) rs d"

lemma append_all_holds:
  assumes "append_all c rs d = Inr d'" "holds_log c qs d"
  shows "holds_log c (qs @ rs) d'"
  using assms
proof (induction rs arbitrary: d qs)
  case (Cons r rs)
  then obtain e where "append_log (\<lambda>_. False) c r d = Inr e" "append_all c rs e = Inr d'"
    by (auto simp: append_all_def and_then_ok)
  with Cons.IH [OF this(2) holds_log_append [OF Cons.prems(2) this(1)]] show ?case by simp
qed (simp add: append_all_def)

lemma append_all_ok: "\<exists>d'. append_all c rs d = Inr d'"
  by (induction rs arbitrary: d) (auto simp: append_all_def append_log_def append_record_def)

text \<open>
  C20: The log round trip. Append records of any number of streams, interleaved in any way, with
  strictly increasing timestamps, every stream contiguous, and no two streams sharing a file name.
  The appends succeed, and reading all files back returns exactly the appended records in the order
  they were appended.
\<close>

theorem log_reads_append_order:
  assumes "codec_ok c" "stamped rs" "\<And>k. verify_contiguous (of_stream k rs) = ok" "names_apart rs"
  shows "\<exists>d. append_all c rs [] = Inr d \<and> read_log c d = Inr rs"
proof -
  obtain d where d: "append_all c rs [] = Inr d" using append_all_ok by blast
  then have "holds_log c rs d"
    using append_all_holds [OF d holds_log_empty] by simp
  then show ?thesis
    using d read_log_holds [OF assms(1) _ files_contiguous_streams [OF assms(4,3)] assms(2)] by blast
qed

definition sample_log :: "log_record list" where
  "sample_log =
     [\<lparr>lr_cursor = Cursor 0, lr_stream = Stream_Session ''ses_2'', lr_appended_at_ms = 5, lr_effect = HostUpserted sample_host\<rparr>,
      \<lparr>lr_cursor = Cursor 0, lr_stream = Stream_Host ''hst_1'', lr_appended_at_ms = 6, lr_effect = HostUpserted sample_host\<rparr>,
      \<lparr>lr_cursor = Cursor 1, lr_stream = Stream_Session ''ses_2'', lr_appended_at_ms = 9, lr_effect = HostUpserted sample_host\<rparr>]"

theorem log_reads_append_order_witness:
  "\<exists>d. append_all plain_codec sample_log [] = Inr d \<and> read_log plain_codec d = Inr sample_log"
proof (rule log_reads_append_order)
  show "stamped sample_log"
    by (simp add: sample_log_def stamped_def)
  show "names_apart sample_log"
    by (auto simp: sample_log_def names_apart_def inj_on_def simp del: sanitised.simps)
  show "verify_contiguous (of_stream k sample_log) = ok" for k
  proof -
    have "verify_contiguous (of_stream (Stream_Session ''ses_2'') sample_log) = ok"
      "verify_contiguous (of_stream (Stream_Host ''hst_1'') sample_log) = ok"
      by code_simp+
    moreover have "of_stream k sample_log = []" if "k \<noteq> Stream_Session ''ses_2''" "k \<noteq> Stream_Host ''hst_1''"
      using that by (auto simp: of_stream_def sample_log_def)
    ultimately show ?thesis
      by (metis for_adjacent.simps(1) verify_contiguous_def)
  qed
qed simp

end
