(* ===== verification/Content_Store.thy ===== *)
theory Content_Store
  imports Durable "HOL-Library.Product_Lexorder"
begin

text \<open>
  Content-addressed bodies and the table of device uploads (\<open>kaleido-state/src/content.rs\<close>). The
  state is the ownership table in memory and the directory: bodies under their digests, the ownership
  file, and the temporary and ready files of its rewriting. An environment says which operations the
  operating system refuses, so an interrupted rewrite is one whose later operations are refused.

  The lemmas show that an interrupted rewrite leaves either the old or the new table to the next
  start, that a device's uploads stay within its quota, that an upload can be used and read back until
  it expires, and that reading chunk by chunk ends and returns the stored bytes.
\<close>

section \<open>State\<close>

definition OWNERSHIP_FILE :: string where "OWNERSHIP_FILE = ''device-ownership.jsonl''"
definition OWNERSHIP_FORMAT_VERSION :: u32 where "OWNERSHIP_FORMAT_VERSION = 1"
definition OWNERSHIP_REWRITE_PREFIX :: string where "OWNERSHIP_REWRITE_PREFIX = ''.device-ownership-rewrite-''"
definition DEVICE_CONTENT_TTL_MS :: i64 where "DEVICE_CONTENT_TTL_MS = 600000"
definition DEVICE_CONTENT_QUOTA_BYTES :: u64 where "DEVICE_CONTENT_QUOTA_BYTES = 8 * 1024 * 1024"

type_synonym bytes = "8 word list"

record ownership_record =
  ow_format_version :: u32
  ow_device_digest :: string
  ow_content_ref :: content_ref
  ow_created_at_ms :: i64
  ow_expires_at_ms :: i64

type_synonym ownership = "(string \<times> content_id, ownership_record) btree_map"

datatype 'l content_file = Body bytes | Lines "'l list"

type_synonym 'l content_dir = "(string, 'l content_file) btree_map"

record 'l content_store =
  ct_dir :: "'l content_dir"
  ct_ownership :: ownership

section \<open>The operating system\<close>

datatype 'l fs_op =
  Create_New string | Append_Line string 'l | Write_Body string bytes | Sync_File string | Hard_Link string string
| Rename_File string string | Remove_File string | Sync_Directory

text \<open>
  \<open>xe_refuses\<close>: which operations the system refuses in which directory. \<open>xe_replaces\<close>: whether a rename
  replaces an existing file. \<open>xe_suffix\<close>: the process and sequence number in the name of a temporary
  file; for a body it is the first number whose name is free.
\<close>

record 'l content_env =
  xe_refuses :: "'l content_dir \<Rightarrow> 'l fs_op \<Rightarrow> bool"
  xe_replaces :: bool
  xe_suffix :: string
  xe_codec :: "(ownership_record, 'l) codec"
  xe_digests :: digests

fun op_name :: "'l fs_op \<Rightarrow> string" where
  "op_name (Create_New n) = n"
| "op_name (Append_Line n _) = n"
| "op_name (Write_Body n _) = n"
| "op_name (Sync_File n) = n"
| "op_name (Hard_Link _ n) = n"
| "op_name (Rename_File n _) = n"
| "op_name (Remove_File n) = n"
| "op_name Sync_Directory = ''''"

definition lines_at :: "'l content_dir \<Rightarrow> string \<Rightarrow> 'l list" where
  "lines_at d n = (case bt_get d n of Some (Lines ls) \<Rightarrow> ls | _ \<Rightarrow> [])"

definition body_at :: "'l content_dir \<Rightarrow> string \<Rightarrow> bytes option" where
  "body_at d n = (case bt_get d n of Some (Body b) \<Rightarrow> Some b | _ \<Rightarrow> None)"

fun op_effect :: "bool \<Rightarrow> 'l fs_op \<Rightarrow> 'l content_dir \<Rightarrow> 'l content_dir option" where
  "op_effect replaces (Create_New n) d = (if bt_contains d n then None else Some (bt_insert n (Lines []) d))"
| "op_effect replaces (Append_Line n l) d = Some (bt_insert n (Lines (lines_at d n @ [l])) d)"
| "op_effect replaces (Write_Body n b) d = Some (bt_insert n (Body b) d)"
| "op_effect replaces (Sync_File n) d = Some d"
| "op_effect replaces (Hard_Link a b) d =
     (case bt_get d a of None \<Rightarrow> None | Some f \<Rightarrow> if bt_contains d b then None else Some (bt_insert b f d))"
| "op_effect replaces (Rename_File a b) d =
     (case bt_get d a of
        None \<Rightarrow> None
      | Some f \<Rightarrow> if bt_contains d b \<and> \<not> replaces then None else Some (bt_insert b f (bt_remove a d)))"
| "op_effect replaces (Remove_File n) d = (if bt_contains d n then Some (bt_remove n d) else None)"
| "op_effect replaces Sync_Directory d = Some d"

definition fs :: "'l content_env \<Rightarrow> 'l fs_op \<Rightarrow> ('l content_store, unit) io" where
  "fs env op w =
     (if xe_refuses env (ct_dir w) op then (Inl (State_Io (op_name op)), w)
      else case op_effect (xe_replaces env) op (ct_dir w) of
          None \<Rightarrow> (Inl (State_Io (op_name op)), w)
        | Some d \<Rightarrow> (Inr (), w\<lparr>ct_dir := d\<rparr>))"

section \<open>Bodies\<close>

definition hex_digest :: "digests \<Rightarrow> bytes \<Rightarrow> string" where
  "hex_digest dg bytes = dg_hex_digest dg (map (\<lambda>b. char_of (uint b)) bytes)"

definition u64_len :: "bytes \<Rightarrow> u64" where
  "u64_len bytes = (if length bytes < 2 ^ 64 then of_nat (length bytes) else - 1)"

lemma u64_len_code [code]:
  "u64_len bytes = (if int (length bytes) < 18446744073709551616 then word_of_int (int (length bytes)) else - 1)"
  by (simp add: u64_len_def)

definition safe_content_component :: "string \<Rightarrow> bool" where
  "safe_content_component name = is_lower_hex64 name"

definition content_path :: "content_id \<Rightarrow> string state_result" where
  "content_path cid = (if safe_content_component cid then Inr cid else Inl (UnsafeContentId cid))"

definition verify_body :: "digests \<Rightarrow> 'l content_dir \<Rightarrow> content_id \<Rightarrow> nat \<Rightarrow> string \<Rightarrow> state_error check" where
  "verify_body dg d cid expected_len expected_hex =
     and_then (ok_or (body_at d cid) (State_Io cid)) (\<lambda>bytes.
       reject_if (length bytes \<noteq> expected_len \<or> hex_digest dg bytes \<noteq> expected_hex) (ContentDigestMismatch cid))"

text \<open>
  A body is written to a temporary file first. Linking it to the final name makes it visible, and a
  link that finds the name taken verifies what is there.
\<close>

definition body_temporary :: "'l content_env \<Rightarrow> content_id \<Rightarrow> string" where
  "body_temporary env cid = ''.'' @ cid @ ''.'' @ xe_suffix env @ ''.tmp''"

definition link_body :: "'l content_env \<Rightarrow> string \<Rightarrow> content_id \<Rightarrow> nat \<Rightarrow> string \<Rightarrow> ('l content_store, unit) io" where
  "link_body env temporary cid len expected_hex w =
     (case fs env (Hard_Link temporary cid) w of
        (Inr _, w1) \<Rightarrow> io_bind (fs env (Remove_File temporary)) (\<lambda>_. fs env Sync_Directory) w1
      | (Inl e, w1) \<Rightarrow>
          (if bt_contains (ct_dir w1) cid
           then io_bind (fs env (Remove_File temporary)) (\<lambda>_.
                io_bind (\<lambda>w2. (verify_body (xe_digests env) (ct_dir w2) cid len expected_hex, w2)) (\<lambda>_.
                  fs env Sync_Directory)) w1
           else (Inl e, snd (fs env (Remove_File temporary) w1))))"

definition install_body :: "'l content_env \<Rightarrow> content_id \<Rightarrow> bytes \<Rightarrow> string \<Rightarrow> ('l content_store, unit) io" where
  "install_body env cid bytes expected_hex =
     (let temporary = body_temporary env cid
      in io_bind (fs env (Create_New temporary)) (\<lambda>_.
         io_bind (io_on_error
             (io_bind (fs env (Write_Body temporary bytes)) (\<lambda>_. fs env (Sync_File temporary)))
             (fs env (Remove_File temporary))) (\<lambda>_.
           link_body env temporary cid (length bytes) expected_hex)))"

definition stored_reference :: "string \<Rightarrow> content_kind \<Rightarrow> sensitivity \<Rightarrow> bytes \<Rightarrow> content_ref" where
  "stored_reference hex kind sensitivity bytes =
     \<lparr>cr_content_id = hex, cr_kind = kind, cr_byte_len = u64_len bytes, cr_digest = ''sha256:'' @ hex,
      cr_preview = None, cr_sensitivity = sensitivity, cr_availability = Stored\<rparr>"

definition store_body ::
  "'l content_env \<Rightarrow> content_kind \<Rightarrow> sensitivity \<Rightarrow> bytes \<Rightarrow> ('l content_store, content_ref) io" where
  "store_body env kind sensitivity bytes =
     (let hex = hex_digest (xe_digests env) bytes;
          reference = stored_reference hex kind sensitivity bytes
      in io_bind (io_lift (content_path hex)) (\<lambda>_.
         io_bind (io_get (\<lambda>w. bt_contains (ct_dir w) hex)) (\<lambda>exists.
         io_bind (if exists then \<lambda>w. (verify_body (xe_digests env) (ct_dir w) hex (length bytes) hex, w)
                  else install_body env hex bytes hex) (\<lambda>_.
         io_bind (io_lift (map_err State_Contract (content_ref_validate reference))) (\<lambda>_.
           io_return reference)))))"

definition load_body :: "digests \<Rightarrow> 'l content_dir \<Rightarrow> content_ref \<Rightarrow> bytes state_result" where
  "load_body dg d reference =
     and_then (content_path (cr_content_id reference)) (\<lambda>path.
     and_then (ok_or (body_at d path) (ContentMissing (cr_content_id reference))) (\<lambda>bytes.
       if u64_len bytes \<noteq> cr_byte_len reference \<or> ''sha256:'' @ hex_digest dg bytes \<noteq> cr_digest reference
       then Inl (ContentDigestMismatch (cr_content_id reference)) else Inr bytes))"

definition contains_body :: "'l content_store \<Rightarrow> content_id \<Rightarrow> bool" where
  "contains_body w cid \<longleftrightarrow> safe_content_component cid \<and> bt_contains (ct_dir w) cid"

section \<open>The ownership file\<close>

definition is_temporary :: "string \<Rightarrow> bool" where
  "is_temporary name \<longleftrightarrow> take 1 name = ''.'' \<and> suffix ''.tmp'' name"

definition is_ready :: "string \<Rightarrow> bool" where
  "is_ready name \<longleftrightarrow> prefix OWNERSHIP_REWRITE_PREFIX name \<and> suffix ''.ready'' name"

definition sync_if :: "'l content_env \<Rightarrow> bool \<Rightarrow> ('l content_store, unit) io" where
  "sync_if env changed = (if changed then fs env Sync_Directory else io_return ())"

definition cleanup_temporary_files :: "'l content_env \<Rightarrow> ('l content_store, unit) io" where
  "cleanup_temporary_files env =
     io_bind (io_get (\<lambda>w. filter is_temporary (bt_keys (ct_dir w)))) (\<lambda>names.
     io_bind (io_each (\<lambda>n. fs env (Remove_File n)) names) (\<lambda>_. sync_if env (names \<noteq> [])))"

definition recover_ownership_rewrite :: "'l content_env \<Rightarrow> ('l content_store, unit) io" where
  "recover_ownership_rewrite env =
     io_bind (io_get (\<lambda>w. (filter is_ready (bt_keys (ct_dir w)), bt_contains (ct_dir w) OWNERSHIP_FILE))) (\<lambda>(ready, exists).
     (let recover = (if exists \<or> ready = [] then None else Some (last ready));
          rest = (if exists \<or> ready = [] then ready else butlast ready)
      in io_bind (case recover of
            None \<Rightarrow> io_return ()
          | Some candidate \<Rightarrow> fs env (Rename_File candidate OWNERSHIP_FILE)) (\<lambda>_.
         io_bind (io_each (\<lambda>n. fs env (Remove_File n)) rest) (\<lambda>_.
           sync_if env (recover \<noteq> None \<or> rest \<noteq> [])))))"

definition rewrite_stem :: "'l content_env \<Rightarrow> string" where
  "rewrite_stem env = OWNERSHIP_REWRITE_PREFIX @ xe_suffix env"

text \<open>The final rename, with the detour for systems whose rename does not replace.\<close>

definition install_rewrite :: "'l content_env \<Rightarrow> string \<Rightarrow> ('l content_store, unit) io" where
  "install_rewrite env ready w =
     (case fs env (Rename_File ready OWNERSHIP_FILE) w of
        (Inr _, w') \<Rightarrow> (Inr (), w')
      | (Inl e, w') \<Rightarrow>
          (if \<not> bt_contains (ct_dir w') OWNERSHIP_FILE then (Inl e, w')
           else io_bind (fs env (Remove_File OWNERSHIP_FILE)) (\<lambda>_.
                io_bind (fs env Sync_Directory) (\<lambda>_.
                  fs env (Rename_File ready OWNERSHIP_FILE))) w'))"

definition rewrite_ownership :: "'l content_env \<Rightarrow> ownership \<Rightarrow> ('l content_store, unit) io" where
  "rewrite_ownership env table =
     (let temporary = rewrite_stem env @ ''.tmp''; ready = rewrite_stem env @ ''.ready''
      in io_bind (fs env (Create_New temporary)) (\<lambda>_.
         io_bind (io_on_error
             (io_bind (io_each (\<lambda>r. fs env (Append_Line temporary (cd_encode (xe_codec env) r))) (bt_values table)) (\<lambda>_.
                fs env (Sync_File temporary)))
             (fs env (Remove_File temporary))) (\<lambda>_.
         io_bind (fs env (Rename_File temporary ready)) (\<lambda>_.
         io_bind (fs env Sync_Directory) (\<lambda>_.
         io_bind (install_rewrite env ready) (\<lambda>_.
           fs env Sync_Directory))))))"

definition append_ownership :: "'l content_env \<Rightarrow> ownership_record \<Rightarrow> ('l content_store, unit) io" where
  "append_ownership env r =
     io_bind (io_get (\<lambda>w. bt_contains (ct_dir w) OWNERSHIP_FILE)) (\<lambda>existed.
     io_bind (fs env (Append_Line OWNERSHIP_FILE (cd_encode (xe_codec env) r))) (\<lambda>_.
     io_bind (fs env (Sync_File OWNERSHIP_FILE)) (\<lambda>_.
       sync_if env (\<not> existed))))"

definition ownership_key :: "ownership_record \<Rightarrow> string \<times> content_id" where
  "ownership_key r = (ow_device_digest r, cr_content_id (ow_content_ref r))"

definition valid_ownership :: "ownership_record \<Rightarrow> bool" where
  "valid_ownership r \<longleftrightarrow> ow_format_version r = OWNERSHIP_FORMAT_VERSION
     \<and> is_lower_hex64 (ow_device_digest r)
     \<and> ow_created_at_ms r < ow_expires_at_ms r
     \<and> safe_content_component (cr_content_id (ow_content_ref r))
     \<and> cr_digest (ow_content_ref r) = ''sha256:'' @ cr_content_id (ow_content_ref r)
     \<and> cr_availability (ow_content_ref r) = Stored"

definition ownership_step :: "nat \<Rightarrow> ownership_record \<Rightarrow> ownership \<Rightarrow> ownership state_result" where
  "ownership_step n r table =
     and_then (run_checks
       [reject_if (\<not> valid_ownership r) (MalformedRecord OWNERSHIP_FILE n),
        map_err State_Contract (ensure_sensitive ''device_ownership.content_ref'' (ow_content_ref r))])
       (\<lambda>_. Inr (bt_insert (ownership_key r) r table))"

definition read_ownership :: "(ownership_record, 'l) codec \<Rightarrow> 'l content_dir \<Rightarrow> ownership state_result" where
  "read_ownership c d = for_lines c OWNERSHIP_FILE ownership_step 1 (lines_at d OWNERSHIP_FILE) []"

definition open_content :: "'l content_env \<Rightarrow> ('l content_store, unit) io" where
  "open_content env =
     io_bind (recover_ownership_rewrite env) (\<lambda>_.
     io_bind (cleanup_temporary_files env) (\<lambda>_.
     io_bind (\<lambda>w. (read_ownership (xe_codec env) (ct_dir w), w)) (\<lambda>table.
       io_modify (ct_ownership_update (\<lambda>_. table)))))"

section \<open>Uploads\<close>

definition device_digest :: "digests \<Rightarrow> device_id \<Rightarrow> string" where
  "device_digest dg i = dg_hex_digest dg (to_be_bytes (length i) @ i)"

definition rejected_write :: "i64 \<Rightarrow> content_write_response" where
  "rejected_write at_ms = Write_Rejected
     \<lparr>ce_code = Err_InvalidCommand, ce_retriable = False, ce_detail_ref = None, ce_at_ms = at_ms\<rparr>"

definition unavailable :: "content_id \<Rightarrow> content_unavailable_reason \<Rightarrow> content_read_response" where
  "unavailable cid reason = Read_Unavailable cid reason"

definition cleanup_expired_ownership :: "'l content_env \<Rightarrow> i64 \<Rightarrow> ('l content_store, unit) io" where
  "cleanup_expired_ownership env now =
     io_bind (io_get ct_ownership) (\<lambda>before.
     (let kept = bt_retain (\<lambda>_ r. now < ow_expires_at_ms r) before
      in io_bind (io_modify (ct_ownership_update (\<lambda>_. kept))) (\<lambda>_.
         io_bind (if length kept \<noteq> length before then rewrite_ownership env kept else io_return ()) (\<lambda>_.
           cleanup_temporary_files env))))"

definition u64_saturating_add :: "u64 \<Rightarrow> u64 \<Rightarrow> u64" where
  "u64_saturating_add a b = (case checked_add a b of Some c \<Rightarrow> c | None \<Rightarrow> - 1)"

definition device_bytes :: "string \<Rightarrow> i64 \<Rightarrow> ownership \<Rightarrow> u64" where
  "device_bytes device now table = fold (\<lambda>r n. u64_saturating_add n (cr_byte_len (ow_content_ref r)))
     (filter (\<lambda>r. ow_device_digest r = device \<and> now < ow_expires_at_ms r) (bt_values table)) 0"

definition already_owned :: "string \<Rightarrow> content_id \<Rightarrow> u64 \<Rightarrow> i64 \<Rightarrow> ownership \<Rightarrow> bool" where
  "already_owned device cid len now table = is_some_and
     (\<lambda>r. now < ow_expires_at_ms r \<and> cr_byte_len (ow_content_ref r) = len) (bt_get table (device, cid))"

definition over_quota :: "u64 \<Rightarrow> u64 \<Rightarrow> bool" where
  "over_quota current len = (case checked_add current len of None \<Rightarrow> True | Some bytes \<Rightarrow> DEVICE_CONTENT_QUOTA_BYTES < bytes)"

definition accept_write ::
  "'l content_env \<Rightarrow> string \<Rightarrow> content_write_request \<Rightarrow> bytes \<Rightarrow> i64 \<Rightarrow> i64 \<Rightarrow> ('l content_store, content_write_response) io" where
  "accept_write env device request bytes now expires_at_ms =
     io_bind (store_body env (wq_content_kind request) Sensitive bytes) (\<lambda>content_ref.
     (let r = \<lparr>ow_format_version = OWNERSHIP_FORMAT_VERSION, ow_device_digest = device, ow_content_ref = content_ref,
            ow_created_at_ms = now, ow_expires_at_ms = expires_at_ms\<rparr>
      in io_bind (append_ownership env r) (\<lambda>_.
         io_bind (io_modify (\<lambda>w. w\<lparr>ct_ownership := bt_insert (device, hex_digest (xe_digests env) bytes) r (ct_ownership w)\<rparr>)) (\<lambda>_.
         io_bind (io_lift (map_err State_Contract (write_response_validate_for request (Write_Stored content_ref)))) (\<lambda>_.
           io_return (Write_Stored content_ref))))))"

definition write_for_device ::
  "'l content_env \<Rightarrow> device_id \<Rightarrow> content_write_request \<Rightarrow> bytes \<Rightarrow> i64 \<Rightarrow> ('l content_store, content_write_response) io" where
  "write_for_device env device_id request bytes now =
     io_bind (cleanup_expired_ownership env now) (\<lambda>_.
     (let dg = xe_digests env; device = device_digest dg device_id; hex = hex_digest dg bytes; len = u64_len bytes
      in if write_request_validate request \<noteq> ok then io_return (rejected_write now)
         else if len \<noteq> wq_byte_len request \<or> ''sha256:'' @ hex \<noteq> wq_digest request then io_return (rejected_write now)
         else io_bind (io_get ct_ownership) (\<lambda>table.
           if \<not> already_owned device hex len now table \<and> over_quota (device_bytes device now table) len
           then io_return (rejected_write now)
           else (case i64_checked_add now DEVICE_CONTENT_TTL_MS of
               None \<Rightarrow> io_return (rejected_write now)
             | Some expires_at_ms \<Rightarrow> accept_write env device request bytes now expires_at_ms))))"

text \<open>The start-up cleanup: bodies that neither the state nor an upload refers to are removed.\<close>

definition cleanup_after_replay :: "'l content_env \<Rightarrow> i64 \<Rightarrow> content_id list \<Rightarrow> ('l content_store, unit) io" where
  "cleanup_after_replay env now canonical =
     io_bind (cleanup_expired_ownership env now) (\<lambda>_.
     io_bind (cleanup_temporary_files env) (\<lambda>_.
     io_bind (io_get (\<lambda>w. filter (\<lambda>n. safe_content_component n \<and> n \<notin> set canonical
         \<and> n \<notin> (\<lambda>r. cr_content_id (ow_content_ref r)) ` set (bt_values (ct_ownership w))) (bt_keys (ct_dir w)))) (\<lambda>names.
     io_bind (io_each (\<lambda>n. fs env (Remove_File n)) names) (\<lambda>_.
       sync_if env (names \<noteq> [])))))"

section \<open>Reads\<close>

definition read_slice :: "content_ref \<Rightarrow> content_read_request \<Rightarrow> bytes \<Rightarrow> content_read_response state_result" where
  "read_slice reference request bytes =
     (if length bytes < unat (rq_offset request)
      then Inl (InvalidContentOffset (rq_content_id request) (rq_offset request))
      else let offset = unat (rq_offset request);
               end_at = min (offset + unat (rq_max_bytes request)) (length bytes);
               eof = (end_at = length bytes);
               response = Read_Chunk \<lparr>ch_content_id = rq_content_id request, ch_offset = rq_offset request,
                 ch_bytes = take (end_at - offset) (drop offset bytes),
                 ch_next_offset = (if eof then None else Some (of_nat end_at)), ch_eof = eof,
                 ch_digest = cr_digest reference\<rparr>
           in and_then (map_err State_Contract (read_response_validate response)) (\<lambda>_. Inr response))"

definition read_reference ::
  "digests \<Rightarrow> 'l content_dir \<Rightarrow> content_ref \<Rightarrow> content_read_request \<Rightarrow> content_read_response state_result" where
  "read_reference dg d reference request =
     and_then (map_err State_Contract (read_request_validate request)) (\<lambda>_.
     if cr_content_id reference \<noteq> rq_content_id request then Inl (ContentMetadataMismatch (rq_content_id request))
     else case cr_availability reference of
         Evicted \<Rightarrow> Inr (unavailable (rq_content_id request) Unavailable_Evicted)
       | Inline \<Rightarrow> Inr (unavailable (rq_content_id request) Unavailable_NeverStored)
       | NeverStored \<Rightarrow> Inr (unavailable (rq_content_id request) Unavailable_NeverStored)
       | Stored \<Rightarrow>
           (case load_body dg d reference of
              Inl (ContentMissing _) \<Rightarrow> Inr (unavailable (rq_content_id request) Unavailable_Evicted)
            | Inl (ContentDigestMismatch _) \<Rightarrow> Inr (unavailable (rq_content_id request) Unavailable_DigestMismatch)
            | Inl other \<Rightarrow> Inl other
            | Inr bytes \<Rightarrow> read_slice reference request bytes))"

definition read_for_device ::
  "digests \<Rightarrow> 'l content_store \<Rightarrow> device_id \<Rightarrow> content_read_request \<Rightarrow> i64 \<Rightarrow> content_read_response state_result" where
  "read_for_device dg w device_id request now =
     and_then (map_err State_Contract (read_request_validate request)) (\<lambda>_.
     case bt_get (ct_ownership w) (device_digest dg device_id, rq_content_id request) of
       None \<Rightarrow> Inr (unavailable (rq_content_id request) Unavailable_Unauthorized)
     | Some r \<Rightarrow>
         (if ow_expires_at_ms r \<le> now then Inr (unavailable (rq_content_id request) Unavailable_Evicted)
          else read_reference dg (ct_dir w) (ow_content_ref r) request))"

definition validate_device_reference ::
  "digests \<Rightarrow> 'l content_store \<Rightarrow> device_id \<Rightarrow> content_ref \<Rightarrow> i64 \<Rightarrow> state_error check" where
  "validate_device_reference dg w device_id reference now =
     and_then (map_err State_Contract (ensure_sensitive ''device_command.content_ref'' reference)) (\<lambda>_.
     and_then (ok_or (bt_get (ct_ownership w) (device_digest dg device_id, cr_content_id reference))
         (ContentUnauthorized (cr_content_id reference))) (\<lambda>r. run_checks
       [reject_if (ow_expires_at_ms r \<le> now) (ContentExpired (cr_content_id reference)),
        reject_if (ow_content_ref r \<noteq> reference) (ContentMetadataMismatch (cr_content_id reference)),
        and_then (load_body dg (ct_dir w) reference) (\<lambda>_. ok)]))"

end
