(* ===== verification/Content_Properties.thy ===== *)
theory Content_Properties
  imports Content_Store State_Invariant
begin

text \<open>
  What the content store guarantees: the ownership file survives an interrupted rewrite, uploads stay
  within the quota of their device, an accepted upload is usable until it expires, and reading a body
  in chunks ends with the whole body.
\<close>

section \<open>Directories as functions\<close>

lemma bt_ext:
  assumes "bt_wf a" "bt_wf b" "\<And>k. bt_get a k = bt_get b k"
  shows "a = b"
proof -
  have sets: "set a = set b"
    using assms bt_get_mem by (metis subrelI subset_antisym)
  have "map fst a = map fst b"
    using assms(1,2) sets by (intro strict_sorted_equal) (simp_all add: bt_wf_def)
  then show ?thesis
    using sets assms(1,2) by (intro map_inj_on [where f = fst]) (auto simp: bt_wf_def strict_sorted_iff distinct_map)
qed

lemma filter_single:
  assumes "distinct xs" "x \<in> set xs" "\<And>y. y \<in> set xs \<Longrightarrow> P y \<longleftrightarrow> y = x"
  shows "filter P xs = [x]"
proof -
  have "filter P xs = filter (\<lambda>y. y = x) xs" using assms(3) by (intro filter_cong) auto
  also have "\<dots> = [x]" using assms(1,2) by (induction xs) (auto simp: filter_empty_conv)
  finally show ?thesis .
qed

definition at :: "'l content_store \<Rightarrow> string \<Rightarrow> 'l content_file option" where
  "at w = bt_get (ct_dir w)"

lemma keys_at: "n \<in> set (bt_keys (ct_dir w)) \<longleftrightarrow> at w n \<noteq> None"
  by (simp add: at_def bt_keys_iff)

text \<open>The effect of one operation, as a function update.\<close>

lemma fs_cases:
  assumes "fs env op w = (r, w')"
  shows "w' = w \<and> (\<exists>e. r = Inl e)
    \<or> \<not> xe_refuses env (ct_dir w) op \<and> r = Inr () \<and> (\<exists>d. op_effect (xe_replaces env) op (ct_dir w) = Some d \<and> w' = w\<lparr>ct_dir := d\<rparr>)"
  using assms by (auto simp: fs_def split: if_splits option.splits)

lemma fs_wf: "bt_wf (ct_dir w) \<Longrightarrow> bt_wf (ct_dir (snd (fs env op w)))"
  by (cases op) (auto simp: fs_def split: option.splits)

lemma fs_ownership [simp]: "ct_ownership (snd (fs env op w)) = ct_ownership w"
  by (simp add: fs_def split: option.splits)

lemma op_effect_at:
  "op_effect z (Create_New n) d = Some d' \<Longrightarrow> bt_get d' = (bt_get d)(n \<mapsto> Lines [])"
  "op_effect z (Append_Line n l) d = Some d' \<Longrightarrow> bt_get d' = (bt_get d)(n \<mapsto> Lines (lines_at d n @ [l]))"
  "op_effect z (Write_Body n b) d = Some d' \<Longrightarrow> bt_get d' = (bt_get d)(n \<mapsto> Body b)"
  "op_effect z (Hard_Link n m) d = Some d' \<Longrightarrow> bt_get d' = (bt_get d)(m := bt_get d n)"
  "op_effect z (Rename_File n m) d = Some d' \<Longrightarrow> n \<noteq> m \<Longrightarrow> bt_get d' = (bt_get d)(n := None, m := bt_get d n)"
  "op_effect z (Remove_File n) d = Some d' \<Longrightarrow> bt_get d' = (bt_get d)(n := None)"
  by (auto split: if_splits option.splits)

section \<open>Interrupted rewrites\<close>

lemma names:
  "is_temporary (rewrite_stem env @ ''.tmp'')" "\<not> is_ready (rewrite_stem env @ ''.tmp'')"
  "is_ready (rewrite_stem env @ ''.ready'')" "\<not> is_temporary (rewrite_stem env @ ''.ready'')"
  by (auto simp: is_temporary_def is_ready_def rewrite_stem_def OWNERSHIP_REWRITE_PREFIX_def suffix_def prefix_def)

lemma ownership_file_name [simp]: "\<not> is_temporary OWNERSHIP_FILE" "\<not> is_ready OWNERSHIP_FILE"
  by (auto simp: is_temporary_def is_ready_def OWNERSHIP_REWRITE_PREFIX_def OWNERSHIP_FILE_def prefix_def)

text \<open>What may be on disk when a rewrite of the ownership file to \<open>new\<close> was interrupted.\<close>

inductive interrupted ::
  "string \<Rightarrow> string \<Rightarrow> 'l list \<Rightarrow> (string \<Rightarrow> 'l content_file option) \<Rightarrow> (string \<Rightarrow> 'l content_file option) \<Rightarrow> bool"
  for tmp ready new d where
  Untouched: "interrupted tmp ready new d d"
| Partial: "interrupted tmp ready new d (d(tmp \<mapsto> Lines ls))"
| Prepared: "interrupted tmp ready new d (d(ready \<mapsto> Lines new))"
| Removed: "interrupted tmp ready new d (d(ready \<mapsto> Lines new, OWNERSHIP_FILE := None))"
| Installed: "interrupted tmp ready new d (d(OWNERSHIP_FILE \<mapsto> Lines new))"

lemma fs_Inl: "fs env op w = (Inl e, w') \<Longrightarrow> w' = w"
  by (auto simp: fs_def split: if_splits option.splits)

lemma fs_Inr:
  assumes "fs env op w = (Inr u, w')"
  shows "\<exists>d. op_effect (xe_replaces env) op (ct_dir w) = Some d \<and> w' = w\<lparr>ct_dir := d\<rparr>"
  using assms by (auto simp: fs_def split: if_splits option.splits)

lemma fs_at:
  assumes "fs env op w = (Inr u, w')"
  shows "op = Create_New n \<Longrightarrow> at w' = (at w)(n \<mapsto> Lines [])"
    and "op = Append_Line n l \<Longrightarrow> at w' = (at w)(n \<mapsto> Lines (lines_at (ct_dir w) n @ [l]))"
    and "op = Write_Body n b \<Longrightarrow> at w' = (at w)(n \<mapsto> Body b)"
    and "op = Rename_File n m \<Longrightarrow> n \<noteq> m \<Longrightarrow> at w' = (at w)(n := None, m := at w n)"
    and "op = Remove_File n \<Longrightarrow> at w' = (at w)(n := None)"
    and "op = Sync_Directory \<Longrightarrow> at w' = at w"
    and "op = Hard_Link n m \<Longrightarrow> at w' = (at w)(m := at w n)"
    and "op = Sync_File n \<Longrightarrow> at w' = at w"
  using fs_Inr [OF assms] op_effect_at by (auto simp: at_def)

lemma append_lines:
  assumes "at w = d(n \<mapsto> Lines ls)" "io_each (\<lambda>r. fs env (Append_Line n (g r))) rs w = (res, w')"
  shows "\<exists>ms. at w' = d(n \<mapsto> Lines ms) \<and> (res = Inr () \<longrightarrow> ms = ls @ map g rs)"
  using assms
proof (induction rs arbitrary: w ls)
  case (Cons r rs)
  obtain q w1 where q: "fs env (Append_Line n (g r)) w = (q, w1)" by fastforce
  show ?case
  proof (cases q)
    case (Inl e)
    with q fs_Inl have "w1 = w" by blast
    with Inl q Cons.prems show ?thesis by (auto simp: io_bind_def)
  next
    case (Inr u)
    have "lines_at (ct_dir w) n = ls"
      using Cons.prems(1) by (simp add: lines_at_def at_def)
    then have "at w1 = d(n \<mapsto> Lines (ls @ [g r]))"
      unfolding fs_at(2) [OF q [unfolded Inr] refl] Cons.prems(1) by simp
    moreover have "io_each (\<lambda>r. fs env (Append_Line n (g r))) rs w1 = (res, w')"
      using Cons.prems(2) q Inr by (simp add: io_bind_def)
    ultimately show ?thesis using Cons.IH by fastforce
  qed
qed auto

lemma append_synced:
  assumes "at w = d(n \<mapsto> Lines ls)"
    and "io_bind (io_each (\<lambda>r. fs env (Append_Line n (g r))) rs) (\<lambda>_. fs env (Sync_File n)) w = (res, w')"
  shows "\<exists>ms. at w' = d(n \<mapsto> Lines ms) \<and> (res = Inr () \<longrightarrow> ms = ls @ map g rs)"
proof -
  obtain q w1 where q: "io_each (\<lambda>r. fs env (Append_Line n (g r))) rs w = (q, w1)" by fastforce
  from append_lines [OF assms(1) q] obtain ms where ms: "at w1 = d(n \<mapsto> Lines ms)" "q = Inr () \<longrightarrow> ms = ls @ map g rs" by blast
  have "at (snd (fs env (Sync_File n) w1)) = at w1"
    by (simp add: fs_def)
  with q ms assms(2) show ?thesis by (cases q) (auto simp: io_bind_def)
qed

lemma install_interrupted:
  assumes "at w = d(ready \<mapsto> Lines new)" "d ready = None" "ready \<noteq> OWNERSHIP_FILE"
  shows "interrupted tmp ready new d (at (snd (install_rewrite env ready w)))"
proof -
  obtain q w1 where q: "fs env (Rename_File ready OWNERSHIP_FILE) w = (q, w1)" by fastforce
  show ?thesis
  proof (cases q)
    case (Inr u)
    have "at w1 = d(OWNERSHIP_FILE \<mapsto> Lines new)"
      using fs_at(4) [OF q [unfolded Inr] refl assms(3)] assms(1,2) by (simp add: fun_upd_idem)
    with q Inr show ?thesis by (simp add: install_rewrite_def Installed)
  next
    case (Inl e)
    with q fs_Inl have w1: "w1 = w" by blast
    show ?thesis
    proof (cases "bt_contains (ct_dir w) OWNERSHIP_FILE")
      case False
      then show ?thesis using q Inl w1 assms(1) by (simp add: install_rewrite_def Prepared)
    next
      case True
      have "interrupted tmp ready new d (at (snd (io_bind (fs env (Remove_File OWNERSHIP_FILE)) (\<lambda>_.
          io_bind (fs env Sync_Directory) (\<lambda>_. fs env (Rename_File ready OWNERSHIP_FILE))) w)))"
      proof (rule io_bind_post)
        fix e' w' assume "fs env (Remove_File OWNERSHIP_FILE) w = (Inl e', w')"
        from fs_Inl [OF this] assms(1) show "interrupted tmp ready new d (at w')" by (simp add: interrupted.Prepared)
      next
        fix u w2 assume "fs env (Remove_File OWNERSHIP_FILE) w = (Inr u, w2)"
        then have w2: "at w2 = d(ready \<mapsto> Lines new, OWNERSHIP_FILE := None)"
          using fs_at(5) assms(1) by metis
        show "interrupted tmp ready new d (at (snd (io_bind (fs env Sync_Directory) (\<lambda>_. fs env (Rename_File ready OWNERSHIP_FILE)) w2)))"
        proof (rule io_bind_post)
          fix e' w' assume "fs env Sync_Directory w2 = (Inl e', w')"
          from fs_Inl [OF this] w2 show "interrupted tmp ready new d (at w')" by (simp add: interrupted.Removed)
        next
          fix u w3 assume "fs env Sync_Directory w2 = (Inr u, w3)"
          then have w3: "at w3 = d(ready \<mapsto> Lines new, OWNERSHIP_FILE := None)"
            using fs_at(6) w2 by metis
          obtain p w4 where p: "fs env (Rename_File ready OWNERSHIP_FILE) w3 = (p, w4)" by fastforce
          show "interrupted tmp ready new d (at (snd (fs env (Rename_File ready OWNERSHIP_FILE) w3)))"
          proof (cases p)
            case (Inl e'')
            with p fs_Inl w3 show ?thesis by (metis Removed snd_conv)
          next
            case (Inr u')
            have "at w4 = d(OWNERSHIP_FILE \<mapsto> Lines new)"
              using fs_at(4) [OF p [unfolded Inr] refl assms(3)] w3 assms(2,3) by (simp add: fun_upd_idem fun_upd_twist)
            with p show ?thesis by (simp add: Installed)
          qed
        qed
      qed
      with q Inl w1 True show ?thesis by (simp add: install_rewrite_def)
    qed
  qed
qed

lemma written_interrupted:
  assumes "at w = d(tmp \<mapsto> Lines new)" "d tmp = None" "d ready = None" "ready \<noteq> OWNERSHIP_FILE" "tmp \<noteq> ready"
  shows "interrupted tmp ready new d (at (snd (io_bind (fs env (Rename_File tmp ready)) (\<lambda>_.
    io_bind (fs env Sync_Directory) (\<lambda>_. io_bind (install_rewrite env ready) (\<lambda>_. fs env Sync_Directory))) w)))"
proof (rule io_bind_post)
  fix e w' assume "fs env (Rename_File tmp ready) w = (Inl e, w')"
  from fs_Inl [OF this] assms(1) show "interrupted tmp ready new d (at w')" by (simp add: interrupted.Partial)
next
  fix u w2 assume w2: "fs env (Rename_File tmp ready) w = (Inr u, w2)"
  have w2: "at w2 = d(ready \<mapsto> Lines new)"
    unfolding fs_at(4) [OF w2 refl assms(5)] assms(1) using assms(2,5) by (simp add: fun_upd_idem)
  show "interrupted tmp ready new d (at (snd (io_bind (fs env Sync_Directory) (\<lambda>_.
      io_bind (install_rewrite env ready) (\<lambda>_. fs env Sync_Directory)) w2)))"
  proof (rule io_bind_post)
    fix e w' assume "fs env Sync_Directory w2 = (Inl e, w')"
    from fs_Inl [OF this] w2 show "interrupted tmp ready new d (at w')" by (simp add: interrupted.Prepared)
  next
    fix u w3 assume "fs env Sync_Directory w2 = (Inr u, w3)"
    then have "at w3 = d(ready \<mapsto> Lines new)" using fs_at(6) w2 by metis
    then have int: "interrupted tmp ready new d (at (snd (install_rewrite env ready w3)))"
      using install_interrupted assms(3,4) by metis
    show "interrupted tmp ready new d (at (snd (io_bind (install_rewrite env ready) (\<lambda>_. fs env Sync_Directory) w3)))"
    proof (rule io_bind_post)
      show "interrupted tmp ready new d (at w')" if "install_rewrite env ready w3 = (Inl e, w')" for e w'
        using int that by simp
    next
      fix u w4 assume w4: "install_rewrite env ready w3 = (Inr u, w4)"
      obtain p w5 where p: "fs env Sync_Directory w4 = (p, w5)" by fastforce
      have "at w5 = at w4"
      proof (cases p)
        case (Inl e)
        from fs_Inl [OF p [unfolded Inl]] show ?thesis by simp
      next
        case (Inr u)
        from fs_at(6) [OF p [unfolded Inr]] show ?thesis by simp
      qed
      then show "interrupted tmp ready new d (at (snd (fs env Sync_Directory w4)))"
        using int w4 p by simp
    qed
  qed
qed

lemma rewrite_interrupted:
  fixes env :: "'l content_env"
  defines "tmp \<equiv> rewrite_stem env @ ''.tmp''" and "ready \<equiv> rewrite_stem env @ ''.ready''"
  assumes "at w tmp = None" "at w ready = None"
  shows "interrupted tmp ready (map (cd_encode (xe_codec env)) (bt_values table)) (at w)
    (at (snd (rewrite_ownership env table w)))"
proof -
  let ?new = "map (cd_encode (xe_codec env)) (bt_values table)" and ?d = "at w"
  let ?put = "io_bind (io_each (\<lambda>r. fs env (Append_Line tmp (cd_encode (xe_codec env) r))) (bt_values table)) (\<lambda>_. fs env (Sync_File tmp))"
  have apart: "ready \<noteq> OWNERSHIP_FILE" "tmp \<noteq> ready"
    using names [of env] ownership_file_name unfolding tmp_def ready_def by metis+
  show ?thesis
    unfolding rewrite_ownership_def Let_def tmp_def [symmetric] ready_def [symmetric]
  proof (rule io_bind_post)
    fix e w' assume "fs env (Create_New tmp) w = (Inl e, w')"
    from fs_Inl [OF this] show "interrupted tmp ready ?new ?d (at w')" by (simp add: Untouched)
  next
    fix u w1 assume "fs env (Create_New tmp) w = (Inr u, w1)"
    then have w1: "at w1 = ?d(tmp \<mapsto> Lines [])" using fs_at(1) by blast
    obtain q w2 where q: "?put w1 = (q, w2)" by fastforce
    obtain ms where ms: "at w2 = ?d(tmp \<mapsto> Lines ms)" "q = Inr () \<longrightarrow> ms = ?new"
      using append_synced [OF w1 q] by auto
    show "interrupted tmp ready ?new ?d (at (snd (io_bind (io_on_error ?put (fs env (Remove_File tmp))) (\<lambda>_.
        io_bind (fs env (Rename_File tmp ready)) (\<lambda>_. io_bind (fs env Sync_Directory) (\<lambda>_.
        io_bind (install_rewrite env ready) (\<lambda>_. fs env Sync_Directory)))) w1)))"
    proof (rule io_bind_post)
      fix e w' assume "io_on_error ?put (fs env (Remove_File tmp)) w1 = (Inl e, w')"
      then obtain p where p: "fs env (Remove_File tmp) w2 = (p, w')"
        using q by (cases q; cases "fs env (Remove_File tmp) w2") (auto simp: io_on_error_def)
      have "at w' = ?d(tmp \<mapsto> Lines ms) \<or> at w' = ?d"
      proof (cases p)
        case (Inl e')
        from fs_Inl [OF p [unfolded Inl]] ms(1) show ?thesis by simp
      next
        case (Inr u)
        show ?thesis
          unfolding fs_at(5) [OF p [unfolded Inr] refl] ms(1) using assms(3) by (simp add: fun_upd_idem)
      qed
      then show "interrupted tmp ready ?new ?d (at w')" by (metis Partial Untouched)
    next
      fix u w' assume "io_on_error ?put (fs env (Remove_File tmp)) w1 = (Inr u, w')"
      then have "w' = w2" "q = Inr ()" using q by (auto simp: io_on_error_def split: sum.splits)
      with ms have "at w' = ?d(tmp \<mapsto> Lines ?new)" by simp
      then show "interrupted tmp ready ?new ?d (at (snd (io_bind (fs env (Rename_File tmp ready)) (\<lambda>_. io_bind (fs env Sync_Directory) (\<lambda>_.
        io_bind (install_rewrite env ready) (\<lambda>_. fs env Sync_Directory))) w')))"
        using written_interrupted assms(3,4) apart by metis
    qed
  qed
qed

section \<open>Reopening\<close>

text \<open>A start at which the operating system refuses nothing.\<close>

definition calm :: "'l content_env \<Rightarrow> bool" where
  "calm env \<longleftrightarrow> (\<forall>d op. \<not> xe_refuses env d op)"

lemma fs_calm: "calm env \<Longrightarrow> op_effect (xe_replaces env) op (ct_dir w) = Some d \<Longrightarrow> fs env op w = (Inr (), w\<lparr>ct_dir := d\<rparr>)"
  by (simp add: fs_def calm_def)

lemma fs_calm_remove: "calm env \<Longrightarrow> at w n \<noteq> None \<Longrightarrow> fs env (Remove_File n) w = (Inr (), w\<lparr>ct_dir := bt_remove n (ct_dir w)\<rparr>)"
  by (rule fs_calm) (simp_all add: at_def bt_contains_def)

lemma sync_calm: "calm env \<Longrightarrow> sync_if env b w = (Inr (), w)"
  by (simp add: sync_if_def fs_calm)

lemma at_update [simp]: "at (w\<lparr>ct_dir := d\<rparr>) = bt_get d"
  by (simp add: at_def)

text \<open>Without temporary or ready files a start only reads the table.\<close>

definition tidy :: "(string \<Rightarrow> 'l content_file option) \<Rightarrow> bool" where
  "tidy d \<longleftrightarrow> (\<forall>n. d n \<noteq> None \<longrightarrow> \<not> is_temporary n \<and> \<not> is_ready n)"

lemma filter_keys_none:
  assumes "\<And>n. at w n \<noteq> None \<Longrightarrow> \<not> P n"
  shows "filter P (bt_keys (ct_dir w)) = []"
  using assms keys_at unfolding filter_empty_conv by metis

lemma filter_keys_one:
  assumes "bt_wf (ct_dir w)" "at w n \<noteq> None" "P n" "\<And>m. at w m \<noteq> None \<Longrightarrow> P m \<Longrightarrow> m = n"
  shows "filter P (bt_keys (ct_dir w)) = [n]"
proof (rule filter_single [OF bt_keys_distinct [OF assms(1)]])
  show "n \<in> set (bt_keys (ct_dir w))" using assms(2) keys_at by metis
  show "P m \<longleftrightarrow> m = n" if "m \<in> set (bt_keys (ct_dir w))" for m
    using that assms(3,4) keys_at by metis
qed

lemma cleanup_tidy:
  assumes "calm env" "\<And>n. at w n \<noteq> None \<Longrightarrow> \<not> is_temporary n"
  shows "cleanup_temporary_files env w = (Inr (), w)"
proof -
  have "filter is_temporary (bt_keys (ct_dir w)) = []" using assms(2) by (rule filter_keys_none)
  then show ?thesis by (simp add: cleanup_temporary_files_def io_bind_def sync_calm [OF assms(1)])
qed

lemma cleanup_one:
  assumes "calm env" "bt_wf (ct_dir w)" "at w n \<noteq> None" "is_temporary n" "\<And>m. at w m \<noteq> None \<Longrightarrow> is_temporary m \<Longrightarrow> m = n"
  shows "cleanup_temporary_files env w = (Inr (), w\<lparr>ct_dir := bt_remove n (ct_dir w)\<rparr>)"
proof -
  have "filter is_temporary (bt_keys (ct_dir w)) = [n]" using assms(2-5) by (rule filter_keys_one)
  then show ?thesis
    by (simp add: cleanup_temporary_files_def io_bind_def sync_calm [OF assms(1)] fs_calm_remove [OF assms(1,3)])
qed

lemma recover_nothing:
  assumes "calm env" "\<And>n. at w n \<noteq> None \<Longrightarrow> \<not> is_ready n"
  shows "recover_ownership_rewrite env w = (Inr (), w)"
proof -
  have "filter is_ready (bt_keys (ct_dir w)) = []" using assms(2) by (rule filter_keys_none)
  then show ?thesis by (simp add: recover_ownership_rewrite_def io_bind_def Let_def sync_calm [OF assms(1)])
qed

lemma recover_discards:
  assumes "calm env" "bt_wf (ct_dir w)" "at w n \<noteq> None" "is_ready n" "\<And>m. at w m \<noteq> None \<Longrightarrow> is_ready m \<Longrightarrow> m = n"
    and "at w OWNERSHIP_FILE \<noteq> None"
  shows "recover_ownership_rewrite env w = (Inr (), w\<lparr>ct_dir := bt_remove n (ct_dir w)\<rparr>)"
proof -
  have "filter is_ready (bt_keys (ct_dir w)) = [n]" using assms(2-5) by (rule filter_keys_one)
  moreover have "bt_contains (ct_dir w) OWNERSHIP_FILE" using assms(6) by (simp add: bt_contains_def at_def)
  ultimately show ?thesis
    by (simp add: recover_ownership_rewrite_def io_bind_def Let_def sync_calm [OF assms(1)] fs_calm_remove [OF assms(1,3)])
qed

lemma recover_installs:
  assumes "calm env" "bt_wf (ct_dir w)" "at w n = Some f" "is_ready n" "\<And>m. at w m \<noteq> None \<Longrightarrow> is_ready m \<Longrightarrow> m = n"
    and "at w OWNERSHIP_FILE = None"
  shows "recover_ownership_rewrite env w = (Inr (), w\<lparr>ct_dir := bt_insert OWNERSHIP_FILE f (bt_remove n (ct_dir w))\<rparr>)"
proof -
  have "fs env (Rename_File n OWNERSHIP_FILE) w = (Inr (), w\<lparr>ct_dir := bt_insert OWNERSHIP_FILE f (bt_remove n (ct_dir w))\<rparr>)"
    using assms(3,6) by (intro fs_calm [OF assms(1)]) (simp add: at_def bt_contains_def)
  moreover have "filter is_ready (bt_keys (ct_dir w)) = [n]"
    by (rule filter_keys_one) (use assms(2-5) in auto)
  moreover have "\<not> bt_contains (ct_dir w) OWNERSHIP_FILE" using assms(6) by (simp add: bt_contains_def at_def)
  ultimately show ?thesis
    by (simp add: recover_ownership_rewrite_def io_bind_def Let_def sync_calm [OF assms(1)])
qed

lemma open_content_reads:
  assumes "recover_ownership_rewrite env w = (Inr (), w1)" "cleanup_temporary_files env w1 = (Inr (), w2)"
    and "read_ownership (xe_codec env) (ct_dir w2) = Inr table"
  shows "open_content env w = (Inr (), w2\<lparr>ct_ownership := table\<rparr>)"
  using assms by (simp add: open_content_def io_bind_def)

lemma read_ownership_at: "at w OWNERSHIP_FILE = at v OWNERSHIP_FILE \<Longrightarrow> read_ownership c (ct_dir w) = read_ownership c (ct_dir v)"
  by (simp add: read_ownership_def lines_at_def at_def)

text \<open>Reading back the lines of a valid table gives the table.\<close>

interpretation ownership_lines: line_reader ownership_step
  by unfold_locales (auto simp: ownership_step_def and_then_ok)

definition ownership_ok :: "ownership \<Rightarrow> bool" where
  "ownership_ok table \<longleftrightarrow> keyed ownership_key table
     \<and> (\<forall>k r. bt_get table k = Some r \<longrightarrow> valid_ownership r \<and> ensure_sensitive ''device_ownership.content_ref'' (ow_content_ref r) = ok)"

lemma ownership_ok_retain:
  assumes "ownership_ok table"
  shows "ownership_ok (bt_retain p table)"
proof -
  have wf: "bt_wf table" using assms keyed_wf unfolding ownership_ok_def by blast
  have "bt_get table k = Some r" if "bt_get (bt_retain p table) k = Some r" for k r
    using that bt_get_retain [OF wf, of p k] by (auto split: option.splits if_splits)
  then show ?thesis
    using assms wf unfolding ownership_ok_def keyed_def by (meson bt_wf_retain)
qed

lemma ownership_step_ok:
  "ownership_step n r table = Inr table' \<longleftrightarrow> valid_ownership r
     \<and> ensure_sensitive ''device_ownership.content_ref'' (ow_content_ref r) = ok \<and> table' = bt_insert (ownership_key r) r table"
  by (auto simp: ownership_step_def and_then_ok map_err_ok)

lemma read_values_fold:
  assumes "sorted_wrt (<) (map fst (acc @ rest))"
    and "\<And>k r. (k, r) \<in> set rest \<Longrightarrow> ownership_key r = k \<and> valid_ownership r
      \<and> ensure_sensitive ''device_ownership.content_ref'' (ow_content_ref r) = ok"
  shows "try_fold (ownership_step 0) (map snd rest) acc = Inr (acc @ rest)"
  using assms
proof (induction rest arbitrary: acc)
  case (Cons e rest)
  obtain k r where e: "e = (k, r)" by (cases e)
  have k: "ownership_key r = k" and r: "valid_ownership r"
    "ensure_sensitive ''device_ownership.content_ref'' (ow_content_ref r) = ok"
    using Cons.prems(2) [of k r] e by auto
  have "bt_insert k r acc = acc @ [(k, r)]"
    using Cons.prems(1) e by (intro bt_insert_last) (simp add: sorted_wrt_append)
  then have "ownership_step 0 r acc = Inr (acc @ [(k, r)])"
    using k r by (simp add: ownership_step_ok)
  moreover have "try_fold (ownership_step 0) (map snd rest) (acc @ [(k, r)]) = Inr ((acc @ [(k, r)]) @ rest)"
    using Cons.prems e by (intro Cons.IH) auto
  ultimately show ?case by (simp add: e)
qed simp

lemma read_ownership_encoded:
  assumes "codec_ok c" "ownership_ok table" "bt_get d OWNERSHIP_FILE = Some (Lines (map (cd_encode c) (bt_values table)))"
  shows "read_ownership c d = Inr table"
proof -
  have wf: "bt_wf table" using assms(2) keyed_wf unfolding ownership_ok_def by blast
  have "try_fold (ownership_step 0) (map snd table) [] = Inr ([] @ table)"
    using assms(2) wf by (intro read_values_fold)
      (auto simp: bt_wf_def ownership_ok_def keyed_def bt_get_mem)
  then have "for_lines c OWNERSHIP_FILE ownership_step 1 (map (cd_encode c) (bt_values table)) [] = Inr table"
    unfolding ownership_lines.read_encoded [OF assms(1)] by (simp add: bt_values_def)
  then show ?thesis
    using assms(3) by (simp add: read_ownership_def lines_at_def)
qed

lemma interrupted_other:
  assumes "interrupted tmp ready new d e" "n \<noteq> tmp" "n \<noteq> ready" "n \<noteq> OWNERSHIP_FILE"
  shows "e n = d n"
  using assms by (cases rule: interrupted.cases) auto

lemma open_tidy:
  assumes "calm env" "tidy (at v)" "read_ownership (xe_codec env) (ct_dir v) = Inr table"
  shows "open_content env v = (Inr (), v\<lparr>ct_ownership := table\<rparr>)"
  using assms(2,3) by (intro open_content_reads [OF recover_nothing cleanup_tidy] assms(1)) (auto simp: tidy_def)

text \<open>Once the leftover file is gone the next start sees a tidy directory.\<close>

lemma open_partial:
  assumes "calm env" "bt_wf (ct_dir v)" "tidy d" "at v = d(tmp \<mapsto> f)" "is_temporary tmp" "\<not> is_ready tmp"
    and "read_ownership (xe_codec env) (bt_remove tmp (ct_dir v)) = Inr table"
  shows "open_content env v = (Inr (), v\<lparr>ct_dir := bt_remove tmp (ct_dir v), ct_ownership := table\<rparr>)"
proof -
  have "recover_ownership_rewrite env v = (Inr (), v)"
    using assms(1,3,4,6) by (intro recover_nothing) (auto simp: tidy_def split: if_splits)
  moreover have "cleanup_temporary_files env v = (Inr (), v\<lparr>ct_dir := bt_remove tmp (ct_dir v)\<rparr>)"
    using assms(1-5) by (intro cleanup_one) (auto simp: tidy_def split: if_splits)
  ultimately show ?thesis
    using open_content_reads assms(7) by fastforce
qed

lemma open_discards:
  assumes "calm env" "bt_wf (ct_dir v)" "tidy d" "at v = d(ready \<mapsto> f)" "is_ready ready" "\<not> is_temporary ready"
    and "d OWNERSHIP_FILE \<noteq> None" "read_ownership (xe_codec env) (bt_remove ready (ct_dir v)) = Inr table"
  shows "open_content env v = (Inr (), v\<lparr>ct_dir := bt_remove ready (ct_dir v), ct_ownership := table\<rparr>)"
proof -
  let ?w = "v\<lparr>ct_dir := bt_remove ready (ct_dir v)\<rparr>"
  have "recover_ownership_rewrite env v = (Inr (), ?w)"
    using assms(1-5,7) by (intro recover_discards) (auto simp: tidy_def split: if_splits)
  moreover have "at ?w = d(ready := None)"
    using assms(4) by (auto simp: at_def fun_eq_iff)
  then have "cleanup_temporary_files env ?w = (Inr (), ?w)"
    using assms(1,3) by (intro cleanup_tidy) (auto simp: tidy_def split: if_splits)
  ultimately show ?thesis
    using open_content_reads assms(8) by fastforce
qed

lemma open_installs:
  assumes "calm env" "bt_wf (ct_dir v)" "tidy d" "at v = d(ready \<mapsto> f, OWNERSHIP_FILE := None)" "is_ready ready" "\<not> is_temporary ready"
    and "read_ownership (xe_codec env) (bt_insert OWNERSHIP_FILE f (bt_remove ready (ct_dir v))) = Inr table"
  shows "open_content env v =
    (Inr (), v\<lparr>ct_dir := bt_insert OWNERSHIP_FILE f (bt_remove ready (ct_dir v)), ct_ownership := table\<rparr>)"
proof -
  let ?w = "v\<lparr>ct_dir := bt_insert OWNERSHIP_FILE f (bt_remove ready (ct_dir v))\<rparr>"
  have "ready \<noteq> OWNERSHIP_FILE" using assms(5) by auto
  then have "recover_ownership_rewrite env v = (Inr (), ?w)"
    using assms(1-5) by (intro recover_installs) (auto simp: tidy_def split: if_splits)
  moreover have "at ?w = d(ready := None, OWNERSHIP_FILE \<mapsto> f)"
    using assms(4) by (auto simp: at_def fun_eq_iff)
  then have "cleanup_temporary_files env ?w = (Inr (), ?w)"
    using assms(1,3) by (intro cleanup_tidy) (auto simp: tidy_def split: if_splits)
  ultimately show ?thesis
    using open_content_reads assms(7) by fastforce
qed

lemma reopen_interrupted:
  assumes "calm env" "codec_ok (xe_codec env)" "bt_wf (ct_dir v)" "tidy d" "ownership_ok table"
    and "is_temporary tmp" "\<not> is_ready tmp" "is_ready ready" "\<not> is_temporary ready"
    and "interrupted tmp ready (map (cd_encode (xe_codec env)) (bt_values table)) d (at v)"
    and "\<And>e. bt_get e OWNERSHIP_FILE = d OWNERSHIP_FILE \<Longrightarrow> read_ownership (xe_codec env) e = Inr old"
  shows "\<exists>u. open_content env v = (Inr (), u) \<and> (ct_ownership u = old \<or> ct_ownership u = table)
    \<and> (\<forall>n. n \<noteq> OWNERSHIP_FILE \<longrightarrow> at u n = d n)"
proof -
  let ?f = "Lines (map (cd_encode (xe_codec env)) (bt_values table))"
  have new: "read_ownership (xe_codec env) (bt_insert OWNERSHIP_FILE ?f e) = Inr table" for e
    using read_ownership_encoded [OF assms(2,5)] by simp
  have free: "d tmp = None" "d ready = None" "tmp \<noteq> OWNERSHIP_FILE" "ready \<noteq> OWNERSHIP_FILE"
    using assms(4,6,8) by (auto simp: tidy_def)
  from assms(10) show ?thesis
  proof (cases rule: interrupted.cases)
    case Untouched
    with open_tidy [OF assms(1), of v old] assms(4) assms(11) [of "ct_dir v"] show ?thesis by (simp add: at_def)
  next
    case (Partial ls)
    then have "bt_get (bt_remove tmp (ct_dir v)) OWNERSHIP_FILE = d OWNERSHIP_FILE"
      using free by (simp add: at_def)
    from open_partial [OF assms(1,3,4) Partial assms(6,7) assms(11) [OF this]] show ?thesis
      using Partial free by (auto simp: at_def)
  next
    case Prepared
    show ?thesis
    proof (cases "d OWNERSHIP_FILE")
      case None
      with Prepared have "at v = d(ready \<mapsto> ?f, OWNERSHIP_FILE := None)"
        using free by (simp add: fun_upd_idem)
      from open_installs [OF assms(1,3,4) this assms(8,9) new] show ?thesis
        using Prepared free by (auto simp: at_def)
    next
      case (Some g)
      have "bt_get (bt_remove ready (ct_dir v)) OWNERSHIP_FILE = d OWNERSHIP_FILE"
        using free Prepared by (simp add: at_def)
      from open_discards [OF assms(1,3,4) Prepared assms(8,9) _ assms(11) [OF this]] show ?thesis
        using Prepared free Some by (auto simp: at_def)
    qed
  next
    case Removed
    from open_installs [OF assms(1,3,4) Removed assms(8,9) new] show ?thesis
      using Removed free by (auto simp: at_def)
  next
    case Installed
    have "tidy (at v)" using Installed assms(4) by (auto simp: tidy_def split: if_splits)
    moreover have "read_ownership (xe_codec env) (ct_dir v) = Inr table"
      using Installed read_ownership_encoded [OF assms(2,5)] by (simp add: at_def)
    ultimately show ?thesis
      using open_tidy [OF assms(1)] Installed by (fastforce simp: at_def)
  qed
qed

lemma read_ownership_keeps:
  assumes "for_lines c path ownership_step n ls table = Inr table'" "ownership_ok table"
  shows "ownership_ok table'"
  using assms
proof (induction ls arbitrary: n table)
  case (Cons l ls)
  show ?case
  proof (cases "cd_blank c l")
    case False
    with Cons.prems(1) obtain r t where "ownership_step n r table = Inr t"
      and rest: "for_lines c path ownership_step (Suc n) ls t = Inr table'"
      by (auto simp: and_then_ok split: option.splits)
    then have r: "valid_ownership r" "ensure_sensitive ''device_ownership.content_ref'' (ow_content_ref r) = ok"
      and t: "t = bt_insert (ownership_key r) r table"
      by (simp_all add: ownership_step_ok)
    have "ownership_ok t"
      using Cons.prems(2) r unfolding t ownership_ok_def by (simp add: keyed_insert)
    with Cons.IH rest show ?thesis by blast
  qed (use Cons in simp)
qed simp

lemma read_ownership_ok: "read_ownership c d = Inr table \<Longrightarrow> ownership_ok table"
  unfolding read_ownership_def by (erule read_ownership_keeps) (simp add: ownership_ok_def)

lemma fs_keeps_wf: "io_keeps (\<lambda>w. bt_wf (ct_dir w)) (fs env op)"
  by (simp add: io_keeps_def fs_wf)

lemma install_keeps_wf: "io_keeps (\<lambda>w. bt_wf (ct_dir w)) (install_rewrite env ready)"
  unfolding io_keeps_def
proof (intro allI impI)
  fix w :: "'a content_store" assume wf: "bt_wf (ct_dir w)"
  obtain q w1 where q: "fs env (Rename_File ready OWNERSHIP_FILE) w = (q, w1)" by fastforce
  have w1: "bt_wf (ct_dir w1)" using fs_wf [OF wf, of env "Rename_File ready OWNERSHIP_FILE"] q by simp
  have "io_keeps (\<lambda>w. bt_wf (ct_dir w)) (io_bind (fs env (Remove_File OWNERSHIP_FILE)) (\<lambda>_.
      io_bind (fs env Sync_Directory) (\<lambda>_. fs env (Rename_File ready OWNERSHIP_FILE))))"
    by (intro io_keeps_bind fs_keeps_wf)
  then show "bt_wf (ct_dir (snd (install_rewrite env ready w)))"
    using q w1 by (cases q) (auto simp: install_rewrite_def io_keeps_def)
qed

lemma rewrite_keeps_wf: "io_keeps (\<lambda>w. bt_wf (ct_dir w)) (rewrite_ownership env table)"
  unfolding rewrite_ownership_def Let_def
  by (intro io_keeps_bind io_keeps_on_error io_keeps_each fs_keeps_wf install_keeps_wf)

section \<open>Quotas\<close>

definition record_bytes :: "string \<Rightarrow> ownership_record \<Rightarrow> nat" where
  "record_bytes device r = (if ow_device_digest r = device then unat (cr_byte_len (ow_content_ref r)) else 0)"

definition owned_bytes :: "string \<Rightarrow> ownership \<Rightarrow> nat" where
  "owned_bytes device table = sum_list (map (record_bytes device) (bt_values table))"

definition quota_ok :: "ownership \<Rightarrow> bool" where
  "quota_ok table \<longleftrightarrow> bt_wf table \<and> (\<forall>device. owned_bytes device table \<le> unat DEVICE_CONTENT_QUOTA_BYTES)"

lemma sum_insert:
  fixes f :: "'v \<Rightarrow> nat"
  assumes "bt_wf m"
  shows "sum_list (map f (bt_values (bt_insert k v m))) + (case bt_get m k of None \<Rightarrow> 0 | Some q \<Rightarrow> f q)
    = sum_list (map f (bt_values m)) + f v"
  using assms
proof (induction m)
  case (Cons e m)
  obtain a b where e: "e = (a, b)" by (cases e)
  have wf: "bt_wf m" and less: "\<forall>x \<in> set (map fst m). a < x"
    using Cons.prems by (auto simp: bt_wf_def e)
  have "map_of m k = None" if "k \<le> a" using that less by (force simp: map_of_eq_None_iff)
  with Cons.IH [OF wf] show ?case by (auto simp: e bt_values_def bt_get_def)
qed (simp add: bt_values_def)

lemma owned_retain: "owned_bytes device (bt_retain p table) \<le> owned_bytes device table"
  by (induction table) (auto simp: owned_bytes_def bt_retain_def bt_values_def)

lemma saturating_fold:
  assumes "unat n + sum_list (map (\<lambda>r. unat (cr_byte_len (ow_content_ref r))) rs) < 2 ^ 64"
  shows "unat (fold (\<lambda>r n. u64_saturating_add n (cr_byte_len (ow_content_ref r))) rs n)
    = unat n + sum_list (map (\<lambda>r. unat (cr_byte_len (ow_content_ref r))) rs)"
  using assms
proof (induction rs arbitrary: n)
  case (Cons r rs)
  let ?b = "cr_byte_len (ow_content_ref r)"
  have "checked_add n ?b = Some (n + ?b)" using Cons.prems by (simp add: checked_add_Some)
  then have "u64_saturating_add n ?b = n + ?b" "unat (n + ?b) = unat n + unat ?b"
    using unat_checked_add by (auto simp: u64_saturating_add_def)
  with Cons.IH [of "n + ?b"] Cons.prems show ?case by simp
qed simp

lemma device_bytes_exact:
  assumes "owned_bytes device table < 2 ^ 64" "\<And>r. r \<in> set (bt_values table) \<Longrightarrow> now < ow_expires_at_ms r"
  shows "unat (device_bytes device now table) = owned_bytes device table"
proof -
  have "filter (\<lambda>r. ow_device_digest r = device \<and> now < ow_expires_at_ms r) (bt_values table)
      = filter (\<lambda>r. ow_device_digest r = device) (bt_values table)"
    using assms(2) by (intro filter_cong) auto
  moreover have "sum_list (map (\<lambda>r. unat (cr_byte_len (ow_content_ref r))) (filter (\<lambda>r. ow_device_digest r = device) vs))
      = sum_list (map (record_bytes device) vs)" for vs
    by (induction vs) (auto simp: record_bytes_def)
  ultimately show ?thesis
    using saturating_fold [of 0 "filter (\<lambda>r. ow_device_digest r = device) (bt_values table)"] assms(1)
    by (simp add: device_bytes_def owned_bytes_def)
qed

lemma over_quota_exact: "\<not> over_quota a b \<longleftrightarrow> unat a + unat b \<le> unat DEVICE_CONTENT_QUOTA_BYTES"
proof -
  have "unat DEVICE_CONTENT_QUOTA_BYTES < 2 ^ 64" by (simp add: DEVICE_CONTENT_QUOTA_BYTES_def)
  moreover have "2 ^ 64 \<le> unat a + unat b" if "checked_add a b = None"
    using that checked_add_None [of a b] by simp
  ultimately show ?thesis
    using unat_checked_add [of a b]
    by (cases "checked_add a b") (auto simp: over_quota_def not_less word_le_nat_alt)
qed

lemma quota_insert:
  assumes "quota_ok table" "\<And>r. r \<in> set (bt_values table) \<Longrightarrow> now < ow_expires_at_ms r"
    and "already_owned device cid len now table \<or> \<not> over_quota (device_bytes device now table) len"
    and "ow_device_digest r = device" "cr_byte_len (ow_content_ref r) = len"
    and key: "\<And>q. bt_get table (device, cid) = Some q \<Longrightarrow> ow_device_digest q = device"
  shows "quota_ok (bt_insert (device, cid) r table)"
proof -
  have wf: "bt_wf table" and quota: "owned_bytes dev table \<le> unat DEVICE_CONTENT_QUOTA_BYTES" for dev
    using assms(1) by (auto simp: quota_ok_def)
  have small: "unat DEVICE_CONTENT_QUOTA_BYTES < 2 ^ 64" by (simp add: DEVICE_CONTENT_QUOTA_BYTES_def)
  have eq: "owned_bytes dev (bt_insert (device, cid) r table)
      + (case bt_get table (device, cid) of None \<Rightarrow> 0 | Some q \<Rightarrow> record_bytes dev q) = owned_bytes dev table + record_bytes dev r" for dev
    unfolding owned_bytes_def by (rule sum_insert [OF wf])
  have "owned_bytes dev (bt_insert (device, cid) r table) \<le> unat DEVICE_CONTENT_QUOTA_BYTES" for dev
  proof (cases "dev = device")
    case False
    then have "record_bytes dev r = 0" using assms(4) by (simp add: record_bytes_def)
    with eq [of dev] quota [of dev] show ?thesis by simp
  next
    case True
    show ?thesis
    proof (cases "already_owned device cid len now table")
      case owned: True
      then obtain q where "bt_get table (device, cid) = Some q" "cr_byte_len (ow_content_ref q) = len"
        by (auto simp: already_owned_def is_some_and_iff)
      with eq [of dev] quota [of dev] key True assms(4,5) show ?thesis by (simp add: record_bytes_def)
    next
      case False
      then have "unat (device_bytes device now table) + unat len \<le> unat DEVICE_CONTENT_QUOTA_BYTES"
        using assms(3) over_quota_exact by simp
      moreover have "unat (device_bytes device now table) = owned_bytes device table"
        using device_bytes_exact [OF _ assms(2)] quota [of device] small by simp
      ultimately show ?thesis
        using eq [of dev] True assms(4,5) by (simp add: record_bytes_def)
    qed
  qed
  then show ?thesis using wf by (simp add: quota_ok_def)
qed

text \<open>Only the last step of an accepted upload touches the table.\<close>

abbreviation table_is :: "ownership \<Rightarrow> 'l content_store \<Rightarrow> bool" where
  "table_is table w \<equiv> ct_ownership w = table"

lemma fs_keeps_table: "io_keeps (table_is table) (fs env op)"
  by (simp add: io_keeps_def)

lemma sync_keeps_table: "io_keeps (table_is table) (sync_if env b)"
  by (simp add: sync_if_def fs_keeps_table)

lemma install_keeps_table: "io_keeps (table_is table) (install_rewrite env ready)"
  unfolding io_keeps_def
proof (intro allI impI)
  fix w :: "'a content_store" assume w: "table_is table w"
  obtain q w1 where q: "fs env (Rename_File ready OWNERSHIP_FILE) w = (q, w1)" by fastforce
  have "table_is table w1" using fs_ownership [of env "Rename_File ready OWNERSHIP_FILE" w] q w by simp
  moreover have "io_keeps (table_is table) (io_bind (fs env (Remove_File OWNERSHIP_FILE)) (\<lambda>_.
      io_bind (fs env Sync_Directory) (\<lambda>_. fs env (Rename_File ready OWNERSHIP_FILE))))"
    by (intro io_keeps_bind fs_keeps_table)
  ultimately show "table_is table (snd (install_rewrite env ready w))"
    using q by (cases q) (auto simp: install_rewrite_def io_keeps_def)
qed

lemma rewrite_keeps_table: "io_keeps (table_is table) (rewrite_ownership env t)"
  unfolding rewrite_ownership_def Let_def
  by (intro io_keeps_bind io_keeps_on_error io_keeps_each fs_keeps_table install_keeps_table)

lemma cleanup_keeps_table: "io_keeps (table_is table) (cleanup_temporary_files env)"
  unfolding cleanup_temporary_files_def
  by (intro io_keeps_bind io_keeps_basic io_keeps_each fs_keeps_table sync_keeps_table)

lemma append_keeps_table: "io_keeps (table_is table) (append_ownership env r)"
  unfolding append_ownership_def
  by (intro io_keeps_bind io_keeps_basic fs_keeps_table sync_keeps_table)

lemma verify_keeps_table: "io_keeps (table_is table) (\<lambda>w. (verify_body dg (ct_dir w) cid n hex, w))"
  by (simp add: io_keeps_def)

lemma store_keeps_table: "io_keeps (table_is table) (store_body env kind sens bytes)"
proof -
  have link: "io_keeps (table_is table) (link_body env temporary cid len hex)" for temporary cid len hex
  proof -
    have "io_keeps (table_is table) (io_bind (fs env (Remove_File temporary)) (\<lambda>_. fs env Sync_Directory))"
      "io_keeps (table_is table) (io_bind (fs env (Remove_File temporary)) (\<lambda>_.
        io_bind (\<lambda>w. (verify_body (xe_digests env) (ct_dir w) cid len hex, w)) (\<lambda>_. fs env Sync_Directory)))"
      by (intro io_keeps_bind fs_keeps_table verify_keeps_table)+
    moreover have "table_is table w1" if "table_is table w" "fs env op w = (q, w1)" for op w q w1
      using fs_ownership [of env op w] that by simp
    ultimately show ?thesis
      unfolding io_keeps_def link_body_def by (auto split: prod.split sum.split)
  qed
  then have "io_keeps (table_is table) (install_body env cid bytes hex)" for cid hex
    unfolding install_body_def Let_def by (intro io_keeps_bind io_keeps_on_error fs_keeps_table link)
  then show ?thesis
    unfolding store_body_def Let_def by (auto intro!: io_keeps_bind io_keeps_basic verify_keeps_table)
qed

lemma expired_table:
  "ct_ownership (snd (cleanup_expired_ownership env now w)) = bt_retain (\<lambda>_ r. now < ow_expires_at_ms r) (ct_ownership w)"
proof -
  let ?kept = "bt_retain (\<lambda>_ r. now < ow_expires_at_ms r) (ct_ownership w)"
  have "io_keeps (table_is ?kept) (io_bind (if b then rewrite_ownership env ?kept else io_return ()) (\<lambda>_. cleanup_temporary_files env))" for b
    by (auto intro!: io_keeps_bind cleanup_keeps_table rewrite_keeps_table)
  then show ?thesis
    by (simp add: cleanup_expired_ownership_def io_bind_def [of "io_get _"] io_bind_def [of "io_modify _"] Let_def io_keeps_def)
qed

text \<open>A table is keyed by device and content, so an entry under a key belongs to its device.\<close>

definition table_ok :: "ownership \<Rightarrow> bool" where
  "table_ok table \<longleftrightarrow> quota_ok table \<and> (\<forall>k r. bt_get table k = Some r \<longrightarrow> ownership_key r = k)"

lemma table_ok_retain: "table_ok table \<Longrightarrow> table_ok (bt_retain p table)"
proof -
  assume ok: "table_ok table"
  then have wf: "bt_wf table" by (simp add: table_ok_def quota_ok_def)
  have "bt_get table k = Some r" if "bt_get (bt_retain p table) k = Some r" for k r
    using that bt_get_retain [OF wf, of p k] by (auto split: option.splits if_splits)
  moreover have "quota_ok (bt_retain p table)"
    using ok wf owned_retain [of _ p table] by (auto simp: table_ok_def quota_ok_def intro: order_trans)
  ultimately show ?thesis using ok by (auto simp: table_ok_def)
qed

lemma accept_keeps:
  assumes "ct_ownership w = table" "table_ok table" "\<And>r. r \<in> set (bt_values table) \<Longrightarrow> now < ow_expires_at_ms r"
    and "already_owned device (hex_digest (xe_digests env) bytes) (u64_len bytes) now table
      \<or> \<not> over_quota (device_bytes device now table) (u64_len bytes)"
  shows "table_ok (ct_ownership (snd (accept_write env device request bytes now expires w)))"
  unfolding accept_write_def
proof (rule io_bind_post)
  fix e w' assume "store_body env (wq_content_kind request) Sensitive bytes w = (Inl e, w')"
  from io_keepsD [OF store_keeps_table assms(1) this] assms(2) show "table_ok (ct_ownership w')" by simp
next
  fix ref w1 assume st: "store_body env (wq_content_kind request) Sensitive bytes w = (Inr ref, w1)"
  let ?hex = "hex_digest (xe_digests env) bytes"
  have ref: "ref = stored_reference ?hex (wq_content_kind request) Sensitive bytes"
    using st by (auto simp: store_body_def Let_def io_bind_ok)
  have w1: "ct_ownership w1 = table"
    using io_keepsD [OF store_keeps_table assms(1) st] .
  let ?r = "\<lparr>ow_format_version = OWNERSHIP_FORMAT_VERSION, ow_device_digest = device, ow_content_ref = ref,
      ow_created_at_ms = now, ow_expires_at_ms = expires\<rparr>"
  have new: "table_ok (bt_insert (device, ?hex) ?r table)"
    using assms(2-4) quota_insert [of table now device ?hex "u64_len bytes" ?r]
    by (auto simp: table_ok_def ref stored_reference_def ownership_key_def)
  let ?rest = "io_bind (io_modify (\<lambda>w. w\<lparr>ct_ownership := bt_insert (device, ?hex) ?r (ct_ownership w)\<rparr>)) (\<lambda>_.
      io_bind (io_lift (map_err State_Contract (write_response_validate_for request (Write_Stored ref)))) (\<lambda>_.
        io_return (Write_Stored ref)))"
  have "table_ok (ct_ownership (snd (io_bind (append_ownership env ?r) (\<lambda>_. ?rest) w1)))"
  proof (rule io_bind_post)
    show "table_ok (ct_ownership w')" if "append_ownership env ?r w1 = (Inl e, w')" for e w'
      using io_keepsD [OF append_keeps_table w1 that] assms(2) by simp
  next
    fix u w2 assume "append_ownership env ?r w1 = (Inr u, w2)"
    from io_keepsD [OF append_keeps_table w1 this] have "ct_ownership w2 = table" .
    then show "table_ok (ct_ownership (snd (?rest w2)))"
      using new by (simp add: io_bind_def split: sum.split)
  qed
  then show "table_ok (ct_ownership (snd ((let r = ?r in io_bind (append_ownership env r) (\<lambda>_.
         io_bind (io_modify (\<lambda>w. w\<lparr>ct_ownership := bt_insert (device, ?hex) r (ct_ownership w)\<rparr>)) (\<lambda>_.
         io_bind (io_lift (map_err State_Contract (write_response_validate_for request (Write_Stored ref)))) (\<lambda>_.
           io_return (Write_Stored ref))))) w1)))"
    by (simp add: Let_def)
qed

lemma write_keeps:
  assumes "table_ok (ct_ownership w)"
  shows "table_ok (ct_ownership (snd (write_for_device env device_id request bytes now w)))"
  unfolding write_for_device_def
proof (rule io_bind_post)
  fix e w' assume "cleanup_expired_ownership env now w = (Inl e, w')"
  then show "table_ok (ct_ownership w')"
    using expired_table [of env now w] table_ok_retain [OF assms] by simp
next
  fix u w1 assume c: "cleanup_expired_ownership env now w = (Inr u, w1)"
  have w1: "ct_ownership w1 = bt_retain (\<lambda>_ r. now < ow_expires_at_ms r) (ct_ownership w)"
    using expired_table [of env now w] c by simp
  have ok: "table_ok (ct_ownership w1)" using table_ok_retain [OF assms] w1 by simp
  have fresh: "now < ow_expires_at_ms r" if "r \<in> set (bt_values (ct_ownership w1))" for r
    using that unfolding w1 by (auto simp: bt_values_def bt_retain_def)
  show "table_ok (ct_ownership (snd ((let dg = xe_digests env; device = device_digest dg device_id; hex = hex_digest dg bytes; len = u64_len bytes
      in if write_request_validate request \<noteq> ok then io_return (rejected_write now)
         else if len \<noteq> wq_byte_len request \<or> ''sha256:'' @ hex \<noteq> wq_digest request then io_return (rejected_write now)
         else io_bind (io_get ct_ownership) (\<lambda>table.
           if \<not> already_owned device hex len now table \<and> over_quota (device_bytes device now table) len
           then io_return (rejected_write now)
           else (case i64_checked_add now DEVICE_CONTENT_TTL_MS of
               None \<Rightarrow> io_return (rejected_write now)
             | Some expires_at_ms \<Rightarrow> accept_write env device request bytes now expires_at_ms))) w1)))"
    using ok accept_keeps [OF refl ok fresh] by (auto simp: Let_def io_bind_def split: option.split)
qed

section \<open>Using an upload\<close>

lemma body_at_insert: "body_at (bt_insert n f d) m = (if m = n then (case f of Body b \<Rightarrow> Some b | Lines _ \<Rightarrow> None) else body_at d m)"
  by (simp add: body_at_def split: content_file.split)

lemma safe_not_ownership: "safe_content_component n \<Longrightarrow> n \<noteq> OWNERSHIP_FILE"
  by (auto simp: safe_content_component_def is_lower_hex64_def OWNERSHIP_FILE_def)

lemma verify_body_ok:
  "verify_body dg d cid n hex = ok \<longleftrightarrow> (\<exists>b. body_at d cid = Some b \<and> length b = n \<and> hex_digest dg b = hex)"
  by (auto simp: verify_body_def and_then_ok ok_or_ok)

lemma fs_sync_dir: "fs env Sync_Directory w = (Inr u, w') \<Longrightarrow> w' = w"
  by (auto simp: fs_def split: if_splits)

lemma safe_not_temporary: "safe_content_component n \<Longrightarrow> body_temporary env m \<noteq> n"
  by (auto simp: safe_content_component_def is_lower_hex64_def body_temporary_def is_ascii_hexdigit_code)

lemma link_body_at:
  assumes "link_body env temporary cid (length bytes) hex w = (Inr u, w')" "at w temporary = Some (Body bytes)"
    and "hex = hex_digest (xe_digests env) bytes" "temporary \<noteq> cid"
  shows "\<exists>b. body_at (ct_dir w') cid = Some b \<and> length b = length bytes \<and> hex_digest (xe_digests env) b = hex"
proof -
  obtain q w1 where q: "fs env (Hard_Link temporary cid) w = (q, w1)" by fastforce
  show ?thesis
  proof (cases q)
    case (Inr v)
    then obtain w2 where w2: "fs env (Remove_File temporary) w1 = (Inr (), w2)" "fs env Sync_Directory w2 = (Inr (), w')"
      using assms(1) q by (auto simp: link_body_def io_bind_ok)
    have "at w1 cid = Some (Body bytes)"
      using fs_at(7) [OF q [unfolded Inr] refl] assms(2) by simp
    then have "at w' cid = Some (Body bytes)"
      using fs_at(5) [OF w2(1) refl] fs_sync_dir [OF w2(2)] assms(4) by simp
    then show ?thesis using assms(3) by (simp add: at_def body_at_def)
  next
    case (Inl e)
    then obtain w2 where "verify_body (xe_digests env) (ct_dir w2) cid (length bytes) hex = ok" "fs env Sync_Directory w2 = (Inr (), w')"
      using assms(1) q by (auto simp: link_body_def io_bind_ok split: if_splits)
    then show ?thesis using fs_sync_dir verify_body_ok by metis
  qed
qed

lemma install_body_at:
  assumes "install_body env cid bytes hex w = (Inr u, w')" "hex = hex_digest (xe_digests env) bytes" "safe_content_component cid"
  shows "\<exists>b. body_at (ct_dir w') cid = Some b \<and> length b = length bytes \<and> hex_digest (xe_digests env) b = hex"
proof -
  let ?tmp = "body_temporary env cid"
  obtain w1 w2 where w1: "fs env (Write_Body ?tmp bytes) w1 = (Inr (), w2)"
    and "\<exists>w3. fs env (Sync_File ?tmp) w2 = (Inr (), w3) \<and> link_body env ?tmp cid (length bytes) hex w3 = (Inr (), w')"
    using assms(1) by (auto simp: install_body_def Let_def io_bind_ok io_on_error_ok)
  then obtain w3 where w3: "fs env (Sync_File ?tmp) w2 = (Inr (), w3)" and link: "link_body env ?tmp cid (length bytes) hex w3 = (Inr (), w')"
    by blast
  have "at w3 ?tmp = Some (Body bytes)"
    using fs_at(3) [OF w1 refl] fs_at(8) [OF w3 refl] by simp
  then show ?thesis
    using link_body_at [OF link _ assms(2)] safe_not_temporary [OF assms(3)] by blast
qed

lemma store_body_at:
  assumes "store_body env kind sens bytes w = (Inr ref, w')"
  shows "ref = stored_reference (hex_digest (xe_digests env) bytes) kind sens bytes"
    and "content_ref_validate ref = ok" "safe_content_component (cr_content_id ref)"
    and "\<exists>b. body_at (ct_dir w') (cr_content_id ref) = Some b \<and> length b = length bytes
      \<and> hex_digest (xe_digests env) b = hex_digest (xe_digests env) bytes"
proof -
  let ?hex = "hex_digest (xe_digests env) bytes"
  let ?ref = "stored_reference ?hex kind sens bytes"
  let ?m = "if bt_contains (ct_dir w) ?hex then \<lambda>w. (verify_body (xe_digests env) (ct_dir w) ?hex (length bytes) ?hex, w)
    else install_body env ?hex bytes ?hex"
  obtain p where path: "content_path ?hex = Inr p" by (cases "content_path ?hex") (use assms in \<open>auto simp: store_body_def Let_def io_bind_def\<close>)
  have "io_bind ?m (\<lambda>_. io_bind (io_lift (map_err State_Contract (content_ref_validate ?ref))) (\<lambda>_. io_return ?ref)) w = (Inr ref, w')"
    using assms path by (simp add: store_body_def Let_def)
  then obtain u w1 where body: "?m w = (Inr u, w1)"
    and rest: "io_bind (io_lift (map_err State_Contract (content_ref_validate ?ref))) (\<lambda>_. io_return ?ref) w1 = (Inr ref, w')"
    unfolding io_bind_ok by blast
  have val: "content_ref_validate ref = ok" and ref: "ref = ?ref" and w1: "w' = w1"
    using rest by (auto simp: io_bind_ok map_err_ok)
  show "ref = stored_reference ?hex kind sens bytes" by (rule ref)
  show "content_ref_validate ref = ok" by (rule val)
  show "safe_content_component (cr_content_id ref)"
    using path ref by (auto simp: content_path_def stored_reference_def split: if_splits)
  have "\<exists>b. body_at (ct_dir w1) ?hex = Some b \<and> length b = length bytes \<and> hex_digest (xe_digests env) b = ?hex"
    using body install_body_at [OF _ refl, of env ?hex bytes w u w1] path verify_body_ok [of "xe_digests env" "ct_dir w" ?hex "length bytes" ?hex]
    by (cases "bt_contains (ct_dir w) ?hex") (auto simp: content_path_def simp del: verify_body_ok split: if_splits)
  then show "\<exists>b. body_at (ct_dir w') (cr_content_id ref) = Some b \<and> length b = length bytes
      \<and> hex_digest (xe_digests env) b = ?hex"
    using ref w1 by (simp add: stored_reference_def)
qed

lemma append_ownership_body:
  assumes "append_ownership env r w = (Inr u, w')" "n \<noteq> OWNERSHIP_FILE"
  shows "body_at (ct_dir w') n = body_at (ct_dir w) n"
proof -
  obtain w1 where w1: "fs env (Append_Line OWNERSHIP_FILE (cd_encode (xe_codec env) r)) w = (Inr (), w1)"
    and "\<exists>w2. fs env (Sync_File OWNERSHIP_FILE) w1 = (Inr (), w2) \<and> sync_if env (\<not> bt_contains (ct_dir w) OWNERSHIP_FILE) w2 = (Inr (), w')"
    using assms(1) by (auto simp: append_ownership_def io_bind_ok)
  then have "at w' = at w1" using fs_at(6,8) by (fastforce simp: sync_if_def split: if_splits)
  then show ?thesis
    using fs_at(2) [OF w1 refl] assms(2) by (auto simp: at_def body_at_def)
qed

lemma write_stored:
  assumes "write_for_device env device_id request bytes now w = (Inr (Write_Stored ref), w')"
  obtains w1 w2 w3 expires r where "expires = now + DEVICE_CONTENT_TTL_MS"
    and "store_body env (wq_content_kind request) Sensitive bytes w1 = (Inr ref, w2)"
    and "append_ownership env r w2 = (Inr (), w3)"
    and "w' = w3\<lparr>ct_ownership := bt_insert (device_digest (xe_digests env) device_id, hex_digest (xe_digests env) bytes) r (ct_ownership w3)\<rparr>"
    and "ow_expires_at_ms r = expires" "ow_content_ref r = ref"
    and "u64_len bytes = wq_byte_len request" "''sha256:'' @ hex_digest (xe_digests env) bytes = wq_digest request"
proof -
  obtain w1 expires where len: "u64_len bytes = wq_byte_len request" "''sha256:'' @ hex_digest (xe_digests env) bytes = wq_digest request"
    and exp: "i64_checked_add now DEVICE_CONTENT_TTL_MS = Some expires"
    and acc: "accept_write env (device_digest (xe_digests env) device_id) request bytes now expires w1 = (Inr (Write_Stored ref), w')"
    using assms by (auto simp: write_for_device_def Let_def io_bind_ok rejected_write_def split: if_splits option.splits)
  have "expires = now + DEVICE_CONTENT_TTL_MS" using exp by (simp add: i64_checked_add_def split: if_splits)
  with acc len that show thesis
    by (auto simp: accept_write_def Let_def io_bind_ok)
qed

section \<open>Reading in chunks\<close>

lemma read_reference_stored:
  assumes "read_request_validate request = ok" "cr_content_id reference = rq_content_id request"
    and "cr_availability reference = Stored" "load_body dg d reference = Inr bytes"
  shows "read_reference dg d reference request = read_slice reference request bytes"
  using assms by (simp add: read_reference_def)

lemma read_reference_chunk:
  assumes "read_reference dg d reference request = Inr (Read_Chunk c)"
  shows "\<exists>bytes. read_slice reference request bytes = Inr (Read_Chunk c) \<and> read_request_validate request = ok"
  using assms
  by (auto simp: read_reference_def and_then_ok map_err_ok unavailable_def
      split: if_splits content_availability.splits sum.splits state_error.splits)

lemma u64_of_nat: "k < 2 ^ 64 \<Longrightarrow> unat (of_nat k :: u64) = k"
  by (simp add: unat_of_nat take_bit_nat_eq_self)

lemma slice_next:
  assumes "read_slice reference request bytes = Inr (Read_Chunk c)" "read_request_validate request = ok"
    and "ch_next_offset c = Some n"
  shows "unat (rq_offset request) < unat n"
proof -
  have "1 \<le> rq_max_bytes request" using assms(2) by (simp add: read_request_validate_def)
  then have max: "0 < unat (rq_max_bytes request)" by (simp add: word_le_nat_alt)
  have c: "ch_offset c = rq_offset request" "\<not> ch_eof c" "read_chunk_validate c = ok"
    "ch_bytes c = take (min (unat (rq_offset request) + unat (rq_max_bytes request)) (length bytes) - unat (rq_offset request))
      (drop (unat (rq_offset request)) bytes)"
    and len: "unat (rq_offset request) \<le> length bytes"
      "min (unat (rq_offset request) + unat (rq_max_bytes request)) (length bytes) \<noteq> length bytes"
    using assms(1,3) by (auto simp: read_slice_def Let_def and_then_ok map_err_ok split: if_splits)
  then have l: "length (ch_bytes c) = unat (rq_max_bytes request)" by auto
  obtain e where e: "checked_add (ch_offset c) (of_nat (length (ch_bytes c))) = Some e" "n = e"
    using c(2,3) assms(3) by (auto simp: read_chunk_validate_def split: sum.splits option.splits)
  have "unat (rq_max_bytes request) < 2 ^ LENGTH(32)" by (rule unsigned_less)
  then have "unat (of_nat (length (ch_bytes c)) :: u64) = length (ch_bytes c)"
    using l by (intro u64_of_nat) simp
  then show ?thesis
    using unat_checked_add [OF e(1)] e(2) c(1) l max by simp
qed

text \<open>A reader that asks for the next chunk until the end of the body.\<close>

function read_to_end :: "digests \<Rightarrow> 'l content_dir \<Rightarrow> content_ref \<Rightarrow> u32 \<Rightarrow> u64 \<Rightarrow> bytes option" where
  "read_to_end dg d reference max_bytes offset =
     (case read_reference dg d reference
         \<lparr>rq_content_id = cr_content_id reference, rq_offset = offset, rq_max_bytes = max_bytes\<rparr> of
        Inr (Read_Chunk c) \<Rightarrow>
          (case ch_next_offset c of
             None \<Rightarrow> Some (ch_bytes c)
           | Some n \<Rightarrow> map_option ((@) (ch_bytes c)) (read_to_end dg d reference max_bytes n))
      | _ \<Rightarrow> None)"
  by pat_completeness auto

termination
proof (relation "measure (\<lambda>(_, _, _, _, offset). 2 ^ 64 - unat offset)")
  fix dg :: digests and d :: "'l content_dir" and reference max_bytes offset r c n
  assume "read_reference dg d reference \<lparr>rq_content_id = cr_content_id reference, rq_offset = offset, rq_max_bytes = max_bytes\<rparr> = Inr r"
    "r = Read_Chunk c" "ch_next_offset c = Some n"
  then have "unat offset < unat n"
    using read_reference_chunk slice_next by (metis content_read_request.select_convs(2))
  moreover have "unat n < 2 ^ 64" using unsigned_less [of n] by simp
  ultimately show "((dg, d, reference, max_bytes, n), (dg, d, reference, max_bytes, offset))
      \<in> measure (\<lambda>(_, _, _, _, offset). 2 ^ 64 - unat offset)" by simp
qed simp

declare read_to_end.simps [simp del]

lemma slice_ok:
  assumes "unat offset \<le> length bytes" "length bytes < 2 ^ 64" "validate_digest (cr_digest reference) = ok"
    and "cr_content_id reference \<noteq> []" "1 \<le> max_bytes" "max_bytes \<le> MAX_CONTENT_READ_BYTES"
    and "end_at = min (unat offset + unat max_bytes) (length bytes)"
  shows "read_slice reference \<lparr>rq_content_id = cr_content_id reference, rq_offset = offset, rq_max_bytes = max_bytes\<rparr> bytes
    = Inr (Read_Chunk \<lparr>ch_content_id = cr_content_id reference, ch_offset = offset,
        ch_bytes = take (end_at - unat offset) (drop (unat offset) bytes),
        ch_next_offset = (if end_at = length bytes then None else Some (of_nat end_at)), ch_eof = (end_at = length bytes),
        ch_digest = cr_digest reference\<rparr>)"
proof -
  let ?n = "end_at - unat offset"
  have n: "length (take ?n (drop (unat offset) bytes)) = ?n" "unat offset + ?n = end_at" "?n \<le> unat max_bytes" "end_at < 2 ^ 64"
    using assms(1,2,7) by auto
  have "?n \<le> unat MAX_CONTENT_READ_BYTES" using n(3) assms(6) by (simp add: word_le_nat_alt)
  moreover have "unat (of_nat ?n :: u64) = ?n" using n by (intro u64_of_nat) linarith
  then have "checked_add offset (of_nat ?n :: u64) = Some (of_nat end_at)"
    using n(2,4) by (auto simp: checked_add_Some word_unat_eq_iff unat_word_ariths u64_of_nat)
  ultimately show ?thesis
    using assms n(1) by (auto simp: read_slice_def Let_def read_chunk_validate_def)
qed

lemma read_to_end_rest:
  assumes "unat offset \<le> length bytes" "length bytes < 2 ^ 64" "content_ref_validate reference = ok"
    and "cr_availability reference = Stored" "load_body dg d reference = Inr bytes"
    and "1 \<le> max_bytes" "max_bytes \<le> MAX_CONTENT_READ_BYTES"
  shows "read_to_end dg d reference max_bytes offset = Some (drop (unat offset) bytes)"
  using assms(1)
proof (induction "length bytes - unat offset" arbitrary: offset rule: less_induct)
  case less
  let ?q = "\<lparr>rq_content_id = cr_content_id reference, rq_offset = offset, rq_max_bytes = max_bytes\<rparr>"
  have id: "cr_content_id reference \<noteq> []" "validate_digest (cr_digest reference) = ok"
    using assms(3) by (auto simp: content_ref_validate_def)
  have valid: "read_request_validate ?q = ok"
    using id(1) assms(6,7) by (simp add: read_request_validate_def)
  define end_at where "end_at = min (unat offset + unat max_bytes) (length bytes)"
  have read: "read_reference dg d reference ?q = Inr (Read_Chunk \<lparr>ch_content_id = cr_content_id reference, ch_offset = offset,
      ch_bytes = take (end_at - unat offset) (drop (unat offset) bytes),
      ch_next_offset = (if end_at = length bytes then None else Some (of_nat end_at)), ch_eof = (end_at = length bytes),
      ch_digest = cr_digest reference\<rparr>)"
    unfolding read_reference_stored [OF valid _ assms(4,5), simplified]
    using slice_ok [OF less.prems assms(2) id(2,1) assms(6,7) end_at_def] by simp
  show ?case
  proof (cases "end_at = length bytes")
    case True
    then show ?thesis by (simp add: read_to_end.simps [of _ _ _ _ offset] read)
  next
    case False
    have "0 < unat max_bytes" using assms(6) by (simp add: word_le_nat_alt)
    then have e: "end_at < length bytes" "unat offset < end_at" "end_at = unat offset + unat max_bytes"
      using False less.prems by (auto simp: end_at_def)
    have u: "unat (of_nat end_at :: u64) = end_at"
      using e(1) assms(2) by (intro u64_of_nat) simp
    have "read_to_end dg d reference max_bytes (of_nat end_at) = Some (drop end_at bytes)"
      using less.hyps [of "of_nat end_at"] e u by simp
    moreover have "take (end_at - unat offset) (drop (unat offset) bytes) @ drop end_at bytes = drop (unat offset) bytes"
      using e append_take_drop_id [of "end_at - unat offset" "drop (unat offset) bytes"] by (simp add: add.commute)
    ultimately show ?thesis
      using False by (simp add: read_to_end.simps [of _ _ _ _ offset] read)
  qed
qed

section \<open>Properties\<close>

definition sample_env :: "ownership_record option content_env" where
  "sample_env = \<lparr>xe_refuses = (\<lambda>_ _. False), xe_replaces = True, xe_suffix = ''7-1'', xe_codec = plain_codec,
     xe_digests = sample_digests\<rparr>"

definition sample_bytes :: bytes where "sample_bytes = [72, 105, 33]"

definition sample_upload :: content_write_request where
  "sample_upload = \<lparr>wq_content_kind = PlainText, wq_byte_len = 3, wq_digest = ''sha256:'' @ hex_digest sample_digests sample_bytes\<rparr>"

definition sample_uploaded :: "content_write_response state_result \<times> ownership_record option content_store" where
  "sample_uploaded = write_for_device sample_env ''dev_1'' sample_upload sample_bytes 1000 \<lparr>ct_dir = [], ct_ownership = []\<rparr>"

definition sample_content :: content_ref where
  "sample_content = stored_reference (hex_digest sample_digests sample_bytes) PlainText Sensitive sample_bytes"

lemma sample_upload_stored: "fst sample_uploaded = Inr (Write_Stored sample_content)"
  by code_simp

text \<open>
  C21: A crash or a refused operation anywhere in a rewrite of the ownership file is harmless. Let a
  directory without leftover files read as the table \<open>old\<close>, and let the file be rewritten to a part of
  \<open>old\<close> while the operating system refuses an arbitrary set of operations. The next start succeeds and
  finds either \<open>old\<close> or exactly the rewritten table, and every other file is as it was.
\<close>

theorem ownership_rewrite_atomic:
  assumes "codec_ok (xe_codec env)" "bt_wf (ct_dir w)" "tidy (at w)" "read_ownership (xe_codec env) (ct_dir w) = Inr old"
    and "calm env'" "xe_codec env' = xe_codec env"
  shows "\<exists>u. open_content env' (snd (rewrite_ownership env (bt_retain p old) w)) = (Inr (), u)
    \<and> ct_ownership u \<in> {old, bt_retain p old} \<and> (\<forall>n. n \<noteq> OWNERSHIP_FILE \<longrightarrow> at u n = at w n)"
proof -
  let ?v = "snd (rewrite_ownership env (bt_retain p old) w)"
  let ?tmp = "rewrite_stem env @ ''.tmp''" and ?ready = "rewrite_stem env @ ''.ready''"
  have free: "at w ?tmp = None" "at w ?ready = None"
    using assms(3) names [of env] by (auto simp: tidy_def)
  have "interrupted ?tmp ?ready (map (cd_encode (xe_codec env')) (bt_values (bt_retain p old))) (at w) (at ?v)"
    using rewrite_interrupted [OF free] assms(6) by simp
  moreover have "bt_wf (ct_dir ?v)"
    using rewrite_keeps_wf assms(2) by (auto simp: io_keeps_def)
  moreover have "ownership_ok (bt_retain p old)"
    using ownership_ok_retain [OF read_ownership_ok [OF assms(4)]] .
  moreover have "read_ownership (xe_codec env') e = Inr old" if "bt_get e OWNERSHIP_FILE = at w OWNERSHIP_FILE" for e
    using assms(4,6) that by (simp add: read_ownership_def lines_at_def at_def)
  ultimately show ?thesis
    using reopen_interrupted [OF assms(5) _ _ assms(3) _ names, of ?v] assms(1,6) by fastforce
qed

theorem ownership_rewrite_atomic_witness:
  "\<exists>u. open_content sample_env (snd (rewrite_ownership (sample_env\<lparr>xe_refuses := (\<lambda>_ op. op = Sync_Directory)\<rparr>)
       (bt_retain (\<lambda>_ _. False) (ct_ownership (snd sample_uploaded))) (snd sample_uploaded))) = (Inr (), u)
    \<and> ct_ownership u \<in> {ct_ownership (snd sample_uploaded), bt_retain (\<lambda>_ _. False) (ct_ownership (snd sample_uploaded))}
    \<and> (\<forall>n. n \<noteq> OWNERSHIP_FILE \<longrightarrow> at u n = at (snd sample_uploaded) n)"
proof (rule ownership_rewrite_atomic)
  have keys: "list_all (\<lambda>n. \<not> is_temporary n \<and> \<not> is_ready n) (bt_keys (ct_dir (snd sample_uploaded)))"
    by code_simp
  then show "tidy (at (snd sample_uploaded))"
    using keys_at by (auto simp: tidy_def list_all_iff)
  show "bt_wf (ct_dir (snd sample_uploaded))"
    unfolding bt_wf_def by code_simp
  show "read_ownership (xe_codec (sample_env\<lparr>xe_refuses := (\<lambda>_ op. op = Sync_Directory)\<rparr>)) (ct_dir (snd sample_uploaded))
      = Inr (ct_ownership (snd sample_uploaded))"
    by code_simp
qed (simp_all add: sample_env_def calm_def)

text \<open>
  C22: The upload quota. Whatever devices upload, in any order, at any times and with any operating
  system failures, the bytes a store records as owned by one device never exceed eight mebibytes.
\<close>

theorem device_quota_kept:
  "owned_bytes device (ct_ownership (fold (\<lambda>(env, device_id, request, bytes, now) w.
     snd (write_for_device env device_id request bytes now w)) uploads \<lparr>ct_dir = d, ct_ownership = []\<rparr>))
   \<le> 8 * 1024 * 1024"
proof -
  have "table_ok (ct_ownership (fold (\<lambda>(env, device_id, request, bytes, now) w.
      snd (write_for_device env device_id request bytes now w)) uploads w))" if "table_ok (ct_ownership w)" for w
    using that
  proof (induction uploads arbitrary: w)
    case (Cons upload uploads)
    show ?case by (cases upload) (simp add: Cons.IH [OF write_keeps [OF Cons.prems]])
  qed simp
  moreover have "table_ok []"
    by (simp add: table_ok_def quota_ok_def owned_bytes_def bt_values_def)
  moreover have "unat DEVICE_CONTENT_QUOTA_BYTES = 8 * 1024 * 1024"
    by (simp add: DEVICE_CONTENT_QUOTA_BYTES_def)
  ultimately show ?thesis
    unfolding table_ok_def quota_ok_def by (metis content_store.select_convs(2))
qed



text \<open>
  C24: Reading in chunks ends and is complete. For every chunk size the contract allows, a reader that
  follows the offsets the store returns stops after finitely many requests with exactly the stored bytes.
\<close>

theorem chunked_read_complete:
  assumes "load_body dg d reference = Inr bytes" "content_ref_validate reference = ok" "cr_availability reference = Stored"
    and "length bytes < 2 ^ 64" "1 \<le> max_bytes" "max_bytes \<le> MAX_CONTENT_READ_BYTES"
  shows "read_to_end dg d reference max_bytes 0 = Some bytes"
  using read_to_end_rest [of 0 bytes reference dg d max_bytes] assms by simp

theorem chunked_read_complete_witness:
  "read_to_end sample_digests (ct_dir (snd sample_uploaded)) sample_content 2 0 = Some sample_bytes"
proof (rule chunked_read_complete)
  show "load_body sample_digests (ct_dir (snd sample_uploaded)) sample_content = Inr sample_bytes"
    "content_ref_validate sample_content = ok"
    by code_simp+
qed (simp_all add: sample_content_def stored_reference_def sample_bytes_def MAX_CONTENT_READ_BYTES_def)

end
