(* ===== verification/Spec2Isabelle.thy ===== *)
theory Spec2Isabelle
  imports State_Properties Fanout Projection_Journal Outbox_Ledger Stream_Log Content_Properties
begin

text \<open>
  A verification library for the broker core of OneKaleidoscope: the contract crate
  (\<open>crates/kaleido-proto\<close>) and the durable state crate (\<open>crates/kaleido-state\<close>).

  \<^bold>\<open>The program.\<close> A host daemon watches coding agents and turns what it sees into \<^emph>\<open>effects\<close>. Each effect
  is validated, appended to the log of one stream under the next cursor, and applied to one canonical
  state. Read models (projections) are rebuilt from that state and kept in a journal that mobile
  clients subscribe to by cursor. Commands a device sends are recorded in an outbox before they are
  admitted, claimed before a runtime sees them, and completed when the result is known. A restart
  reads the log, the journal, the outbox and the table of uploads back.

  \<^bold>\<open>Conventions.\<close> A Rust \<open>Result\<close> is a sum with the error on the left, the question mark is \<open>and_then\<close>, a
  validator is a list of checks in source order (\<open>run_checks\<close>), a loop that may return early is
  \<open>for_each\<close>, \<open>for_seen\<close>, \<open>for_adjacent\<close> or \<open>try_fold\<close>, a \<open>BTreeMap\<close> is a strictly sorted association list. A
  \<open>String\<close> is its UTF-8 bytes, \<open>u32\<close> and \<open>u64\<close> are words and wrap or are checked as the code does, \<open>i64\<close> is an
  integer with the checked operations written out, \<open>usize\<close> is a natural number. Struct fields carry a
  short prefix per record. No definition needs fuel: every loop of the code
  is structural on a list, and the reader that follows chunk offsets ends by a measure.

  \<^bold>\<open>Theories.\<close>
  \<^item> \<open>Kaleido_Prelude\<close>, \<open>Ordered_Map\<close>: checks, early returns, machine integers, bytes; ordered maps
    with the locales \<open>ordered_map\<close> and \<open>keyed_map\<close>, interpreted on the sorted lists.
  \<^item> \<open>Contract\<close>: \<open>ids.rs\<close>, \<open>lib.rs\<close>, \<open>content.rs\<close>, \<open>error.rs\<close>, \<open>capability.rs\<close>, \<open>host.rs\<close>.
  \<^item> \<open>Session_Turn\<close>: \<open>session.rs\<close>, \<open>turn.rs\<close>. \<open>Sample_Values\<close>: concrete values the examples share.
  \<^item> \<open>Attention\<close>: \<open>attention.rs\<close>, with the reply check, its coverage of the questions and the approval
    join. \<open>Workflow\<close>: \<open>workflow.rs\<close>, with the transition table and the blockers of a step.
  \<^item> \<open>Command_Queue\<close>: \<open>queue.rs\<close> and \<open>command.rs\<close>, with the deduplication key and the reorder check.
  \<^item> \<open>Effect\<close>: \<open>effect.rs\<close>, cursors, streams, log records and snapshots; locale \<open>cursor_sequence\<close>.
  \<^item> \<open>Canonical_State\<close>: \<open>state.rs\<close>, the state record, its queries, every branch of \<open>apply\<close> and the derived
    fields. \<open>State_Invariant\<close> has the invariant \<open>wf_state\<close> and its preservation, through the locale
    \<open>effect_system\<close>; \<open>State_Properties\<close> what a replayed state satisfies.
  \<^item> \<open>Projection_Contract\<close>: \<open>projection.rs\<close> of the contract crate, views, envelopes, subscriptions.
  \<^item> \<open>Projection_Build\<close>: \<open>projection.rs\<close> of the state crate, the views of a state and the fan-out matrix;
    \<open>Fanout\<close> shows for which effects the matrix lists every changed view of a session.
  \<^item> \<open>Durable\<close>: append-only files of lines. The JSON codec and the digests are parameters; \<open>codec_ok\<close> and
    \<open>digests_ok\<close> are what their documentation promises, and \<open>plain_codec\<close> and \<open>sample_digests\<close> satisfy
    them. Locale \<open>line_reader\<close> is the contract of a reading loop.
  \<^item> \<open>Projection_Journal\<close>: \<open>projection_journal.rs\<close>, with replay, reconciliation and reading back.
  \<^item> \<open>Command_Outbox\<close>: \<open>command_outbox.rs\<close>; \<open>Outbox_Ledger\<close> has the abstract ledger of tickets it refines,
    at-most-once dispatch over restarts, and the injectivity of the framing under the digests.

  \<^item> \<open>Stream_Log\<close>: \<open>log.rs\<close>, the log files of the streams, read back in the order of the appends.
  \<^item> \<open>Content_Store\<close>: \<open>content.rs\<close>, bodies under their digests and the table of device uploads, over a
    directory whose operations may be refused; \<open>Content_Properties\<close> shows that an interrupted rewrite of
    the table is harmless, that quotas hold, and that uploads can be used and read back.

  \<^bold>\<open>Not modelled.\<close> Serialisation itself (\<open>serde_json\<close>), SHA-256, the clock and the operating system are
  parameters. A failed write leaves the file unchanged in the model; a torn last line is not modelled, nor is a
  directory listing that fails.
  The transport, relay, mobile core, host daemon and the provider adapters are network and process
  code around this core; the Android client, the recording spikes and the repository tooling are not
  part of the broker.
\<close>

end
